theory Spec2Isabelle
  imports Main "HOL-Library.Word"
begin

section \<open>Thrift messages exchanged with the workflow service\<close>

text \<open>
  The generated package \<^verbatim>\<open>.gen/go/shared\<close> is not part of the sources. A pointer field
  that the handlers read only through its nil-safe \<^verbatim>\<open>GetX()\<close> accessor is modelled by the
  value the accessor returns (nil reads as the zero value). A pointer that the handlers
  dereference or compare with nil is an \<open>option\<close>, and dereferencing \<open>None\<close> is a panic.
  64-bit and 32-bit integers are machine words; \<^verbatim>\<open>[]byte\<close> is a list of bytes.
\<close>

type_synonym bytes = "8 word list"
type_synonym int64 = "64 word"
type_synonym int32 = "32 word"

text \<open>
  The event types this file names; every other member of the Thrift enumeration is
  \<open>EventTypeOther\<close> with its enumeration value.
\<close>

datatype EventType =
    EventTypeWorkflowExecutionStarted
  | EventTypeWorkflowExecutionCompleted
  | EventTypeWorkflowExecutionFailed
  | EventTypeWorkflowExecutionCanceled
  | EventTypeWorkflowExecutionContinuedAsNew
  | EventTypeDecisionTaskScheduled
  | EventTypeDecisionTaskStarted
  | EventTypeDecisionTaskCompleted
  | EventTypeDecisionTaskTimedOut
  | EventTypeDecisionTaskFailed
  | EventTypeActivityTaskScheduled
  | EventTypeActivityTaskStarted
  | EventTypeActivityTaskCancelRequested
  | EventTypeRequestCancelActivityTaskFailed
  | EventTypeTimerStarted
  | EventTypeTimerCanceled
  | EventTypeCancelTimerFailed
  | EventTypeMarkerRecorded
  | EventTypeStartChildWorkflowExecutionInitiated
  | EventTypeRequestCancelExternalWorkflowExecutionInitiated
  | EventTypeSignalExternalWorkflowExecutionInitiated
  | EventTypeOther nat

text \<open>The attribute blocks of events, with the fields the handlers read.\<close>

record ActivityTaskScheduledEventAttributes =
  ats_ActivityId :: string
  ats_ActivityType :: string
  ats_TaskList :: string
  ats_Input :: bytes

record TimerStartedEventAttributes =
  ts_TimerId :: string
  ts_StartToFireTimeoutSeconds :: int64

record WorkflowExecutionFailedEventAttributes =
  wef_Reason :: string
  wef_Details :: bytes

record RequestCancelExternalWorkflowExecutionInitiatedEventAttributes =
  rcei_Domain :: string
  rcei_WorkflowId :: string

record SignalExternalWorkflowExecutionInitiatedEventAttributes =
  sei_Domain :: string
  sei_SignalName :: string
  sei_WorkflowId :: string

record StartChildWorkflowExecutionInitiatedEventAttributes =
  sci_WorkflowType :: string
  sci_Domain :: string
  sci_TaskList :: string

record WorkflowExecutionStartedEventAttributes =
  wes_TaskList :: "string option"
  wes_ExecutionStartToCloseTimeoutSeconds :: int32
  wes_TaskStartToCloseTimeoutSeconds :: int32
  wes_Attempt :: int32

text \<open>
  An event carries at most one attribute block. The Go struct has one pointer field per
  block; \<open>NoAttributes\<close> is the event with all of them nil. The blocks with a single
  field carry that field: the activity id, the timer id, the result, the details, the
  marker name.
\<close>

datatype EventAttributes =
    NoAttributes
  | WorkflowExecutionStartedAttrs WorkflowExecutionStartedEventAttributes
  | ActivityTaskScheduledAttrs ActivityTaskScheduledEventAttributes
  | ActivityTaskCancelRequestedAttrs string
  | RequestCancelActivityTaskFailedAttrs string
  | TimerStartedAttrs TimerStartedEventAttributes
  | TimerCanceledAttrs string
  | CancelTimerFailedAttrs string
  | WorkflowExecutionCompletedAttrs bytes
  | WorkflowExecutionFailedAttrs WorkflowExecutionFailedEventAttributes
  | WorkflowExecutionCanceledAttrs bytes
  | MarkerRecordedAttrs string
  | RequestCancelExternalWorkflowExecutionInitiatedAttrs
      RequestCancelExternalWorkflowExecutionInitiatedEventAttributes
  | SignalExternalWorkflowExecutionInitiatedAttrs
      SignalExternalWorkflowExecutionInitiatedEventAttributes
  | StartChildWorkflowExecutionInitiatedAttrs
      StartChildWorkflowExecutionInitiatedEventAttributes

record HistoryEvent =
  EventId :: int64
  Timestamp :: int64
  EventType :: EventType
  Attributes :: EventAttributes

record History =
  Events :: "HistoryEvent list"

datatype DecisionType =
    DecisionTypeScheduleActivityTask
  | DecisionTypeRequestCancelActivityTask
  | DecisionTypeStartTimer
  | DecisionTypeCancelTimer
  | DecisionTypeCompleteWorkflowExecution
  | DecisionTypeFailWorkflowExecution
  | DecisionTypeRecordMarker
  | DecisionTypeRequestCancelExternalWorkflowExecution
  | DecisionTypeSignalExternalWorkflowExecution
  | DecisionTypeCancelWorkflowExecution
  | DecisionTypeContinueAsNewWorkflowExecution
  | DecisionTypeStartChildWorkflowExecution
  | DecisionTypeOther nat

record ScheduleActivityTaskDecisionAttributes =
  sad_ActivityId :: string
  sad_ActivityType :: string
  sad_TaskList :: string
  sad_Input :: bytes

record StartTimerDecisionAttributes =
  std_TimerId :: string
  std_StartToFireTimeoutSeconds :: int64

record FailWorkflowExecutionDecisionAttributes =
  fwd_Reason :: string
  fwd_Details :: bytes

record RequestCancelExternalWorkflowExecutionDecisionAttributes =
  rced_Domain :: string
  rced_WorkflowId :: string

record SignalExternalWorkflowExecutionDecisionAttributes =
  sed_Domain :: string
  sed_SignalName :: string
  sed_WorkflowId :: string

record ContinueAsNewWorkflowExecutionDecisionAttributes =
  cand_WorkflowType :: string
  cand_Input :: bytes
  cand_TaskList :: string
  cand_ExecutionStartToCloseTimeoutSeconds :: int32
  cand_TaskStartToCloseTimeoutSeconds :: int32

record StartChildWorkflowExecutionDecisionAttributes =
  scd_WorkflowType :: string
  scd_Domain :: string
  scd_TaskList :: string

datatype DecisionAttributes =
    NoDecisionAttributes
  | ScheduleActivityTaskAttrs ScheduleActivityTaskDecisionAttributes
  | RequestCancelActivityTaskAttrs string
  | StartTimerAttrs StartTimerDecisionAttributes
  | CancelTimerAttrs string
  | CompleteWorkflowExecutionAttrs bytes
  | FailWorkflowExecutionAttrs FailWorkflowExecutionDecisionAttributes
  | RecordMarkerAttrs string
  | RequestCancelExternalWorkflowExecutionAttrs
      RequestCancelExternalWorkflowExecutionDecisionAttributes
  | SignalExternalWorkflowExecutionAttrs SignalExternalWorkflowExecutionDecisionAttributes
  | CancelWorkflowExecutionAttrs bytes
  | ContinueAsNewWorkflowExecutionAttrs ContinueAsNewWorkflowExecutionDecisionAttributes
  | StartChildWorkflowExecutionAttrs StartChildWorkflowExecutionDecisionAttributes

record Decision =
  DecisionType :: DecisionType
  DecisionAttrs :: DecisionAttributes

record WorkflowQuery =
  QueryType :: string
  QueryArgs :: bytes

text \<open>
  The task a poll returns. The pointers \<^verbatim>\<open>WorkflowExecution\<close> and \<^verbatim>\<open>WorkflowType\<close> are
  set in every task the service hands out and are read without a test throughout; they
  are flattened into the fields \<open>WorkflowId\<close>, \<open>RunId\<close> and \<open>WorkflowType\<close>.
\<close>

record PollForDecisionTaskResponse =
  TaskToken :: bytes
  WorkflowId :: string
  RunId :: string
  WorkflowType :: string
  PreviousStartedEventId :: int64
  StartedEventId :: int64
  History :: "History option"
  Query :: "WorkflowQuery option"

section \<open>Errors and panics\<close>

record ContinueAsNewParams =
  can_workflowType :: string
  can_input :: bytes
  can_taskListName :: string
  can_executionStartToCloseTimeoutSeconds :: int32
  can_taskStartToCloseTimeoutSeconds :: int32

text \<open>
  The values of Go's \<^verbatim>\<open>error\<close> interface that the handlers create or inspect. The three
  \<open>Nondeterministic\<close> errors are the three \<^verbatim>\<open>fmt.Errorf\<close> results of
  \<^verbatim>\<open>matchReplayWithHistory\<close>, kept structured instead of rendered.
\<close>

datatype error =
    ErrorString string
  | NondeterministicMissingReplayDecision HistoryEvent
  | NondeterministicExtraReplayDecision Decision
  | NondeterministicMismatch HistoryEvent Decision
  | PanicError string string
  | CanceledError bytes
  | ContinueAsNewError ContinueAsNewParams
  | CustomError string bytes
  | EntityNotExistsError
  | ServiceError string

text \<open>A run-time panic of the Go program: the call does not return.\<close>

datatype panic =
    NilPointerDereference
  | IndexOutOfRange
  | UnlockOfUnlockedMutex
  | ExplicitPanic string

section \<open>The history iterator\<close>

text \<open>
  Modelled from the spec: the interface \<^verbatim>\<open>HistoryIterator\<close> is implemented outside this
  file. It is a restartable paged cursor over a workflow's history with \<^verbatim>\<open>Reset()\<close>,
  \<^verbatim>\<open>HasNextPage()\<close> and \<^verbatim>\<open>GetNextPage()\<close>. The model holds the finite sequence of answers
  the service gives, page by page (a page or an error), and the answers not yet read.
\<close>

record HistoryIterator =
  pages :: "(error + History) list"
  unread :: "(error + History) list"

definition Reset :: "HistoryIterator \<Rightarrow> HistoryIterator" where
  "Reset it = it\<lparr>unread := pages it\<rparr>"

definition HasNextPage :: "HistoryIterator \<Rightarrow> bool" where
  "HasNextPage it = (unread it \<noteq> [])"

definition GetNextPage :: "HistoryIterator \<Rightarrow> (error + History) \<times> HistoryIterator" where
  "GetNextPage it =
     (case unread it of
        [] \<Rightarrow> (Inl (ErrorString ''no more history pages''), it)
      | p # ps \<Rightarrow> (p, it\<lparr>unread := ps\<rparr>))"

section \<open>The history reorderer\<close>

record workflowTask =
  task :: PollForDecisionTaskResponse
  historyIterator :: "HistoryIterator option"

text \<open>
  The struct \<^verbatim>\<open>history\<close>. Its field \<^verbatim>\<open>next\<close> is \<open>nextBatch\<close> here; it is a slice that
  the code compares with nil, so it is an \<open>option\<close>. The field \<^verbatim>\<open>eventsHandler\<close> is never
  read in this file and is left out.
\<close>

record history =
  workflowTask :: workflowTask
  loadedEvents :: "HistoryEvent list"
  currentIndex :: nat
  nextBatch :: "HistoryEvent list option"

text \<open>
  A slice built only by \<^verbatim>\<open>append\<close> from a nil variable is nil exactly when nothing was
  appended.
\<close>

definition appended :: "'a list \<Rightarrow> 'a list option" where
  "appended xs = (if xs = [] then None else Some xs)"

fun elems :: "'a list option \<Rightarrow> 'a list" where
  "elems None = []"
| "elems (Some xs) = xs"

definition newHistory :: "workflowTask \<Rightarrow> panic + history" where
  "newHistory wt =
     (case History (task wt) of
        None \<Rightarrow> Inl NilPointerDereference
      | Some h \<Rightarrow>
          Inr \<lparr>workflowTask = wt, loadedEvents = Events h, currentIndex = 0,
               nextBatch = None\<rparr>)"

fun isDecisionEvent :: "EventType \<Rightarrow> bool" where
  "isDecisionEvent EventTypeWorkflowExecutionCompleted = True"
| "isDecisionEvent EventTypeWorkflowExecutionFailed = True"
| "isDecisionEvent EventTypeWorkflowExecutionCanceled = True"
| "isDecisionEvent EventTypeWorkflowExecutionContinuedAsNew = True"
| "isDecisionEvent EventTypeActivityTaskScheduled = True"
| "isDecisionEvent EventTypeActivityTaskCancelRequested = True"
| "isDecisionEvent EventTypeRequestCancelActivityTaskFailed = True"
| "isDecisionEvent EventTypeTimerStarted = True"
| "isDecisionEvent EventTypeTimerCanceled = True"
| "isDecisionEvent EventTypeCancelTimerFailed = True"
| "isDecisionEvent EventTypeMarkerRecorded = True"
| "isDecisionEvent EventTypeStartChildWorkflowExecutionInitiated = True"
| "isDecisionEvent EventTypeRequestCancelExternalWorkflowExecutionInitiated = True"
| "isDecisionEvent EventTypeSignalExternalWorkflowExecutionInitiated = True"
| "isDecisionEvent _ = False"

text \<open>The comparison of event ids is the signed comparison of two \<^verbatim>\<open>int64\<close>.\<close>

definition IsReplayEvent :: "history \<Rightarrow> HistoryEvent \<Rightarrow> bool" where
  "IsReplayEvent eh event =
     (word_sle (EventId event) (PreviousStartedEventId (task (workflowTask eh)))
      \<or> isDecisionEvent (EventType event))"

text \<open>
  The loop of \<^verbatim>\<open>IsNextDecisionFailed\<close> over the loaded events from \<^verbatim>\<open>currentIndex\<close> on.
\<close>

fun nextDecisionFailedFrom :: "HistoryEvent list \<Rightarrow> bool" where
  "nextDecisionFailedFrom [] = False"
| "nextDecisionFailedFrom (e # es) =
     (case EventType e of
        EventTypeDecisionTaskCompleted \<Rightarrow> False
      | EventTypeDecisionTaskTimedOut \<Rightarrow> True
      | EventTypeDecisionTaskFailed \<Rightarrow> True
      | _ \<Rightarrow> nextDecisionFailedFrom es)"

definition IsNextDecisionFailed :: "history \<Rightarrow> bool" where
  "IsNextDecisionFailed eh = nextDecisionFailedFrom (drop (currentIndex eh) (loadedEvents eh))"

definition hasMoreEvents :: "history \<Rightarrow> bool" where
  "hasMoreEvents eh =
     (case historyIterator (workflowTask eh) of
        None \<Rightarrow> False
      | Some it \<Rightarrow> HasNextPage it)"

definition getMoreEvents :: "history \<Rightarrow> panic + ((error + History) \<times> history)" where
  "getMoreEvents eh =
     (case historyIterator (workflowTask eh) of
        None \<Rightarrow> Inl NilPointerDereference
      | Some it \<Rightarrow>
          (case GetNextPage it of
             (r, it') \<Rightarrow>
               Inr (r, eh\<lparr>workflowTask := (workflowTask eh)\<lparr>historyIterator := Some it'\<rparr>\<rparr>)))"

definition isPreloadMarkerEvent :: "HistoryEvent \<Rightarrow> bool" where
  "isPreloadMarkerEvent event = (EventType event = EventTypeMarkerRecorded)"

definition unreadPages :: "history \<Rightarrow> nat" where
  "unreadPages eh =
     (case historyIterator (workflowTask eh) of
        None \<Rightarrow> 0
      | Some it \<Rightarrow> length (unread it))"

lemma getMoreEvents_unreadPages:
  assumes "hasMoreEvents eh" and "getMoreEvents eh = Inr (r, eh1)"
  shows "unreadPages eh1 < unreadPages eh"
    and "loadedEvents eh1 = loadedEvents eh"
    and "currentIndex eh1 = currentIndex eh"
  using assms
  by (auto simp: hasMoreEvents_def getMoreEvents_def unreadPages_def HasNextPage_def
      GetNextPage_def split: option.splits list.splits)

text \<open>
  The loop labelled \<^verbatim>\<open>OrderEvents\<close> of \<^verbatim>\<open>nextDecisionEvents\<close>, with the inner loop that
  loads pages. It returns the receiver, the events and markers appended so far, and the
  error of a failed page load (\<open>None\<close> when the loop ended by \<^verbatim>\<open>break\<close>).
\<close>

function orderEvents ::
  "history \<Rightarrow> HistoryEvent list \<Rightarrow> HistoryEvent list \<Rightarrow>
   panic + (history \<times> HistoryEvent list \<times> HistoryEvent list \<times> error option)" where
  "orderEvents eh nextEvents markers =
     (if currentIndex eh = length (loadedEvents eh) then
        (if \<not> hasMoreEvents eh then Inr (eh, nextEvents, markers, None)
         else
           (case getMoreEvents eh of
              Inl p \<Rightarrow> Inl p
            | Inr (Inl err1, eh1) \<Rightarrow> Inr (eh1, nextEvents, markers, Some err1)
            | Inr (Inr historyPage, eh1) \<Rightarrow>
                orderEvents (eh1\<lparr>loadedEvents := loadedEvents eh1 @ Events historyPage\<rparr>)
                  nextEvents markers))
      else if length (loadedEvents eh) < currentIndex eh then Inl IndexOutOfRange
      else
        (let event = loadedEvents eh ! currentIndex eh in
         if EventType event = EventTypeDecisionTaskStarted then
           (if \<not> IsNextDecisionFailed eh then
              Inr (eh\<lparr>currentIndex := currentIndex eh + 1\<rparr>, nextEvents @ [event], markers, None)
            else orderEvents (eh\<lparr>currentIndex := currentIndex eh + 1\<rparr>) nextEvents markers)
         else if EventType event \<in> {EventTypeDecisionTaskCompleted,
                   EventTypeDecisionTaskScheduled, EventTypeDecisionTaskTimedOut,
                   EventTypeDecisionTaskFailed} then
           orderEvents (eh\<lparr>currentIndex := currentIndex eh + 1\<rparr>) nextEvents markers
         else
           orderEvents (eh\<lparr>currentIndex := currentIndex eh + 1\<rparr>) (nextEvents @ [event])
             (if isPreloadMarkerEvent event then markers @ [event] else markers)))"
  by pat_completeness auto
termination
proof (relation "measures [\<lambda>(eh, _, _). unreadPages eh,
                           \<lambda>(eh, _, _). length (loadedEvents eh) - currentIndex eh]")
  show "wf (measures [\<lambda>(eh, _, _). unreadPages eh,
                      \<lambda>(eh, _, _). length (loadedEvents eh) - currentIndex eh])"
    by simp
next
  fix eh :: history and nextEvents markers :: "HistoryEvent list"
    and x2 :: "(error + History) \<times> history" and x1 eh1 historyPage
  assume "currentIndex eh = length (loadedEvents eh)" "\<not> \<not> hasMoreEvents eh"
    "getMoreEvents eh = Inr x2" "(x1, eh1) = x2" "x1 = Inr historyPage"
  then have "unreadPages eh1 < unreadPages eh"
    using getMoreEvents_unreadPages(1) [of eh x1 eh1] by simp
  then show "((eh1\<lparr>loadedEvents := loadedEvents eh1 @ Events historyPage\<rparr>, nextEvents, markers),
              eh, nextEvents, markers)
             \<in> measures [\<lambda>(eh, _, _). unreadPages eh,
                         \<lambda>(eh, _, _). length (loadedEvents eh) - currentIndex eh]"
    by (simp add: unreadPages_def)
qed (auto simp: unreadPages_def)

declare orderEvents.simps [simp del]

definition nextDecisionEvents ::
  "history \<Rightarrow> panic + (HistoryEvent list option \<times> HistoryEvent list \<times> error option \<times> history)"
  where
  "nextDecisionEvents eh =
     (if currentIndex eh = length (loadedEvents eh) \<and> \<not> hasMoreEvents eh then
        Inr (Some [], [], None, eh)
      else
        (case orderEvents eh [] [] of
           Inl p \<Rightarrow> Inl p
         | Inr (eh1, nextEvents, markers, Some err1) \<Rightarrow>
             Inr (appended nextEvents, markers, Some err1, eh1)
         | Inr (eh1, nextEvents, markers, None) \<Rightarrow>
             Inr (appended nextEvents, markers, None,
                  eh1\<lparr>loadedEvents := drop (currentIndex eh1) (loadedEvents eh1),
                      currentIndex := 0\<rparr>)))"

text \<open>
  \<^verbatim>\<open>NextDecisionEvents\<close> hands out the batch it computed before and computes the one
  after it, whose markers it returns.
\<close>

definition NextDecisionEvents ::
  "history \<Rightarrow> panic + (HistoryEvent list option \<times> HistoryEvent list \<times> error option \<times> history)"
  where
  "NextDecisionEvents eh =
     (case (if nextBatch eh = None then
              (case nextDecisionEvents eh of
                 Inl p \<Rightarrow> Inl p
               | Inr (nextEvents, _, err, eh1) \<Rightarrow> Inr (err, eh1\<lparr>nextBatch := nextEvents\<rparr>))
            else Inr (None, eh)) of
        Inl p \<Rightarrow> Inl p
      | Inr (Some err, eh1) \<Rightarrow> Inr (None, [], Some err, eh1)
      | Inr (None, eh1) \<Rightarrow>
          (let result = nextBatch eh1 in
           if length (elems result) > 0 then
             (case nextDecisionEvents eh1 of
                Inl p \<Rightarrow> Inl p
              | Inr (nextEvents, markers, err, eh2) \<Rightarrow>
                  Inr (result, markers, err, eh2\<lparr>nextBatch := nextEvents\<rparr>))
           else Inr (result, [], None, eh1)))"

section \<open>The replay matcher\<close>

text \<open>
  The attribute block an event or a decision carries, read through the struct field of
  that name: \<open>None\<close> is the nil pointer.
\<close>

fun ActivityTaskScheduledEventAttributesOf ::
  "HistoryEvent \<Rightarrow> ActivityTaskScheduledEventAttributes option" where
  "ActivityTaskScheduledEventAttributesOf e =
     (case Attributes e of ActivityTaskScheduledAttrs a \<Rightarrow> Some a | _ \<Rightarrow> None)"

fun ActivityTaskCancelRequestedEventAttributesOf :: "HistoryEvent \<Rightarrow> string option" where
  "ActivityTaskCancelRequestedEventAttributesOf e =
     (case Attributes e of ActivityTaskCancelRequestedAttrs a \<Rightarrow> Some a | _ \<Rightarrow> None)"

fun RequestCancelActivityTaskFailedEventAttributesOf :: "HistoryEvent \<Rightarrow> string option" where
  "RequestCancelActivityTaskFailedEventAttributesOf e =
     (case Attributes e of RequestCancelActivityTaskFailedAttrs a \<Rightarrow> Some a | _ \<Rightarrow> None)"

fun TimerStartedEventAttributesOf :: "HistoryEvent \<Rightarrow> TimerStartedEventAttributes option" where
  "TimerStartedEventAttributesOf e =
     (case Attributes e of TimerStartedAttrs a \<Rightarrow> Some a | _ \<Rightarrow> None)"

fun TimerCanceledEventAttributesOf :: "HistoryEvent \<Rightarrow> string option" where
  "TimerCanceledEventAttributesOf e =
     (case Attributes e of TimerCanceledAttrs a \<Rightarrow> Some a | _ \<Rightarrow> None)"

fun CancelTimerFailedEventAttributesOf :: "HistoryEvent \<Rightarrow> string option" where
  "CancelTimerFailedEventAttributesOf e =
     (case Attributes e of CancelTimerFailedAttrs a \<Rightarrow> Some a | _ \<Rightarrow> None)"

fun WorkflowExecutionCompletedEventAttributesOf :: "HistoryEvent \<Rightarrow> bytes option" where
  "WorkflowExecutionCompletedEventAttributesOf e =
     (case Attributes e of WorkflowExecutionCompletedAttrs a \<Rightarrow> Some a | _ \<Rightarrow> None)"

fun WorkflowExecutionFailedEventAttributesOf ::
  "HistoryEvent \<Rightarrow> WorkflowExecutionFailedEventAttributes option" where
  "WorkflowExecutionFailedEventAttributesOf e =
     (case Attributes e of WorkflowExecutionFailedAttrs a \<Rightarrow> Some a | _ \<Rightarrow> None)"

fun WorkflowExecutionCanceledEventAttributesOf :: "HistoryEvent \<Rightarrow> bytes option" where
  "WorkflowExecutionCanceledEventAttributesOf e =
     (case Attributes e of WorkflowExecutionCanceledAttrs a \<Rightarrow> Some a | _ \<Rightarrow> None)"

fun MarkerRecordedEventAttributesOf :: "HistoryEvent \<Rightarrow> string option" where
  "MarkerRecordedEventAttributesOf e =
     (case Attributes e of MarkerRecordedAttrs a \<Rightarrow> Some a | _ \<Rightarrow> None)"

fun RequestCancelExternalWorkflowExecutionInitiatedEventAttributesOf ::
  "HistoryEvent \<Rightarrow> RequestCancelExternalWorkflowExecutionInitiatedEventAttributes option" where
  "RequestCancelExternalWorkflowExecutionInitiatedEventAttributesOf e =
     (case Attributes e of
        RequestCancelExternalWorkflowExecutionInitiatedAttrs a \<Rightarrow> Some a
      | _ \<Rightarrow> None)"

fun SignalExternalWorkflowExecutionInitiatedEventAttributesOf ::
  "HistoryEvent \<Rightarrow> SignalExternalWorkflowExecutionInitiatedEventAttributes option" where
  "SignalExternalWorkflowExecutionInitiatedEventAttributesOf e =
     (case Attributes e of SignalExternalWorkflowExecutionInitiatedAttrs a \<Rightarrow> Some a
      | _ \<Rightarrow> None)"

fun StartChildWorkflowExecutionInitiatedEventAttributesOf ::
  "HistoryEvent \<Rightarrow> StartChildWorkflowExecutionInitiatedEventAttributes option" where
  "StartChildWorkflowExecutionInitiatedEventAttributesOf e =
     (case Attributes e of StartChildWorkflowExecutionInitiatedAttrs a \<Rightarrow> Some a
      | _ \<Rightarrow> None)"

fun WorkflowExecutionStartedEventAttributesOf ::
  "HistoryEvent \<Rightarrow> WorkflowExecutionStartedEventAttributes option" where
  "WorkflowExecutionStartedEventAttributesOf e =
     (case Attributes e of WorkflowExecutionStartedAttrs a \<Rightarrow> Some a | _ \<Rightarrow> None)"

fun ScheduleActivityTaskDecisionAttributesOf ::
  "Decision \<Rightarrow> ScheduleActivityTaskDecisionAttributes option" where
  "ScheduleActivityTaskDecisionAttributesOf d =
     (case DecisionAttrs d of ScheduleActivityTaskAttrs a \<Rightarrow> Some a | _ \<Rightarrow> None)"

fun RequestCancelActivityTaskDecisionAttributesOf :: "Decision \<Rightarrow> string option" where
  "RequestCancelActivityTaskDecisionAttributesOf d =
     (case DecisionAttrs d of RequestCancelActivityTaskAttrs a \<Rightarrow> Some a | _ \<Rightarrow> None)"

fun StartTimerDecisionAttributesOf :: "Decision \<Rightarrow> StartTimerDecisionAttributes option" where
  "StartTimerDecisionAttributesOf d =
     (case DecisionAttrs d of StartTimerAttrs a \<Rightarrow> Some a | _ \<Rightarrow> None)"

fun CancelTimerDecisionAttributesOf :: "Decision \<Rightarrow> string option" where
  "CancelTimerDecisionAttributesOf d =
     (case DecisionAttrs d of CancelTimerAttrs a \<Rightarrow> Some a | _ \<Rightarrow> None)"

fun CompleteWorkflowExecutionDecisionAttributesOf :: "Decision \<Rightarrow> bytes option" where
  "CompleteWorkflowExecutionDecisionAttributesOf d =
     (case DecisionAttrs d of CompleteWorkflowExecutionAttrs a \<Rightarrow> Some a | _ \<Rightarrow> None)"

fun FailWorkflowExecutionDecisionAttributesOf ::
  "Decision \<Rightarrow> FailWorkflowExecutionDecisionAttributes option" where
  "FailWorkflowExecutionDecisionAttributesOf d =
     (case DecisionAttrs d of FailWorkflowExecutionAttrs a \<Rightarrow> Some a | _ \<Rightarrow> None)"

fun RecordMarkerDecisionAttributesOf :: "Decision \<Rightarrow> string option" where
  "RecordMarkerDecisionAttributesOf d =
     (case DecisionAttrs d of RecordMarkerAttrs a \<Rightarrow> Some a | _ \<Rightarrow> None)"

fun RequestCancelExternalWorkflowExecutionDecisionAttributesOf ::
  "Decision \<Rightarrow> RequestCancelExternalWorkflowExecutionDecisionAttributes option" where
  "RequestCancelExternalWorkflowExecutionDecisionAttributesOf d =
     (case DecisionAttrs d of RequestCancelExternalWorkflowExecutionAttrs a \<Rightarrow> Some a
      | _ \<Rightarrow> None)"

fun SignalExternalWorkflowExecutionDecisionAttributesOf ::
  "Decision \<Rightarrow> SignalExternalWorkflowExecutionDecisionAttributes option" where
  "SignalExternalWorkflowExecutionDecisionAttributesOf d =
     (case DecisionAttrs d of SignalExternalWorkflowExecutionAttrs a \<Rightarrow> Some a | _ \<Rightarrow> None)"

fun CancelWorkflowExecutionDecisionAttributesOf :: "Decision \<Rightarrow> bytes option" where
  "CancelWorkflowExecutionDecisionAttributesOf d =
     (case DecisionAttrs d of CancelWorkflowExecutionAttrs a \<Rightarrow> Some a | _ \<Rightarrow> None)"

fun StartChildWorkflowExecutionDecisionAttributesOf ::
  "Decision \<Rightarrow> StartChildWorkflowExecutionDecisionAttributes option" where
  "StartChildWorkflowExecutionDecisionAttributesOf d =
     (case DecisionAttrs d of StartChildWorkflowExecutionAttrs a \<Rightarrow> Some a | _ \<Rightarrow> None)"

text \<open>
  The accessors \<^verbatim>\<open>GetX()\<close> of the attribute blocks are generated code outside this file.
  They read the field through their receiver, so a call on a nil block is a nil pointer
  dereference, as is a direct read of a field: \<open>getField f a\<close> reads field \<open>f\<close> of block
  \<open>a\<close>.
\<close>

fun getField :: "('a \<Rightarrow> 'b) \<Rightarrow> 'a option \<Rightarrow> panic + 'b" where
  "getField f None = Inl NilPointerDereference"
| "getField f (Some a) = Inr (f a)"

text \<open>
  The marker names \<^verbatim>\<open>versionMarkerName\<close>, \<^verbatim>\<open>mutableSideEffectMarkerName\<close> and
  \<^verbatim>\<open>localActivityMarkerName\<close> are constants declared outside this file; the functions
  that use them take them as a parameter.
\<close>

record markerNames =
  versionMarkerName :: string
  mutableSideEffectMarkerName :: string
  localActivityMarkerName :: string

definition skipDeterministicCheckForDecision :: "markerNames \<Rightarrow> Decision \<Rightarrow> panic + bool" where
  "skipDeterministicCheckForDecision mn d =
     (if DecisionType d = DecisionTypeRecordMarker then
        (case getField id (RecordMarkerDecisionAttributesOf d) of
           Inl p \<Rightarrow> Inl p
         | Inr markerName \<Rightarrow>
             if markerName = versionMarkerName mn \<or> markerName = mutableSideEffectMarkerName mn
             then Inr True else Inr False)
      else Inr False)"

definition skipDeterministicCheckForEvent :: "markerNames \<Rightarrow> HistoryEvent \<Rightarrow> panic + bool" where
  "skipDeterministicCheckForEvent mn e =
     (if EventType e = EventTypeMarkerRecorded then
        (case getField id (MarkerRecordedEventAttributesOf e) of
           Inl p \<Rightarrow> Inl p
         | Inr markerName \<Rightarrow>
             if markerName = versionMarkerName mn \<or> markerName = mutableSideEffectMarkerName mn
             then Inr True else Inr False)
      else Inr False)"

text \<open>
  \<^verbatim>\<open>strings.LastIndex(name, ".")\<close>: the greatest index holding the character, or \<open>-1\<close>.
\<close>

definition LastIndex :: "string \<Rightarrow> char \<Rightarrow> int" where
  "LastIndex s c =
     (case filter (\<lambda>i. s ! i = c) (rev [0..<length s]) of
        [] \<Rightarrow> - 1
      | i # _ \<Rightarrow> int i)"

definition lastPartOfName :: "string \<Rightarrow> string" where
  "lastPartOfName name =
     (let lastDotIdx = LastIndex name CHR ''.'' in
      if lastDotIdx < 0 \<or> lastDotIdx = int (length name) - 1 then name
      else drop (nat (lastDotIdx + 1)) name)"

text \<open>
  \<^verbatim>\<open>isDecisionMatchEvent\<close>. Every comparison reads the attribute block of the event and
  the one of the decision, in its first operand already, so it panics when one of the
  two is nil; with both present, Go evaluates \<^verbatim>\<open>||\<close> from the left and stops at the
  first true operand, and no later operand can panic.
\<close>

definition isDecisionMatchEvent :: "Decision \<Rightarrow> HistoryEvent \<Rightarrow> bool \<Rightarrow> panic + bool" where
  "isDecisionMatchEvent d e strictMode =
     (case DecisionType d of
        DecisionTypeScheduleActivityTask \<Rightarrow>
          if EventType e \<noteq> EventTypeActivityTaskScheduled then Inr False
          else
            (case (ActivityTaskScheduledEventAttributesOf e,
                   ScheduleActivityTaskDecisionAttributesOf d) of
               (Some eventAttributes, Some decisionAttributes) \<Rightarrow>
                 if ats_ActivityId eventAttributes \<noteq> sad_ActivityId decisionAttributes
                    \<or> lastPartOfName (ats_ActivityType eventAttributes)
                        \<noteq> lastPartOfName (sad_ActivityType decisionAttributes)
                    \<or> (strictMode
                        \<and> ats_TaskList eventAttributes \<noteq> sad_TaskList decisionAttributes)
                    \<or> (strictMode \<and> ats_Input eventAttributes \<noteq> sad_Input decisionAttributes)
                 then Inr False else Inr True
             | _ \<Rightarrow> Inl NilPointerDereference)
      | DecisionTypeRequestCancelActivityTask \<Rightarrow>
          if EventType e \<noteq> EventTypeActivityTaskCancelRequested
             \<and> EventType e \<noteq> EventTypeRequestCancelActivityTaskFailed then Inr False
          else
            (let decisionAttributes = RequestCancelActivityTaskDecisionAttributesOf d in
             if EventType e = EventTypeActivityTaskCancelRequested then
               (case (ActivityTaskCancelRequestedEventAttributesOf e, decisionAttributes) of
                  (Some eventActivityId, Some decisionActivityId) \<Rightarrow>
                    if eventActivityId \<noteq> decisionActivityId then Inr False else Inr True
                | _ \<Rightarrow> Inl NilPointerDereference)
             else if EventType e = EventTypeRequestCancelActivityTaskFailed then
               (case (RequestCancelActivityTaskFailedEventAttributesOf e, decisionAttributes) of
                  (Some eventActivityId, Some decisionActivityId) \<Rightarrow>
                    if eventActivityId \<noteq> decisionActivityId then Inr False else Inr True
                | _ \<Rightarrow> Inl NilPointerDereference)
             else Inr True)
      | DecisionTypeStartTimer \<Rightarrow>
          if EventType e \<noteq> EventTypeTimerStarted then Inr False
          else
            (case (TimerStartedEventAttributesOf e, StartTimerDecisionAttributesOf d) of
               (Some eventAttributes, Some decisionAttributes) \<Rightarrow>
                 if ts_TimerId eventAttributes \<noteq> std_TimerId decisionAttributes
                    \<or> (strictMode
                        \<and> ts_StartToFireTimeoutSeconds eventAttributes
                            \<noteq> std_StartToFireTimeoutSeconds decisionAttributes)
                 then Inr False else Inr True
             | _ \<Rightarrow> Inl NilPointerDereference)
      | DecisionTypeCancelTimer \<Rightarrow>
          if EventType e \<noteq> EventTypeTimerCanceled
             \<and> EventType e \<noteq> EventTypeCancelTimerFailed then Inr False
          else
            (let decisionAttributes = CancelTimerDecisionAttributesOf d in
             if EventType e = EventTypeTimerCanceled then
               (case (TimerCanceledEventAttributesOf e, decisionAttributes) of
                  (Some eventTimerId, Some decisionTimerId) \<Rightarrow>
                    if eventTimerId \<noteq> decisionTimerId then Inr False else Inr True
                | _ \<Rightarrow> Inl NilPointerDereference)
             else if EventType e = EventTypeCancelTimerFailed then
               (case (CancelTimerFailedEventAttributesOf e, decisionAttributes) of
                  (Some eventTimerId, Some decisionTimerId) \<Rightarrow>
                    if eventTimerId \<noteq> decisionTimerId then Inr False else Inr True
                | _ \<Rightarrow> Inl NilPointerDereference)
             else Inr True)
      | DecisionTypeCompleteWorkflowExecution \<Rightarrow>
          if EventType e \<noteq> EventTypeWorkflowExecutionCompleted then Inr False
          else if strictMode then
            (case (WorkflowExecutionCompletedEventAttributesOf e,
                   CompleteWorkflowExecutionDecisionAttributesOf d) of
               (Some eventResult, Some decisionResult) \<Rightarrow>
                 if eventResult \<noteq> decisionResult then Inr False else Inr True
             | _ \<Rightarrow> Inl NilPointerDereference)
          else Inr True
      | DecisionTypeFailWorkflowExecution \<Rightarrow>
          if EventType e \<noteq> EventTypeWorkflowExecutionFailed then Inr False
          else if strictMode then
            (case (WorkflowExecutionFailedEventAttributesOf e,
                   FailWorkflowExecutionDecisionAttributesOf d) of
               (Some eventAttributes, Some decisionAttributes) \<Rightarrow>
                 if wef_Reason eventAttributes \<noteq> fwd_Reason decisionAttributes
                    \<or> wef_Details eventAttributes \<noteq> fwd_Details decisionAttributes
                 then Inr False else Inr True
             | _ \<Rightarrow> Inl NilPointerDereference)
          else Inr True
      | DecisionTypeRecordMarker \<Rightarrow>
          if EventType e \<noteq> EventTypeMarkerRecorded then Inr False
          else
            (case (MarkerRecordedEventAttributesOf e, RecordMarkerDecisionAttributesOf d) of
               (Some eventMarkerName, Some decisionMarkerName) \<Rightarrow>
                 if eventMarkerName \<noteq> decisionMarkerName then Inr False else Inr True
             | _ \<Rightarrow> Inl NilPointerDereference)
      | DecisionTypeRequestCancelExternalWorkflowExecution \<Rightarrow>
          if EventType e \<noteq> EventTypeRequestCancelExternalWorkflowExecutionInitiated
          then Inr False
          else
            (case (RequestCancelExternalWorkflowExecutionInitiatedEventAttributesOf e,
                   RequestCancelExternalWorkflowExecutionDecisionAttributesOf d) of
               (Some eventAttributes, Some decisionAttributes) \<Rightarrow>
                 if rcei_Domain eventAttributes \<noteq> rced_Domain decisionAttributes
                    \<or> rcei_WorkflowId eventAttributes \<noteq> rced_WorkflowId decisionAttributes
                 then Inr False else Inr True
             | _ \<Rightarrow> Inl NilPointerDereference)
      | DecisionTypeSignalExternalWorkflowExecution \<Rightarrow>
          if EventType e \<noteq> EventTypeSignalExternalWorkflowExecutionInitiated then Inr False
          else
            (case (SignalExternalWorkflowExecutionInitiatedEventAttributesOf e,
                   SignalExternalWorkflowExecutionDecisionAttributesOf d) of
               (Some eventAttributes, Some decisionAttributes) \<Rightarrow>
                 if sei_Domain eventAttributes \<noteq> sed_Domain decisionAttributes
                    \<or> sei_SignalName eventAttributes \<noteq> sed_SignalName decisionAttributes
                    \<or> sei_WorkflowId eventAttributes \<noteq> sed_WorkflowId decisionAttributes
                 then Inr False else Inr True
             | _ \<Rightarrow> Inl NilPointerDereference)
      | DecisionTypeCancelWorkflowExecution \<Rightarrow>
          if EventType e \<noteq> EventTypeWorkflowExecutionCanceled then Inr False
          else if strictMode then
            (case (WorkflowExecutionCanceledEventAttributesOf e,
                   CancelWorkflowExecutionDecisionAttributesOf d) of
               (Some eventDetails, Some decisionDetails) \<Rightarrow>
                 if eventDetails \<noteq> decisionDetails then Inr False else Inr True
             | _ \<Rightarrow> Inl NilPointerDereference)
          else Inr True
      | DecisionTypeContinueAsNewWorkflowExecution \<Rightarrow>
          if EventType e \<noteq> EventTypeWorkflowExecutionContinuedAsNew then Inr False
          else Inr True
      | DecisionTypeStartChildWorkflowExecution \<Rightarrow>
          if EventType e \<noteq> EventTypeStartChildWorkflowExecutionInitiated then Inr False
          else
            (case (StartChildWorkflowExecutionInitiatedEventAttributesOf e,
                   StartChildWorkflowExecutionDecisionAttributesOf d) of
               (Some eventAttributes, Some decisionAttributes) \<Rightarrow>
                 if lastPartOfName (sci_WorkflowType eventAttributes)
                      \<noteq> lastPartOfName (scd_WorkflowType decisionAttributes)
                    \<or> (strictMode \<and> sci_Domain eventAttributes \<noteq> scd_Domain decisionAttributes)
                    \<or> (strictMode
                        \<and> sci_TaskList eventAttributes \<noteq> scd_TaskList decisionAttributes)
                 then Inr False else Inr True
             | _ \<Rightarrow> Inl NilPointerDereference)
      | DecisionTypeOther _ \<Rightarrow> Inr False)"

text \<open>
  \<^verbatim>\<open>matchReplayWithHistory\<close>: the loop over the two indices is a recursion over the
  decisions and events not yet matched. \<open>None\<close> is the nil error.
\<close>

fun matchReplayWithHistory ::
  "markerNames \<Rightarrow> Decision list \<Rightarrow> HistoryEvent list \<Rightarrow> panic + error option" where
  "matchReplayWithHistory mn [] [] = Inr None"
| "matchReplayWithHistory mn replayDecisions (e # historyEvents) =
     (case skipDeterministicCheckForEvent mn e of
        Inl p \<Rightarrow> Inl p
      | Inr True \<Rightarrow> matchReplayWithHistory mn replayDecisions historyEvents
      | Inr False \<Rightarrow>
          (case replayDecisions of
             [] \<Rightarrow> Inr (Some (NondeterministicMissingReplayDecision e))
           | d # ds \<Rightarrow>
               (case skipDeterministicCheckForDecision mn d of
                  Inl p \<Rightarrow> Inl p
                | Inr True \<Rightarrow> matchReplayWithHistory mn ds (e # historyEvents)
                | Inr False \<Rightarrow>
                    (case isDecisionMatchEvent d e False of
                       Inl p \<Rightarrow> Inl p
                     | Inr False \<Rightarrow> Inr (Some (NondeterministicMismatch e d))
                     | Inr True \<Rightarrow> matchReplayWithHistory mn ds historyEvents))))"
| "matchReplayWithHistory mn (d # ds) [] =
     (case skipDeterministicCheckForDecision mn d of
        Inl p \<Rightarrow> Inl p
      | Inr True \<Rightarrow> matchReplayWithHistory mn ds []
      | Inr False \<Rightarrow> Inr (Some (NondeterministicExtraReplayDecision d)))"
section \<open>The workflow execution context\<close>

record WorkflowExecution =
  ID :: string
  RunID :: string

record WorkflowInfo =
  WorkflowExecution :: WorkflowExecution
  WorkflowTypeName :: string
  TaskListName :: string
  ExecutionStartToCloseTimeoutSeconds :: int32
  TaskStartToCloseTimeoutSeconds :: int32
  wi_Domain :: string
  Attempt :: int32

text \<open>
  A local activity task with its back reference \<^verbatim>\<open>wc\<close> to the context that sent it (the
  run id of that context, \<open>None\<close> while unset).
\<close>

record localActivityTask =
  activityID :: string
  wc :: "string option"

record ResetStickyTaskListRequest =
  rs_Domain :: string
  rs_WorkflowId :: string
  rs_RunId :: string

text \<open>What travels on the result channel of the local activity tunnel.\<close>

datatype tunnelResult =
    resetStickinessTask ResetStickyTaskListRequest
  | localActivityResult string

text \<open>
  The tunnel is shared by the task handler and the contexts: they hold a reference to
  it, and the tunnels live in a store. A channel is the queue of the values sent and not
  yet received; a send appends (waiting for room in the channel is not modelled).
\<close>

record localActivityTunnel =
  taskCh :: "localActivityTask list"
  resultCh :: "tunnelResult list"

type_synonym tunnels = "nat \<Rightarrow> localActivityTunnel"

datatype NonDeterministicWorkflowPolicy =
    NonDeterministicWorkflowPolicyBlockWorkflow
  | NonDeterministicWorkflowPolicyFailWorkflow
  | NonDeterministicWorkflowPolicyOther int

datatype pressurePointType =
    pressurePointTypeDecisionTaskStartTimeout
  | pressurePointTypeActivityTaskScheduleTimeout
  | pressurePointTypeActivityTaskStartTimeout
  | pressurePointTypeDecisionTaskCompleted

text \<open>
  The task handler. The metrics scope, the logger, the host environment and the data
  converter do not change any state the model holds and are left out. The pressure point
  manager is a test hook implemented outside this file: here, the error its \<^verbatim>\<open>Execute\<close>
  returns for each pressure point.
\<close>

record workflowTaskHandlerImpl =
  domain :: string
  ppMgr :: "(pressurePointType \<Rightarrow> error option) option"
  identity :: string
  enableLoggingInReplay :: bool
  disableStickyExecution :: bool
  wth_laTunnel :: "nat option"
  nonDeterministicWorkflowPolicy :: NonDeterministicWorkflowPolicy

text \<open>
  The event handler is implemented outside this file. The model keeps the two fields
  this file reads and the rest of its state as an opaque value.
\<close>

record 'st workflowExecutionEventHandlerImpl =
  pendingLaTasks :: "(string \<times> localActivityTask) list"
  unstartedLaTasks :: "string list"
  workflowState :: 'st

text \<open>
  Modelled from the spec: the operations of the event handler (\<^verbatim>\<open>ProcessEvent\<close>,
  \<^verbatim>\<open>ProcessQuery\<close>, the decisions helper's \<^verbatim>\<open>getDecisions(true)\<close>, its constructor), the
  rendering of errors and the marker names are defined outside this file. They are
  parameters of the model. \<open>ProcessEvent\<close> returns the handler after the event, the
  arguments with which it called the completion callback (if it did) and its error;
  \<open>getDecisions\<close> returns the decisions accumulated since the last drain and the handler
  after the drain.
\<close>

record 'st externals =
  names :: markerNames
  newWorkflowExecutionEventHandler :: "WorkflowInfo \<Rightarrow> 'st workflowExecutionEventHandlerImpl"
  ProcessEvent ::
    "'st workflowExecutionEventHandlerImpl \<Rightarrow> HistoryEvent \<Rightarrow> bool \<Rightarrow> bool \<Rightarrow>
     'st workflowExecutionEventHandlerImpl \<times> (bytes \<times> error option) option \<times> error option"
  ProcessQuery ::
    "'st workflowExecutionEventHandlerImpl \<Rightarrow> string \<Rightarrow> bytes \<Rightarrow> bytes \<times> error option"
  getDecisions ::
    "'st workflowExecutionEventHandlerImpl \<Rightarrow>
     Decision list \<times> 'st workflowExecutionEventHandlerImpl"
  errorText :: "error \<Rightarrow> string"
  encodeText :: "string \<Rightarrow> bytes"
  otherErrorDetails :: "error \<Rightarrow> string \<times> bytes"

text \<open>
  The struct \<^verbatim>\<open>workflowExecutionContextImpl\<close>. The mutex is \<open>True\<close> while held. Times are
  nanoseconds. A nil byte slice is the empty list.
\<close>

record 'st workflowExecutionContextImpl =
  mutex :: bool
  workflowStartTime :: int64
  workflowInfo :: WorkflowInfo
  wth :: workflowTaskHandlerImpl
  eventHandler :: "'st workflowExecutionEventHandlerImpl option"
  isWorkflowCompleted :: bool
  result :: bytes
  err :: "error option"
  previousStartedEventID :: int64
  newDecisions :: "Decision list"
  currentDecisionTask :: "PollForDecisionTaskResponse option"
  laTunnel :: "nat option"
  decisionStartTime :: int64

subsection \<open>The sticky cache\<close>

text \<open>
  Modelled from the spec: the cache (\<^verbatim>\<open>internal/common/cache\<close>) is outside this file. It
  maps a run id to a reference to a context, with \<^verbatim>\<open>Get\<close>, \<^verbatim>\<open>PutIfNotExist\<close> (which returns
  the entry already present, or the new one) and \<^verbatim>\<open>Delete\<close>. Its bound and the eviction
  it triggers, which runs the eviction callback on another goroutine, are not part of
  this model.
\<close>

type_synonym workflowCache = "string \<rightharpoonup> nat"

definition getWorkflowContext :: "string \<Rightarrow> workflowCache \<Rightarrow> nat option" where
  "getWorkflowContext runID cache = cache runID"

definition putWorkflowContext :: "string \<Rightarrow> nat \<Rightarrow> workflowCache \<Rightarrow> nat \<times> workflowCache" where
  "putWorkflowContext runID c cache =
     (case cache runID of
        Some existing \<Rightarrow> (existing, cache)
      | None \<Rightarrow> (c, cache(runID \<mapsto> c)))"

definition removeWorkflowContext :: "string \<Rightarrow> workflowCache \<Rightarrow> workflowCache" where
  "removeWorkflowContext runID cache = cache(runID := None)"

subsection \<open>Methods of the context\<close>

text \<open>Taking the mutex; waiting for another holder to release it is not modelled.\<close>

definition Lock ::
  "'st workflowExecutionContextImpl \<Rightarrow> 'st workflowExecutionContextImpl" where
  "Lock w = w\<lparr>mutex := True\<rparr>"

definition hasPendingLocalActivityWork :: "'st workflowExecutionContextImpl \<Rightarrow> bool" where
  "hasPendingLocalActivityWork w =
     (\<not> isWorkflowCompleted w
      \<and> (case eventHandler w of
            None \<Rightarrow> False
          | Some h \<Rightarrow> length (pendingLaTasks h) > 0))"

text \<open>
  \<^verbatim>\<open>Unlock\<close>: the removal from the cache comes first, the release of the mutex second.
  Releasing a mutex that is not held is a fatal error of the Go runtime.
\<close>

definition Unlock ::
  "error option \<Rightarrow> 'st workflowExecutionContextImpl \<Rightarrow> workflowCache \<Rightarrow>
   panic + ('st workflowExecutionContextImpl \<times> workflowCache)" where
  "Unlock e w cache =
     (let cache1 =
        (if e \<noteq> None \<or> err w \<noteq> None \<or> isWorkflowCompleted w
            \<or> (disableStickyExecution (wth w) \<and> \<not> hasPendingLocalActivityWork w)
         then removeWorkflowContext (RunID (WorkflowExecution (workflowInfo w))) cache
         else cache)
      in if mutex w then Inr (w\<lparr>mutex := False\<rparr>, cache1) else Inl UnlockOfUnlockedMutex)"

definition completeWorkflow ::
  "bytes \<Rightarrow> error option \<Rightarrow> 'st workflowExecutionContextImpl \<Rightarrow>
   'st workflowExecutionContextImpl" where
  "completeWorkflow r e w = w\<lparr>isWorkflowCompleted := True, result := r, err := e\<rparr>"

definition shouldResetStickyOnEviction :: "'st workflowExecutionContextImpl \<Rightarrow> bool" where
  "shouldResetStickyOnEviction w = (err w = None \<and> \<not> isWorkflowCompleted w)"

definition isDestroyed :: "'st workflowExecutionContextImpl \<Rightarrow> bool" where
  "isDestroyed w = (eventHandler w = None)"

definition queueResetStickinessTask ::
  "'st workflowExecutionContextImpl \<Rightarrow> tunnels \<Rightarrow> panic + tunnels" where
  "queueResetStickinessTask w ts =
     (let t = resetStickinessTask
                \<lparr>rs_Domain = wi_Domain (workflowInfo w),
                 rs_WorkflowId = ID (WorkflowExecution (workflowInfo w)),
                 rs_RunId = RunID (WorkflowExecution (workflowInfo w))\<rparr>
      in case laTunnel w of
           None \<Rightarrow> Inl NilPointerDereference
         | Some r \<Rightarrow> Inr (ts(r := (ts r)\<lparr>resultCh := resultCh (ts r) @ [t]\<rparr>)))"

definition clearCurrentTask ::
  "'st workflowExecutionContextImpl \<Rightarrow> 'st workflowExecutionContextImpl" where
  "clearCurrentTask w = w\<lparr>newDecisions := [], currentDecisionTask := None\<rparr>"

definition clearState ::
  "'st workflowExecutionContextImpl \<Rightarrow> 'st workflowExecutionContextImpl" where
  "clearState w =
     (clearCurrentTask w)
       \<lparr>isWorkflowCompleted := False, result := [], err := None,
        previousStartedEventID := 0, newDecisions := [], eventHandler := None\<rparr>"

definition onEviction ::
  "'st workflowExecutionContextImpl \<Rightarrow> tunnels \<Rightarrow>
   panic + ('st workflowExecutionContextImpl \<times> tunnels)" where
  "onEviction w ts =
     (let w1 = Lock w in
      case (if shouldResetStickyOnEviction w1 then queueResetStickinessTask w1 ts
            else Inr ts) of
        Inl p \<Rightarrow> Inl p
      | Inr ts1 \<Rightarrow> Inr ((clearState w1)\<lparr>mutex := False\<rparr>, ts1))"

definition createEventHandler ::
  "'st externals \<Rightarrow> 'st workflowExecutionContextImpl \<Rightarrow> 'st workflowExecutionContextImpl"
  where
  "createEventHandler ext w =
     (clearState w)\<lparr>eventHandler := Some (newWorkflowExecutionEventHandler ext (workflowInfo w))\<rparr>"

text \<open>
  \<^verbatim>\<open>resetHistory\<close> writes the first page into the task; the task and the iterator are
  returned with the result.
\<close>

definition resetHistory ::
  "PollForDecisionTaskResponse \<Rightarrow> HistoryIterator option \<Rightarrow>
   panic + ((error + History) \<times> PollForDecisionTaskResponse \<times> HistoryIterator option)" where
  "resetHistory t iter =
     (case iter of
        None \<Rightarrow> Inl NilPointerDereference
      | Some it \<Rightarrow>
          (case GetNextPage (Reset it) of
             (Inl e, it1) \<Rightarrow> Inr (Inl e, t, Some it1)
           | (Inr firstPageHistory, it1) \<Rightarrow>
               Inr (Inr firstPageHistory, t\<lparr>History := Some firstPageHistory\<rparr>, Some it1)))"

definition isFullHistory :: "History \<Rightarrow> bool" where
  "isFullHistory h =
     (if length (Events h) = 0 \<or> EventType (Events h ! 0) \<noteq> EventTypeWorkflowExecutionStarted
      then False else True)"

definition resetStateIfDestroyed ::
  "'st externals \<Rightarrow> 'st workflowExecutionContextImpl \<Rightarrow> PollForDecisionTaskResponse \<Rightarrow>
   HistoryIterator option \<Rightarrow>
   panic + (error option \<times> 'st workflowExecutionContextImpl \<times> PollForDecisionTaskResponse
            \<times> HistoryIterator option)" where
  "resetStateIfDestroyed ext w t iter =
     (if isDestroyed w then
        (let w1 = createEventHandler ext w in
         case History t of
           None \<Rightarrow> Inl NilPointerDereference
         | Some h \<Rightarrow>
             if \<not> isFullHistory h then
               (case resetHistory t iter of
                  Inl p \<Rightarrow> Inl p
                | Inr (Inl e, t1, it1) \<Rightarrow> Inr (Some e, w1, t1, it1)
                | Inr (Inr _, t1, it1) \<Rightarrow> Inr (None, w1, t1, it1))
             else Inr (None, w1, t, iter))
      else Inr (None, w, t, iter))"

definition ResetIfStale ::
  "'st externals \<Rightarrow> 'st workflowExecutionContextImpl \<Rightarrow> PollForDecisionTaskResponse \<Rightarrow>
   HistoryIterator option \<Rightarrow>
   panic + (error option \<times> 'st workflowExecutionContextImpl \<times> PollForDecisionTaskResponse
            \<times> HistoryIterator option)" where
  "ResetIfStale ext w t iter =
     (case History t of
        None \<Rightarrow> Inl NilPointerDereference
      | Some h \<Rightarrow>
          if length (Events h) > 0
             \<and> EventId (Events h ! 0) \<noteq> previousStartedEventID w + 1
          then resetStateIfDestroyed ext (clearState w) t iter
          else Inr (None, w, t, iter))"

text \<open>\<^verbatim>\<open>SetCurrentTask\<close>; \<open>now\<close> is the value of \<^verbatim>\<open>time.Now()\<close>.\<close>

definition SetCurrentTask ::
  "int64 \<Rightarrow> PollForDecisionTaskResponse \<Rightarrow> 'st workflowExecutionContextImpl \<Rightarrow>
   'st workflowExecutionContextImpl" where
  "SetCurrentTask now t w =
     (let w1 = w\<lparr>currentDecisionTask := Some t\<rparr>;
          w2 = (if Query t = None then w1\<lparr>previousStartedEventID := StartedEventId t\<rparr> else w1)
      in w2\<lparr>decisionStartTime := now\<rparr>)"

definition skipReplayCheck :: "'st workflowExecutionContextImpl \<Rightarrow> panic + bool" where
  "skipReplayCheck w =
     (case currentDecisionTask w of
        None \<Rightarrow> Inl NilPointerDereference
      | Some t \<Rightarrow>
          if Query t \<noteq> None then Inr True
          else
            (case History t of
               None \<Rightarrow> Inl NilPointerDereference
             | Some h \<Rightarrow> Inr (\<not> isFullHistory h)))"

section \<open>Processing a decision task\<close>

subsection \<open>The work left to the history reorderer\<close>

text \<open>
  The events loaded and not yet consumed, plus one for every unread page and one for
  every event on an unread page. Each round of the loops below lowers it; it bounds the
  number of batches.
\<close>

definition pendingWork :: "history \<Rightarrow> nat" where
  "pendingWork eh =
     (length (loadedEvents eh) - currentIndex eh)
     + (case historyIterator (workflowTask eh) of
          None \<Rightarrow> 0
        | Some it \<Rightarrow>
            sum_list (map (\<lambda>p. Suc (case p of Inl _ \<Rightarrow> 0 | Inr h \<Rightarrow> length (Events h)))
                       (unread it)))"

lemma getMoreEvents_pendingWork:
  assumes "hasMoreEvents eh" and "getMoreEvents eh = Inr (Inr historyPage, eh1)"
    and "currentIndex eh \<le> length (loadedEvents eh)"
  shows "pendingWork (eh1\<lparr>loadedEvents := loadedEvents eh1 @ Events historyPage\<rparr>)
         < pendingWork eh"
  using assms
  by (auto simp: hasMoreEvents_def getMoreEvents_def pendingWork_def HasNextPage_def
      GetNextPage_def split: option.splits list.splits)

lemma getMoreEvents_pendingWork_error:
  assumes "hasMoreEvents eh" and "getMoreEvents eh = Inr (Inl e, eh1)"
  shows "pendingWork eh1 \<le> pendingWork eh"
  using assms
  by (auto simp: hasMoreEvents_def getMoreEvents_def pendingWork_def HasNextPage_def
      GetNextPage_def split: option.splits list.splits)

lemma pendingWork_step:
  "currentIndex eh < length (loadedEvents eh) \<Longrightarrow>
   Suc (pendingWork (eh\<lparr>currentIndex := currentIndex eh + 1\<rparr>)) = pendingWork eh"
  by (auto simp: pendingWork_def split: option.splits)

lemma orderEvents_pendingWork:
  "orderEvents eh ne mk = Inr (eh', evs, mks, e) \<Longrightarrow>
   pendingWork eh' + length evs \<le> pendingWork eh + length ne"
proof (induction eh ne mk rule: orderEvents.induct)
  case (1 eh ne mk)
  note eq = "1.prems"
  show ?case
  proof (cases "currentIndex eh = length (loadedEvents eh)")
    case atEnd: True
    show ?thesis
    proof (cases "hasMoreEvents eh")
      case False
      with atEnd eq show ?thesis by (simp add: orderEvents.simps [of eh])
    next
      case more: True
      show ?thesis
      proof (cases "getMoreEvents eh")
        case (Inl p)
        with atEnd more eq show ?thesis by (simp add: orderEvents.simps [of eh])
      next
        case (Inr x)
        obtain r eh1 where x: "x = (r, eh1)" by (cases x)
        show ?thesis
        proof (cases r)
          case (Inl er)
          with atEnd more eq Inr x have "eh' = eh1" "evs = ne"
            by (simp_all add: orderEvents.simps [of eh])
          with getMoreEvents_pendingWork_error [OF more Inr [unfolded x Inl]]
          show ?thesis by simp
        next
          case page: (Inr historyPage)
          with atEnd more eq Inr x
          have "orderEvents (eh1\<lparr>loadedEvents := loadedEvents eh1 @ Events historyPage\<rparr>) ne mk
                = Inr (eh', evs, mks, e)"
            by (simp add: orderEvents.simps [of eh])
          from "1.IH"(1) [OF atEnd _ Inr x [symmetric] page this] more
          have "pendingWork eh' + length evs
                \<le> pendingWork (eh1\<lparr>loadedEvents := loadedEvents eh1 @ Events historyPage\<rparr>)
                  + length ne" by simp
          with getMoreEvents_pendingWork [OF more Inr [unfolded x page]] atEnd
          show ?thesis by simp
        qed
      qed
    qed
  next
    case notEnd: False
    show ?thesis
    proof (cases "length (loadedEvents eh) < currentIndex eh")
      case True
      with notEnd eq show ?thesis by (simp add: orderEvents.simps [of eh])
    next
      case False
      with notEnd have lt: "currentIndex eh < length (loadedEvents eh)" by simp
      note step = pendingWork_step [OF lt]
      let ?e = "loadedEvents eh ! currentIndex eh"
      show ?thesis
      proof (cases "EventType ?e = EventTypeDecisionTaskStarted")
        case started: True
        show ?thesis
        proof (cases "IsNextDecisionFailed eh")
          case False
          with notEnd lt started eq
          have "eh' = eh\<lparr>currentIndex := currentIndex eh + 1\<rparr>" "evs = ne @ [?e]"
            by (simp_all add: orderEvents.simps [of eh])
          with step show ?thesis by simp
        next
          case failed: True
          with notEnd lt started eq
          have "orderEvents (eh\<lparr>currentIndex := currentIndex eh + 1\<rparr>) ne mk
                = Inr (eh', evs, mks, e)"
            by (simp add: orderEvents.simps [of eh])
          from "1.IH"(2) [OF notEnd _ refl started _ this] lt failed step
          show ?thesis by simp
        qed
      next
        case notStarted: False
        show ?thesis
        proof (cases "EventType ?e \<in> {EventTypeDecisionTaskCompleted,
                   EventTypeDecisionTaskScheduled, EventTypeDecisionTaskTimedOut,
                   EventTypeDecisionTaskFailed}")
          case skip: True
          with notEnd lt notStarted eq
          have "orderEvents (eh\<lparr>currentIndex := currentIndex eh + 1\<rparr>) ne mk
                = Inr (eh', evs, mks, e)"
            by (simp add: orderEvents.simps [of eh])
          from "1.IH"(3) [OF notEnd _ refl notStarted skip this] lt step
          show ?thesis by simp
        next
          case emit: False
          let ?mk = "if isPreloadMarkerEvent ?e then mk @ [?e] else mk"
          from emit notEnd lt notStarted eq
          have "orderEvents (eh\<lparr>currentIndex := currentIndex eh + 1\<rparr>) (ne @ [?e]) ?mk
                = Inr (eh', evs, mks, e)"
            by (simp add: orderEvents.simps [of eh] Let_def)
          from "1.IH"(4) [OF notEnd _ refl notStarted emit this] lt step
          show ?thesis by simp
        qed
      qed
    qed
  qed
qed

lemma nextDecisionEvents_pendingWork:
  assumes "nextDecisionEvents eh = Inr (batch, mks, e, eh')"
  shows "pendingWork eh' + length (elems batch) \<le> pendingWork eh"
proof (cases "currentIndex eh = length (loadedEvents eh) \<and> \<not> hasMoreEvents eh")
  case True
  with assms show ?thesis by (auto simp add: nextDecisionEvents_def)
next
  case False
  show ?thesis
  proof (cases "orderEvents eh [] []")
    case (Inl p)
    with False assms show ?thesis
      by (auto simp add: nextDecisionEvents_def split: if_splits)
  next
    case (Inr r)
    obtain eh1 ne mk e1 where r: "r = (eh1, ne, mk, e1)" by (cases r)
    from orderEvents_pendingWork [OF Inr [unfolded r]]
    have le: "pendingWork eh1 + length ne \<le> pendingWork eh" by simp
    have shrink: "pendingWork (eh1\<lparr>loadedEvents := drop (currentIndex eh1) (loadedEvents eh1),
                      currentIndex := 0\<rparr>) = pendingWork eh1"
      by (simp add: pendingWork_def)
    from False assms Inr r have "elems batch = ne"
      and "eh' = eh1 \<or> eh' = eh1\<lparr>loadedEvents := drop (currentIndex eh1) (loadedEvents eh1),
                      currentIndex := 0\<rparr>"
      by (auto simp add: nextDecisionEvents_def appended_def split: option.splits if_splits)
    with le shrink show ?thesis by auto
  qed
qed

definition batchesLeft :: "history \<Rightarrow> nat" where
  "batchesLeft eh = 2 * pendingWork eh + (if elems (nextBatch eh) = [] then 0 else 1)"

lemma pendingWork_nextBatch [simp]:
  "pendingWork (eh\<lparr>nextBatch := b\<rparr>) = pendingWork eh"
  by (simp add: pendingWork_def)

lemma NextDecisionEvents_batchesLeft:
  assumes "NextDecisionEvents eh = Inr (res, mks, e, eh')" and "elems res \<noteq> []"
  shows "batchesLeft eh' < batchesLeft eh"
proof -
  from assms(2) obtain y where y: "res = Some y" "y \<noteq> []"
    by (cases res) auto
  show ?thesis
  proof (cases "nextBatch eh")
    case None
    with assms(1) y obtain ms1 eh1 b2 eh2 where
      first: "nextDecisionEvents eh = Inr (Some y, ms1, None, eh1)"
      and second: "nextDecisionEvents (eh1\<lparr>nextBatch := Some y\<rparr>) = Inr (b2, mks, e, eh2)"
      and eh': "eh' = eh2\<lparr>nextBatch := b2\<rparr>"
      by (auto simp: NextDecisionEvents_def Let_def
          split: if_splits sum.splits prod.splits option.splits)
    from nextDecisionEvents_pendingWork [OF first] y
    have "pendingWork eh1 < pendingWork eh" by (cases y) auto
    moreover from nextDecisionEvents_pendingWork [OF second]
    have le: "pendingWork eh2 + length (elems b2) \<le> pendingWork eh1" by simp
    moreover have "pendingWork eh2 < pendingWork eh1" if "elems b2 \<noteq> []"
      using that le by (cases "elems b2") auto
    ultimately show ?thesis
      using None eh' by (auto simp: batchesLeft_def)
  next
    case (Some b)
    with assms(1) y obtain b2 eh2 where
      second: "nextDecisionEvents eh = Inr (b2, mks, e, eh2)"
      and eh': "eh' = eh2\<lparr>nextBatch := b2\<rparr>" and b: "b = y"
      by (auto simp: NextDecisionEvents_def Let_def
          split: if_splits sum.splits prod.splits option.splits)
    from nextDecisionEvents_pendingWork [OF second]
    have le: "pendingWork eh2 + length (elems b2) \<le> pendingWork eh" by simp
    moreover have "pendingWork eh2 < pendingWork eh" if "elems b2 \<noteq> []"
      using that le by (cases "elems b2") auto
    ultimately show ?thesis
      using Some b y eh' by (auto simp: batchesLeft_def)
  qed
qed

subsection \<open>Applying events to the event handler\<close>

definition executeAnyPressurePoints ::
  "workflowTaskHandlerImpl \<Rightarrow> HistoryEvent \<Rightarrow> bool \<Rightarrow> error option" where
  "executeAnyPressurePoints th event isInReplay =
     (case ppMgr th of
        None \<Rightarrow> None
      | Some execute \<Rightarrow>
          if \<not> isInReplay then
            (case EventType event of
               EventTypeDecisionTaskStarted \<Rightarrow>
                 execute pressurePointTypeDecisionTaskStartTimeout
             | EventTypeActivityTaskScheduled \<Rightarrow>
                 execute pressurePointTypeActivityTaskScheduleTimeout
             | EventTypeActivityTaskStarted \<Rightarrow>
                 execute pressurePointTypeActivityTaskStartTimeout
             | EventTypeDecisionTaskCompleted \<Rightarrow>
                 execute pressurePointTypeDecisionTaskCompleted
             | _ \<Rightarrow> None)
          else None)"

text \<open>
  One call \<^verbatim>\<open>eventHandler.ProcessEvent(event, isReplay, isLast)\<close>. The handler is the one
  the context holds; a call of the completion callback during the event runs the
  context's \<open>completeWorkflow\<close>. The result is the error of the call and the context.
\<close>

definition applyEvent ::
  "'st externals \<Rightarrow> HistoryEvent \<Rightarrow> bool \<Rightarrow> bool \<Rightarrow> 'st workflowExecutionContextImpl \<Rightarrow>
   panic + (error option \<times> 'st workflowExecutionContextImpl)" where
  "applyEvent ext event isReplay isLast w =
     (case eventHandler w of
        None \<Rightarrow> Inl NilPointerDereference
      | Some evh \<Rightarrow>
          (case ProcessEvent ext evh event isReplay isLast of
             (evh1, completion, e) \<Rightarrow>
               (let w1 = w\<lparr>eventHandler := Some evh1\<rparr> in
                Inr (e, case completion of
                          None \<Rightarrow> w1
                        | Some (r, ce) \<Rightarrow> completeWorkflow r ce w1))))"

text \<open>
  The two loops over the markers of a batch: with \<open>la = False\<close> the markers whose name
  is not the local activity marker name, with \<open>la = True\<close> those whose name is.
\<close>

fun applyMarkers ::
  "'st externals \<Rightarrow> bool \<Rightarrow> HistoryEvent list \<Rightarrow> 'st workflowExecutionContextImpl \<Rightarrow>
   panic + (error option \<times> 'st workflowExecutionContextImpl)" where
  "applyMarkers ext la [] w = Inr (None, w)"
| "applyMarkers ext la (m # ms) w =
     (case getField id (MarkerRecordedEventAttributesOf m) of
        Inl p \<Rightarrow> Inl p
      | Inr markerName \<Rightarrow>
          if (markerName = localActivityMarkerName (names ext)) = la then
            (case applyEvent ext m True False w of
               Inl p \<Rightarrow> Inl p
             | Inr (Some e, w1) \<Rightarrow> Inr (Some e, w1)
             | Inr (None, w1) \<Rightarrow> applyMarkers ext la ms w1)
          else applyMarkers ext la ms w)"

text \<open>
  The loop over the events of a batch; \<open>rest = []\<close> is \<^verbatim>\<open>i == len(reorderedEvents)-1\<close>.
\<close>

fun applyBatch ::
  "'st externals \<Rightarrow> history \<Rightarrow> bool \<Rightarrow> HistoryEvent list \<Rightarrow>
   'st workflowExecutionContextImpl \<Rightarrow> HistoryEvent list \<Rightarrow>
   panic + (error option \<times> 'st workflowExecutionContextImpl \<times> HistoryEvent list)" where
  "applyBatch ext rh skip [] w respondEvents = Inr (None, w, respondEvents)"
| "applyBatch ext rh skip (event # rest) w respondEvents =
     (let isInReplay = IsReplayEvent rh event;
          isLast = (\<not> isInReplay \<and> rest = []);
          respondEvents1 =
            (if \<not> skip \<and> isDecisionEvent (EventType event) then respondEvents @ [event]
             else respondEvents)
      in if isPreloadMarkerEvent event then applyBatch ext rh skip rest w respondEvents1
         else
           (case executeAnyPressurePoints (wth w) event isInReplay of
              Some e \<Rightarrow> Inr (Some e, w, respondEvents1)
            | None \<Rightarrow>
                (case applyEvent ext event isInReplay isLast w of
                   Inl p \<Rightarrow> Inl p
                 | Inr (Some e, w1) \<Rightarrow> Inr (Some e, w1, respondEvents1)
                 | Inr (None, w1) \<Rightarrow> applyBatch ext rh skip rest w1 respondEvents1)))"

text \<open>
  The part of one round of the loop \<^verbatim>\<open>ProcessEvents\<close> after the batch is fetched: the
  markers, the events, the local activity markers, and the decisions of a replayed
  batch. It returns the error (if any), the context and the two lists.
\<close>

definition processBatch ::
  "'st externals \<Rightarrow> bool \<Rightarrow> history \<Rightarrow> HistoryEvent list \<Rightarrow> HistoryEvent list \<Rightarrow>
   'st workflowExecutionContextImpl \<Rightarrow> Decision list \<Rightarrow> HistoryEvent list \<Rightarrow>
   panic + (error option \<times> 'st workflowExecutionContextImpl \<times> Decision list
            \<times> HistoryEvent list)" where
  "processBatch ext skip rh reorderedEvents mks w replayDecisions respondEvents =
     (case applyMarkers ext False mks w of
        Inl p \<Rightarrow> Inl p
      | Inr (Some e, w1) \<Rightarrow> Inr (Some e, w1, replayDecisions, respondEvents)
      | Inr (None, w1) \<Rightarrow>
          (case applyBatch ext rh skip reorderedEvents w1 respondEvents of
             Inl p \<Rightarrow> Inl p
           | Inr (Some e, w2, respondEvents1) \<Rightarrow>
               Inr (Some e, w2, replayDecisions, respondEvents1)
           | Inr (None, w2, respondEvents1) \<Rightarrow>
               (case applyMarkers ext True mks w2 of
                  Inl p \<Rightarrow> Inl p
                | Inr (Some e, w3) \<Rightarrow> Inr (Some e, w3, replayDecisions, respondEvents1)
                | Inr (None, w3) \<Rightarrow>
                    (let isReplay = (length reorderedEvents > 0
                                     \<and> IsReplayEvent rh (last reorderedEvents))
                     in if isReplay then
                          (case eventHandler w3 of
                             None \<Rightarrow> Inl NilPointerDereference
                           | Some evh \<Rightarrow>
                               (case getDecisions ext evh of
                                  (eventDecisions, evh1) \<Rightarrow>
                                    Inr (None, w3\<lparr>eventHandler := Some evh1\<rparr>,
                                         (if length eventDecisions > 0 \<and> \<not> skip
                                          then replayDecisions @ eventDecisions
                                          else replayDecisions),
                                         respondEvents1)))
                        else Inr (None, w3, replayDecisions, respondEvents1)))))"

text \<open>The loop \<^verbatim>\<open>ProcessEvents\<close> of \<^verbatim>\<open>ProcessWorkflowTask\<close>.\<close>

function processEvents ::
  "'st externals \<Rightarrow> bool \<Rightarrow> history \<Rightarrow> 'st workflowExecutionContextImpl \<Rightarrow>
   Decision list \<Rightarrow> HistoryEvent list \<Rightarrow>
   panic + (error option \<times> 'st workflowExecutionContextImpl \<times> history \<times> Decision list
            \<times> HistoryEvent list)" where
  "processEvents ext skip rh w replayDecisions respondEvents =
     (case NextDecisionEvents rh of
        Inl p \<Rightarrow> Inl p
      | Inr (reorderedEvents, mks, Some e, rh1) \<Rightarrow>
          Inr (Some e, w, rh1, replayDecisions, respondEvents)
      | Inr (reorderedEvents, mks, None, rh1) \<Rightarrow>
          if length (elems reorderedEvents) = 0 then
            Inr (None, w, rh1, replayDecisions, respondEvents)
          else
            (case processBatch ext skip rh1 (elems reorderedEvents) mks w replayDecisions
                    respondEvents of
               Inl p \<Rightarrow> Inl p
             | Inr (Some e, w1, replayDecisions1, respondEvents1) \<Rightarrow>
                 Inr (Some e, w1, rh1, replayDecisions1, respondEvents1)
             | Inr (None, w1, replayDecisions1, respondEvents1) \<Rightarrow>
                 processEvents ext skip rh1 w1 replayDecisions1 respondEvents1))"
  by pat_completeness auto
termination
proof (relation "measure (\<lambda>(ext, skip, rh, w, replayDecisions, respondEvents). batchesLeft rh)")
  show "wf (measure (\<lambda>(ext, skip, rh, w, replayDecisions, respondEvents). batchesLeft rh))"
    by simp
next
  fix ext :: "'st externals" and skip :: bool and rh :: history
    and w :: "'st workflowExecutionContextImpl" and replayDecisions :: "Decision list"
    and respondEvents :: "HistoryEvent list"
    and x2 reorderedEvents x2a mks x2b x1b rh1 x2c x1c x2d w1 x2e replayDecisions1 respondEvents1
  assume "NextDecisionEvents rh = Inr x2" "(reorderedEvents, x2a) = x2" "(mks, x2b) = x2a"
    "(x1b, rh1) = x2b" "x1b = None" "length (elems reorderedEvents) \<noteq> 0"
  then have "NextDecisionEvents rh = Inr (reorderedEvents, mks, None, rh1)"
    and "elems reorderedEvents \<noteq> []" by auto
  then have "batchesLeft rh1 < batchesLeft rh"
    by (rule NextDecisionEvents_batchesLeft)
  then show "((ext, skip, rh1, w1, replayDecisions1, respondEvents1),
              ext, skip, rh, w, replayDecisions, respondEvents)
             \<in> measure (\<lambda>(ext, skip, rh, w, replayDecisions, respondEvents). batchesLeft rh)"
    by simp
qed

declare processEvents.simps [simp del]

subsection \<open>Completing the decision task\<close>

datatype QueryTaskCompletedType =
    QueryTaskCompletedTypeCompleted
  | QueryTaskCompletedTypeFailed

datatype DecisionTaskFailedCause =
    DecisionTaskFailedCauseWorkflowWorkerUnhandledFailure

record RespondQueryTaskCompletedRequest =
  rq_TaskToken :: bytes
  rq_CompletedType :: "QueryTaskCompletedType option"
  rq_QueryResult :: bytes
  rq_ErrorMessage :: "string option"

record RespondDecisionTaskFailedRequest =
  rf_TaskToken :: bytes
  rf_Cause :: "DecisionTaskFailedCause option"
  rf_Details :: bytes
  rf_Identity :: string

record RespondDecisionTaskCompletedRequest =
  rc_TaskToken :: bytes
  rc_Decisions :: "Decision list"
  rc_Identity :: string
  rc_ReturnNewDecisionTask :: bool
  rc_ForceCreateNewDecisionTask :: bool

text \<open>The values of \<^verbatim>\<open>completeRequest interface{}\<close>; \<open>None\<close> is nil.\<close>

datatype completeRequest =
    QueryTaskCompleted RespondQueryTaskCompletedRequest
  | DecisionTaskFailed RespondDecisionTaskFailedRequest
  | DecisionTaskCompleted RespondDecisionTaskCompletedRequest

text \<open>
  Modelled from the spec: \<^verbatim>\<open>getErrorDetails\<close> and \<^verbatim>\<open>NewCustomError\<close> are defined outside
  this file. A custom error carries a reason and encoded details, and failing the
  workflow with it reports that reason and those details; the reason and details of the
  other kinds of error are a parameter. \<^verbatim>\<open>NewCustomError(reason, text)\<close> encodes the text
  as its details.
\<close>

definition getErrorDetails :: "'st externals \<Rightarrow> error \<Rightarrow> string \<times> bytes" where
  "getErrorDetails ext e =
     (case e of
        CustomError reason details \<Rightarrow> (reason, details)
      | _ \<Rightarrow> otherErrorDetails ext e)"

definition NewCustomError :: "'st externals \<Rightarrow> string \<Rightarrow> string \<Rightarrow> error" where
  "NewCustomError ext reason details = CustomError reason (encodeText ext details)"

definition createNewDecision :: "DecisionType \<Rightarrow> Decision" where
  "createNewDecision decisionType =
     \<lparr>DecisionType = decisionType, DecisionAttrs = NoDecisionAttributes\<rparr>"

definition errorToFailDecisionTask ::
  "'st externals \<Rightarrow> bytes \<Rightarrow> error \<Rightarrow> string \<Rightarrow> RespondDecisionTaskFailedRequest" where
  "errorToFailDecisionTask ext taskToken e ident =
     \<lparr>rf_TaskToken = taskToken,
      rf_Cause = Some DecisionTaskFailedCauseWorkflowWorkerUnhandledFailure,
      rf_Details = snd (getErrorDetails ext e),
      rf_Identity = ident\<rparr>"

text \<open>
  The closing decision \<^verbatim>\<open>completeWorkflow\<close> of the task handler appends, chosen by the
  context's error and completion flag (\<open>None\<close> when the workflow is not closing). The
  panic error is handled before this choice.
\<close>

definition closeDecisionOf ::
  "'st externals \<Rightarrow> 'st workflowExecutionContextImpl \<Rightarrow> Decision option" where
  "closeDecisionOf ext workflowContext =
     (case err workflowContext of
        Some (CanceledError d) \<Rightarrow>
          Some ((createNewDecision DecisionTypeCancelWorkflowExecution)
                  \<lparr>DecisionAttrs :=
                     CancelWorkflowExecutionAttrs
                       (snd (getErrorDetails ext (CanceledError d)))\<rparr>)
      | Some (ContinueAsNewError params) \<Rightarrow>
          Some ((createNewDecision DecisionTypeContinueAsNewWorkflowExecution)
                  \<lparr>DecisionAttrs :=
                     ContinueAsNewWorkflowExecutionAttrs
                       \<lparr>cand_WorkflowType = can_workflowType params,
                        cand_Input = can_input params,
                        cand_TaskList = can_taskListName params,
                        cand_ExecutionStartToCloseTimeoutSeconds =
                          can_executionStartToCloseTimeoutSeconds params,
                        cand_TaskStartToCloseTimeoutSeconds =
                          can_taskStartToCloseTimeoutSeconds params\<rparr>\<rparr>)
      | Some e \<Rightarrow>
          (case getErrorDetails ext e of
             (reason, details) \<Rightarrow>
               Some ((createNewDecision DecisionTypeFailWorkflowExecution)
                       \<lparr>DecisionAttrs :=
                          FailWorkflowExecutionAttrs
                            \<lparr>fwd_Reason = reason, fwd_Details = details\<rparr>\<rparr>))
      | None \<Rightarrow>
          if isWorkflowCompleted workflowContext then
            Some ((createNewDecision DecisionTypeCompleteWorkflowExecution)
                    \<lparr>DecisionAttrs := CompleteWorkflowExecutionAttrs (result workflowContext)\<rparr>)
          else None)"

text \<open>
  \<^verbatim>\<open>completeWorkflow\<close> of the task handler. For a decision task it reads the workflow type
  of the event handler for its metrics scope, so a nil handler panics.
\<close>

definition wth_completeWorkflow ::
  "'st externals \<Rightarrow> workflowTaskHandlerImpl \<Rightarrow> 'st workflowExecutionEventHandlerImpl option \<Rightarrow>
   PollForDecisionTaskResponse \<Rightarrow> 'st workflowExecutionContextImpl \<Rightarrow> Decision list \<Rightarrow>
   bool \<Rightarrow> panic + completeRequest" where
  "wth_completeWorkflow ext th evh t workflowContext decisions forceNewDecision =
     (case Query t of
        Some q \<Rightarrow>
          (case err workflowContext of
             Some (PanicError v st) \<Rightarrow>
               Inr (QueryTaskCompleted
                      \<lparr>rq_TaskToken = TaskToken t,
                       rq_CompletedType = Some QueryTaskCompletedTypeFailed,
                       rq_QueryResult = [],
                       rq_ErrorMessage =
                         Some (''Workflow panic: '' @ errorText ext (PanicError v st))\<rparr>)
           | _ \<Rightarrow>
               (case evh of
                  None \<Rightarrow> Inl NilPointerDereference
                | Some evh1 \<Rightarrow>
                    (case ProcessQuery ext evh1 (QueryType q) (QueryArgs q) of
                       (r, Some e) \<Rightarrow>
                         Inr (QueryTaskCompleted
                                \<lparr>rq_TaskToken = TaskToken t,
                                 rq_CompletedType = Some QueryTaskCompletedTypeFailed,
                                 rq_QueryResult = [],
                                 rq_ErrorMessage = Some (errorText ext e)\<rparr>)
                     | (r, None) \<Rightarrow>
                         Inr (QueryTaskCompleted
                                \<lparr>rq_TaskToken = TaskToken t,
                                 rq_CompletedType = Some QueryTaskCompletedTypeCompleted,
                                 rq_QueryResult = r,
                                 rq_ErrorMessage = None\<rparr>))))
      | None \<Rightarrow>
          (case evh of
             None \<Rightarrow> Inl NilPointerDereference
           | Some _ \<Rightarrow>
               (case err workflowContext of
                  Some (PanicError v st) \<Rightarrow>
                    Inr (DecisionTaskFailed
                           (errorToFailDecisionTask ext (TaskToken t) (PanicError v st)
                              (identity th)))
                | _ \<Rightarrow>
                    (case closeDecisionOf ext workflowContext of
                       Some closeDecision \<Rightarrow>
                         Inr (DecisionTaskCompleted
                                \<lparr>rc_TaskToken = TaskToken t,
                                 rc_Decisions = decisions @ [closeDecision],
                                 rc_Identity = identity th,
                                 rc_ReturnNewDecisionTask = True,
                                 rc_ForceCreateNewDecisionTask = False\<rparr>)
                     | None \<Rightarrow>
                         Inr (DecisionTaskCompleted
                                \<lparr>rc_TaskToken = TaskToken t,
                                 rc_Decisions = decisions,
                                 rc_Identity = identity th,
                                 rc_ReturnNewDecisionTask = True,
                                 rc_ForceCreateNewDecisionTask = forceNewDecision\<rparr>)))))"

text \<open>
  The loop of \<^verbatim>\<open>CompleteDecisionTask\<close> that starts the unstarted local activity tasks:
  each is looked up among the pending ones, bound to the context (its run id) and sent
  on the task channel of tunnel \<open>r\<close>. Go ranges over the map in an unspecified order; the
  list fixes one.
\<close>

fun sendUnstarted ::
  "string \<Rightarrow> nat \<Rightarrow> string list \<Rightarrow> (string \<times> localActivityTask) list \<Rightarrow> tunnels \<Rightarrow>
   panic + ((string \<times> localActivityTask) list \<times> tunnels)" where
  "sendUnstarted run r [] pending ts = Inr (pending, ts)"
| "sendUnstarted run r (a # as) pending ts =
     (case map_of pending a of
        None \<Rightarrow> Inl NilPointerDereference
      | Some lt \<Rightarrow>
          (let lt1 = lt\<lparr>wc := Some run\<rparr> in
           sendUnstarted run r as
             (map (\<lambda>(k, v). if k = a then (k, lt1) else (k, v)) pending)
             (ts(r := (ts r)\<lparr>taskCh := taskCh (ts r) @ [lt1]\<rparr>))))"

text \<open>
  The first half of \<^verbatim>\<open>CompleteDecisionTask\<close>, on pending local activities. The boolean
  says that the method returns nil here (it waits for the local activities).
\<close>

definition startLocalActivities ::
  "bool \<Rightarrow> 'st workflowExecutionContextImpl \<Rightarrow> tunnels \<Rightarrow>
   panic + (bool \<times> 'st workflowExecutionContextImpl \<times> tunnels)" where
  "startLocalActivities waitLocalActivities w ts =
     (case (eventHandler w, laTunnel w) of
        (Some evh, Some r) \<Rightarrow>
          if hasPendingLocalActivityWork w then
            (case (if length (unstartedLaTasks evh) > 0 then
                     (case sendUnstarted (RunID (WorkflowExecution (workflowInfo w))) r
                             (unstartedLaTasks evh) (pendingLaTasks evh) ts of
                        Inl p \<Rightarrow> Inl p
                      | Inr (pending1, ts1) \<Rightarrow>
                          Inr (w\<lparr>eventHandler :=
                                   Some (evh\<lparr>pendingLaTasks := pending1,
                                              unstartedLaTasks := []\<rparr>)\<rparr>, ts1))
                   else Inr (w, ts)) of
               Inl p \<Rightarrow> Inl p
             | Inr (w1, ts1) \<Rightarrow> Inr (waitLocalActivities, w1, ts1))
          else Inr (False, w, ts)
      | _ \<Rightarrow> Inr (False, w, ts))"

definition CompleteDecisionTask ::
  "'st externals \<Rightarrow> bool \<Rightarrow> 'st workflowExecutionContextImpl \<Rightarrow> tunnels \<Rightarrow>
   panic + (completeRequest option \<times> 'st workflowExecutionContextImpl \<times> tunnels)" where
  "CompleteDecisionTask ext waitLocalActivities w ts =
     (case currentDecisionTask w of
        None \<Rightarrow> Inr (None, w, ts)
      | Some t \<Rightarrow>
          (case startLocalActivities waitLocalActivities w ts of
             Inl p \<Rightarrow> Inl p
           | Inr (True, w1, ts1) \<Rightarrow> Inr (None, w1, ts1)
           | Inr (False, w1, ts1) \<Rightarrow>
               (case eventHandler w1 of
                  None \<Rightarrow> Inl NilPointerDereference
                | Some evh \<Rightarrow>
                    (case getDecisions ext evh of
                       (eventDecisions, evh1) \<Rightarrow>
                         (let w2 = w1\<lparr>eventHandler := Some evh1\<rparr>;
                              w3 = (if length eventDecisions > 0
                                    then w2\<lparr>newDecisions := newDecisions w2 @ eventDecisions\<rparr>
                                    else w2)
                          in case wth_completeWorkflow ext (wth w3) (eventHandler w3) t w3
                                    (newDecisions w3) (\<not> waitLocalActivities) of
                               Inl p \<Rightarrow> Inl p
                             | Inr r \<Rightarrow> Inr (Some r, clearCurrentTask w3, ts1))))))"

subsection \<open>\<^verbatim>\<open>ProcessWorkflowTask\<close> of the context\<close>

text \<open>
  The non-determinism check and what follows it. \<^verbatim>\<open>eventHandler.Complete(nil, err)\<close> is
  the completion callback the handler was created with: the context's
  \<open>completeWorkflow\<close>. The results are the request, the error and the state.
\<close>

definition checkAndComplete ::
  "'st externals \<Rightarrow> bool \<Rightarrow> 'st workflowExecutionContextImpl \<Rightarrow> Decision list \<Rightarrow>
   HistoryEvent list \<Rightarrow> tunnels \<Rightarrow>
   panic + (completeRequest option \<times> error option \<times> 'st workflowExecutionContextImpl
            \<times> tunnels)" where
  "checkAndComplete ext skip w replayDecisions respondEvents ts =
     (case (if \<not> skip then matchReplayWithHistory (names ext) replayDecisions respondEvents
            else Inr None) of
        Inl p \<Rightarrow> Inl p
      | Inr mismatch \<Rightarrow>
          (case (case mismatch of
                   None \<Rightarrow> Inr (Inr w)
                 | Some e \<Rightarrow>
                     (case nonDeterministicWorkflowPolicy (wth w) of
                        NonDeterministicWorkflowPolicyFailWorkflow \<Rightarrow>
                          (case eventHandler w of
                             None \<Rightarrow> Inl NilPointerDereference
                           | Some _ \<Rightarrow>
                               Inr (Inr (completeWorkflow []
                                           (Some (NewCustomError ext ''nondeterministic workflow''
                                                    (errorText ext e))) w)))
                      | NonDeterministicWorkflowPolicyBlockWorkflow \<Rightarrow> Inr (Inl e)
                      | NonDeterministicWorkflowPolicyOther _ \<Rightarrow>
                          Inl (ExplicitPanic ''unknown mismatched workflow history policy.''))) of
             Inl p \<Rightarrow> Inl p
           | Inr (Inl e) \<Rightarrow> Inr (None, Some e, w, ts)
           | Inr (Inr w1) \<Rightarrow>
               (case CompleteDecisionTask ext True w1 ts of
                  Inl p \<Rightarrow> Inl p
                | Inr (r, w2, ts1) \<Rightarrow> Inr (r, None, w2, ts1))))"

text \<open>
  \<^verbatim>\<open>ProcessWorkflowTask\<close> of the context. The task and the iterator are written by
  \<^verbatim>\<open>ResetIfStale\<close> and by the reorderer, so they are returned with the request, the error,
  the context and the tunnels.
\<close>

definition ProcessWorkflowTask ::
  "'st externals \<Rightarrow> int64 \<Rightarrow> 'st workflowExecutionContextImpl \<Rightarrow> PollForDecisionTaskResponse \<Rightarrow>
   HistoryIterator option \<Rightarrow> tunnels \<Rightarrow>
   panic + (completeRequest option \<times> error option \<times> 'st workflowExecutionContextImpl
            \<times> PollForDecisionTaskResponse \<times> HistoryIterator option \<times> tunnels)" where
  "ProcessWorkflowTask ext now w t iter ts =
     (case ResetIfStale ext w t iter of
        Inl p \<Rightarrow> Inl p
      | Inr (Some e, w1, t1, iter1) \<Rightarrow> Inr (None, Some e, w1, t1, iter1, ts)
      | Inr (None, w1, t1, iter1) \<Rightarrow>
          (let w2 = SetCurrentTask now t1 w1 in
           case newHistory \<lparr>task = t1, historyIterator = iter1\<rparr> of
             Inl p \<Rightarrow> Inl p
           | Inr reorderedHistory \<Rightarrow>
               (case skipReplayCheck w2 of
                  Inl p \<Rightarrow> Inl p
                | Inr skip \<Rightarrow>
                    (case processEvents ext skip reorderedHistory w2 [] [] of
                       Inl p \<Rightarrow> Inl p
                     | Inr (Some e, w3, rh, replayDecisions, respondEvents) \<Rightarrow>
                         Inr (None, Some e, w3, t1, historyIterator (workflowTask rh), ts)
                     | Inr (None, w3, rh, replayDecisions, respondEvents) \<Rightarrow>
                         (case checkAndComplete ext skip w3 replayDecisions respondEvents ts of
                            Inl p \<Rightarrow> Inl p
                          | Inr (r, e, w4, ts1) \<Rightarrow>
                              Inr (r, e, w4, t1, historyIterator (workflowTask rh), ts1))))))"

subsection \<open>Finding or creating the context of a task\<close>

text \<open>
  The contexts live in a store and the sticky cache holds references to them; \<open>nextRef\<close>
  is the next free reference. The package variable \<^verbatim>\<open>workflowCache\<close> is nil until
  \<^verbatim>\<open>getWorkflowCache()\<close> has run once, which \<^verbatim>\<open>getWorkflowContext\<close>, \<^verbatim>\<open>putWorkflowContext\<close>
  and \<^verbatim>\<open>removeWorkflowContext\<close> make it do: \<open>cacheCreated\<close> tells whether it has, and
  \<open>stickyCache\<close> holds the entries.
\<close>

record 'st world =
  contexts :: "nat \<rightharpoonup> 'st workflowExecutionContextImpl"
  nextRef :: nat
  stickyCache :: workflowCache
  cacheCreated :: bool

definition createWorkflowContext ::
  "'st externals \<Rightarrow> workflowTaskHandlerImpl \<Rightarrow> PollForDecisionTaskResponse \<Rightarrow>
   panic + (error + 'st workflowExecutionContextImpl)" where
  "createWorkflowContext ext th t =
     (case History t of
        None \<Rightarrow> Inl NilPointerDereference
      | Some h \<Rightarrow>
          (case Events h of
             [] \<Rightarrow> Inl IndexOutOfRange
           | e0 # _ \<Rightarrow>
               (case WorkflowExecutionStartedEventAttributesOf e0 of
                  None \<Rightarrow>
                    Inr (Inl (ErrorString ''first history event is not WorkflowExecutionStarted''))
                | Some attributes \<Rightarrow>
                    (case wes_TaskList attributes of
                       None \<Rightarrow>
                         Inr (Inl (ErrorString
                                     ''nil TaskList in WorkflowExecutionStarted event''))
                     | Some taskList \<Rightarrow>
                              Inr (Inr (createEventHandler ext
                                \<lparr>mutex = False,
                                 workflowStartTime = Timestamp e0,
                                 workflowInfo =
                                   \<lparr>WorkflowExecution = \<lparr>ID = WorkflowId t, RunID = RunId t\<rparr>,
                                    WorkflowTypeName = WorkflowType t,
                                    TaskListName = taskList,
                                    ExecutionStartToCloseTimeoutSeconds =
                                      wes_ExecutionStartToCloseTimeoutSeconds attributes,
                                    TaskStartToCloseTimeoutSeconds =
                                      wes_TaskStartToCloseTimeoutSeconds attributes,
                                    wi_Domain = domain th,
                                    Attempt = wes_Attempt attributes\<rparr>,
                                 wth = th,
                                 eventHandler = None,
                                 isWorkflowCompleted = False,
                                 result = [],
                                 err = None,
                                 previousStartedEventID = 0,
                                 newDecisions = [],
                                 currentDecisionTask = None,
                                 laTunnel = None,
                                 decisionStartTime = 0\<rparr>))))))"

text \<open>
  The end of \<^verbatim>\<open>getOrCreateWorkflowContext\<close>: \<^verbatim>\<open>resetStateIfDestroyed\<close> on the context at
  reference \<open>c\<close>, then the first statement of the deferred function, which hands the
  tunnel of the task handler to the context when there is no error.
\<close>

definition finishGetOrCreate ::
  "'st externals \<Rightarrow> workflowTaskHandlerImpl \<Rightarrow> nat \<Rightarrow> 'st workflowExecutionContextImpl \<Rightarrow>
   PollForDecisionTaskResponse \<Rightarrow> HistoryIterator option \<Rightarrow> 'st world \<Rightarrow>
   panic + (nat option \<times> error option \<times> PollForDecisionTaskResponse \<times> HistoryIterator option
            \<times> 'st world)" where
  "finishGetOrCreate ext th c w t iter s =
     (case resetStateIfDestroyed ext w t iter of
        Inl p \<Rightarrow> Inl p
      | Inr (e, w1, t1, iter1) \<Rightarrow>
          (let w2 = (if e = None then w1\<lparr>laTunnel := wth_laTunnel th\<rparr> else w1) in
           Inr (Some c, e, t1, iter1, s\<lparr>contexts := (contexts s)(c \<mapsto> w2)\<rparr>)))"

text \<open>
  The body of \<^verbatim>\<open>getOrCreateWorkflowContext\<close>. The look-up in the cache and the insertion
  into it create the cache if it is not there yet.
\<close>

definition getOrCreateBody ::
  "'st externals \<Rightarrow> workflowTaskHandlerImpl \<Rightarrow> PollForDecisionTaskResponse \<Rightarrow>
   HistoryIterator option \<Rightarrow> 'st world \<Rightarrow>
   panic + (nat option \<times> error option \<times> PollForDecisionTaskResponse \<times> HistoryIterator option
            \<times> 'st world)" where
  "getOrCreateBody ext th t iter s =
     (case History t of
        None \<Rightarrow> Inl NilPointerDereference
      | Some h \<Rightarrow>
          (let runID = RunId t;
               full = isFullHistory h;
               lookup = (Query t = None \<or> (Query t \<noteq> None \<and> \<not> full));
               cached = (if lookup then getWorkflowContext runID (stickyCache s) else None);
               s0 = (if lookup then s\<lparr>cacheCreated := True\<rparr> else s)
           in case cached of
                Some c \<Rightarrow>
                  (case contexts s0 c of
                     None \<Rightarrow> Inl NilPointerDereference
                   | Some w0 \<Rightarrow>
                       (let w = Lock w0 in
                        if Query t \<noteq> None \<and> \<not> full then finishGetOrCreate ext th c w t iter s0
                        else if Events h = [] then Inl IndexOutOfRange
                        else if EventId (Events h ! 0) = previousStartedEventID w + 1
                        then finishGetOrCreate ext th c w t iter s0
                        else
                          (case ResetIfStale ext w t iter of
                             Inl p \<Rightarrow> Inl p
                           | Inr (_, w1, t1, iter1) \<Rightarrow>
                               finishGetOrCreate ext th c w1 t1 iter1 s0)))
              | None \<Rightarrow>
                  (case (if \<not> full then
                           (case resetHistory t iter of
                              Inl p \<Rightarrow> Inl p
                            | Inr (Inl e, t1, iter1) \<Rightarrow> Inr (Some e, t1, iter1)
                            | Inr (Inr _, t1, iter1) \<Rightarrow> Inr (None, t1, iter1))
                         else Inr (None, t, iter)) of
                     Inl p \<Rightarrow> Inl p
                   | Inr (Some e, t1, iter1) \<Rightarrow> Inr (None, Some e, t1, iter1, s0)
                   | Inr (None, t1, iter1) \<Rightarrow>
                       (case createWorkflowContext ext th t1 of
                          Inl p \<Rightarrow> Inl p
                        | Inr (Inl e) \<Rightarrow> Inr (None, Some e, t1, iter1, s0)
                        | Inr (Inr wnew) \<Rightarrow>
                            (let c = nextRef s0;
                                 s1 = s0\<lparr>contexts := (contexts s0)(c \<mapsto> wnew),
                                         nextRef := Suc c\<rparr>
                             in case (if \<not> disableStickyExecution th \<and> Query t1 = None then
                                        (case putWorkflowContext runID c (stickyCache s1) of
                                           (c1, cache1) \<Rightarrow>
                                             (c1, s1\<lparr>stickyCache := cache1,
                                                     cacheCreated := True\<rparr>))
                                      else (c, s1)) of
                                  (c1, s2) \<Rightarrow>
                                    (case contexts s2 c1 of
                                       None \<Rightarrow> Inl NilPointerDereference
                                     | Some w1 \<Rightarrow>
                                         finishGetOrCreate ext th c1 (Lock w1) t1 iter1 s2))))))"

text \<open>
  \<^verbatim>\<open>getOrCreateWorkflowContext\<close>: the body, then the rest of the deferred function, which
  reads \<^verbatim>\<open>workflowCache.Size()\<close> from the package variable on every return. The call
  panics when the cache has not been created, which is so after a task with a query and
  a full history on a process that has not used the cache before.
\<close>

definition getOrCreateWorkflowContext ::
  "'st externals \<Rightarrow> workflowTaskHandlerImpl \<Rightarrow> PollForDecisionTaskResponse \<Rightarrow>
   HistoryIterator option \<Rightarrow> 'st world \<Rightarrow>
   panic + (nat option \<times> error option \<times> PollForDecisionTaskResponse \<times> HistoryIterator option
            \<times> 'st world)" where
  "getOrCreateWorkflowContext ext th t iter s =
     (case getOrCreateBody ext th t iter s of
        Inl p \<Rightarrow> Inl p
      | Inr (c, e, t1, iter1, s1) \<Rightarrow>
          if cacheCreated s1 then Inr (c, e, t1, iter1, s1) else Inl NilPointerDereference)"
section \<open>The heartbeat invoker\<close>

record RecordActivityTaskHeartbeatRequest =
  hb_TaskToken :: bytes
  hb_Details :: bytes
  hb_Identity :: string

text \<open>
  Modelled from the spec: the workflow service and the retry helper are outside this
  file. \<open>service\<close> is the outcome of \<^verbatim>\<open>backoff.Retry\<close> around one
  \<^verbatim>\<open>RecordActivityTaskHeartbeat\<close> call: the \<^verbatim>\<open>CancelRequested\<close> flag of the response (\<open>None\<close>
  when there is no response) and the error left after the retries.
\<close>

type_synonym heartbeatService =
  "RecordActivityTaskHeartbeatRequest \<Rightarrow> bool option \<times> error option"

text \<open>
  What a heartbeat does outside the invoker: the requests handed to the service, in
  order, and the number of calls of the cancel handler.
\<close>

record activityEffects =
  requestsSent :: "RecordActivityTaskHeartbeatRequest list"
  cancelHandlerCalls :: nat

definition recordActivityHeartbeat ::
  "heartbeatService \<Rightarrow> string \<Rightarrow> bytes \<Rightarrow> bytes \<Rightarrow> activityEffects \<Rightarrow>
   error option \<times> activityEffects" where
  "recordActivityHeartbeat service ident token details fx =
     (let request = \<lparr>hb_TaskToken = token, hb_Details = details, hb_Identity = ident\<rparr>;
          fx1 = fx\<lparr>requestsSent := requestsSent fx @ [request]\<rparr>
      in case service request of
           (heartbeatResponse, heartbeatErr) \<Rightarrow>
             if heartbeatErr = None \<and> heartbeatResponse \<noteq> None
                \<and> heartbeatResponse = Some True
             then (Some (CanceledError []), fx1)
             else (heartbeatErr, fx1))"

text \<open>
  The struct \<^verbatim>\<open>cadenceInvoker\<close>. \<open>hbBatchEndTimer\<close> is the duration in nanoseconds the
  running timer was created with, \<open>None\<close> for the nil timer. The mutex, the close channel
  and the goroutine that waits for the timer and flushes the last details are not
  modelled.
\<close>

record cadenceInvoker =
  inv_identity :: string
  taskToken :: bytes
  heartBeatTimeoutInSec :: int32
  hbBatchEndTimer :: "int option"
  lastDetailsToReport :: "bytes option"

definition defaultHeartBeatIntervalInSec :: int32 where
  "defaultHeartBeatIntervalInSec = 10 * 60"

definition internalHeartBeat ::
  "heartbeatService \<Rightarrow> cadenceInvoker \<Rightarrow> bytes \<Rightarrow> activityEffects \<Rightarrow>
   bool \<times> error option \<times> activityEffects" where
  "internalHeartBeat service i details fx =
     (case recordActivityHeartbeat service (inv_identity i) (taskToken i) details fx of
        (e, fx1) \<Rightarrow>
          (case e of
             Some (CanceledError _) \<Rightarrow>
               (True, e, fx1\<lparr>cancelHandlerCalls := cancelHandlerCalls fx1 + 1\<rparr>)
           | Some EntityNotExistsError \<Rightarrow>
               (True, e, fx1\<lparr>cancelHandlerCalls := cancelHandlerCalls fx1 + 1\<rparr>)
           | _ \<Rightarrow> (False, e, fx1)))"

subsection \<open>The batch window in \<^verbatim>\<open>float32\<close>\<close>

text \<open>
  \<^verbatim>\<open>time.Duration(0.8*float32(deadlineToTrigger)) * time.Second\<close> for a positive deadline.
  A \<^verbatim>\<open>float32\<close> has 24 significant bits and rounds to nearest, ties to even;
  \<open>roundToFloat32 n\<close> is the \<^verbatim>\<open>float32\<close> nearest to the natural number \<open>n\<close>. The constant
  \<open>0.8\<close> as a \<^verbatim>\<open>float32\<close> is \<open>13421773 / 2^24\<close>, so the product is
  \<open>roundToFloat32 (13421773 * float32(deadline)) / 2^24\<close> (rounding commutes with the
  scaling by a power of two, and the values are far from the ends of the exponent range).
  The conversion to \<^verbatim>\<open>time.Duration\<close> drops the fraction, and the multiplication by
  \<^verbatim>\<open>time.Second\<close> gives nanoseconds.
\<close>

fun bitLength :: "nat \<Rightarrow> nat" where
  "bitLength n = (if n = 0 then 0 else Suc (bitLength (n div 2)))"

declare bitLength.simps [simp del]

definition roundToFloat32 :: "nat \<Rightarrow> nat" where
  "roundToFloat32 n =
     (let k = bitLength n in
      if k \<le> 24 then n
      else
        (let s = k - 24;
             q = n div 2 ^ s;
             r = n mod 2 ^ s;
             half = 2 ^ (s - 1)
         in (if half < r \<or> (r = half \<and> odd q) then q + 1 else q) * 2 ^ s))"

definition float32_0_8 :: nat where
  "float32_0_8 = 13421773"

definition batchWindowSeconds :: "int32 \<Rightarrow> int" where
  "batchWindowSeconds deadlineToTrigger =
     int (roundToFloat32 (float32_0_8 * roundToFloat32 (nat (sint deadlineToTrigger)))
          div 2 ^ 24)"

definition Second :: int where
  "Second = 1000000000"

text \<open>\<^verbatim>\<open>Heartbeat\<close>: the error returned, the invoker and the effects after the call.\<close>

definition Heartbeat ::
  "heartbeatService \<Rightarrow> bytes \<Rightarrow> cadenceInvoker \<Rightarrow> activityEffects \<Rightarrow>
   error option \<times> cadenceInvoker \<times> activityEffects" where
  "Heartbeat service details i fx =
     (if hbBatchEndTimer i \<noteq> None then
        (None, i\<lparr>lastDetailsToReport := Some details\<rparr>, fx)
      else
        (case internalHeartBeat service i details fx of
           (isActivityCancelled, e, fx1) \<Rightarrow>
             if e = None \<or> isActivityCancelled then
               (let i1 = i\<lparr>lastDetailsToReport := None\<rparr>;
                    deadlineToTrigger =
                      (if sint (heartBeatTimeoutInSec i) \<le> 0 then defaultHeartBeatIntervalInSec
                       else heartBeatTimeoutInSec i);
                    duration = batchWindowSeconds deadlineToTrigger * Second
                in (e, i1\<lparr>hbBatchEndTimer := Some duration\<rparr>, fx1))
             else (e, i, fx1)))"

section \<open>Auxiliary notions for the properties of the history reorderer\<close>

text \<open>
  The reading of the forward scan that asks for a completion to be found: the first
  decision outcome among the events is a \<open>DecisionTaskCompleted\<close>. It is used only to
  compare with \<open>nextDecisionFailedFrom\<close>, which is what the code computes.
\<close>

fun nextDecisionCompletedFrom :: "HistoryEvent list \<Rightarrow> bool" where
  "nextDecisionCompletedFrom [] = False"
| "nextDecisionCompletedFrom (e # es) =
     (case EventType e of
        EventTypeDecisionTaskCompleted \<Rightarrow> True
      | EventTypeDecisionTaskTimedOut \<Rightarrow> False
      | EventTypeDecisionTaskFailed \<Rightarrow> False
      | _ \<Rightarrow> nextDecisionCompletedFrom es)"

text \<open>
  Position \<open>j\<close> of the loaded events is handed out: its event is not one of the four
  skipped decision-task events, and if it is a \<open>DecisionTaskStarted\<close> the scan from it
  does not report a failed decision.
\<close>

definition emittedAt :: "HistoryEvent list \<Rightarrow> nat \<Rightarrow> bool" where
  "emittedAt L j =
     (EventType (L ! j) \<notin> {EventTypeDecisionTaskCompleted, EventTypeDecisionTaskScheduled,
         EventTypeDecisionTaskTimedOut, EventTypeDecisionTaskFailed}
      \<and> (EventType (L ! j) = EventTypeDecisionTaskStarted \<longrightarrow>
           \<not> nextDecisionFailedFrom (drop j L)))"

text \<open>
  What one run of the loop \<open>orderEvents\<close> from state \<open>eh\<close> with accumulators \<open>ne\<close>,
  \<open>mk\<close> has done when it hands back \<open>eh'\<close>, \<open>evs\<close>, \<open>mks\<close>.
\<close>

definition orderEvents_post ::
  "history \<Rightarrow> HistoryEvent list \<Rightarrow> HistoryEvent list \<Rightarrow>
   history \<Rightarrow> HistoryEvent list \<Rightarrow> HistoryEvent list \<Rightarrow> bool" where
  "orderEvents_post eh ne mk eh' evs mks =
   ((\<exists>fetched. loadedEvents eh' = loadedEvents eh @ fetched
        \<and> (\<not> hasMoreEvents eh \<longrightarrow> fetched = []))
   \<and> currentIndex eh \<le> currentIndex eh'
   \<and> currentIndex eh' \<le> length (loadedEvents eh')
   \<and> evs = ne @ map ((!) (loadedEvents eh'))
                  (filter (emittedAt (loadedEvents eh')) [currentIndex eh..<currentIndex eh'])
   \<and> mks = mk @ filter isPreloadMarkerEvent (map ((!) (loadedEvents eh'))
                  (filter (emittedAt (loadedEvents eh')) [currentIndex eh..<currentIndex eh']))
   \<and> (\<forall>j. currentIndex eh \<le> j \<and> j < currentIndex eh'
          \<and> EventType (loadedEvents eh' ! j) = EventTypeDecisionTaskStarted
          \<and> \<not> nextDecisionFailedFrom (drop j (loadedEvents eh')) \<longrightarrow> Suc j = currentIndex eh'))"

text \<open>Events, tasks and reorderer states for the examples.\<close>

definition mkEvent :: "int64 \<Rightarrow> EventType \<Rightarrow> HistoryEvent" where
  "mkEvent i t = \<lparr>EventId = i, Timestamp = 0, EventType = t, Attributes = NoAttributes\<rparr>"

definition mkTask :: "HistoryEvent list \<Rightarrow> PollForDecisionTaskResponse" where
  "mkTask es =
     \<lparr>TaskToken = [], WorkflowId = ''wf'', RunId = ''run'', WorkflowType = ''W'',
      PreviousStartedEventId = 0, StartedEventId = 0, History = Some \<lparr>Events = es\<rparr>,
      Query = None\<rparr>"

definition mkHistory :: "HistoryEvent list \<Rightarrow> history" where
  "mkHistory es =
     \<lparr>workflowTask = \<lparr>task = mkTask es, historyIterator = None\<rparr>,
      loadedEvents = es, currentIndex = 0, nextBatch = None\<rparr>"

definition history_E1 :: "HistoryEvent list" where
  "history_E1 =
     [mkEvent 1 EventTypeWorkflowExecutionStarted, mkEvent 2 EventTypeDecisionTaskScheduled,
      mkEvent 3 EventTypeDecisionTaskStarted]"

definition history_timedOut :: "HistoryEvent list" where
  "history_timedOut =
     [mkEvent 1 EventTypeWorkflowExecutionStarted, mkEvent 2 EventTypeDecisionTaskScheduled,
      mkEvent 3 EventTypeDecisionTaskStarted, mkEvent 4 EventTypeDecisionTaskTimedOut,
      mkEvent 5 EventTypeDecisionTaskScheduled, mkEvent 6 EventTypeDecisionTaskStarted,
      mkEvent 7 EventTypeDecisionTaskCompleted]"

definition history_marker :: "HistoryEvent list" where
  "history_marker =
     [mkEvent 1 EventTypeWorkflowExecutionStarted, mkEvent 2 EventTypeDecisionTaskScheduled,
      mkEvent 3 EventTypeDecisionTaskStarted, mkEvent 4 EventTypeDecisionTaskCompleted,
      mkEvent 5 EventTypeMarkerRecorded, mkEvent 6 EventTypeDecisionTaskScheduled,
      mkEvent 7 EventTypeDecisionTaskStarted]"

text \<open>
  The answers of the iterator the reorderer has not read yet, and what one run of the
  loop \<open>orderEvents\<close> from state \<open>eh\<close> has read when it hands back \<open>eh'\<close> and the error
  \<open>er\<close>: the pages \<open>hs\<close>, in order, then the failed answer if there is an error. Each
  page was fetched when every event loaded before it had been consumed, none of them
  being a \<open>DecisionTaskStarted\<close> whose scan of the events loaded at that moment reports
  no failure. The loop ends with an error only when everything loaded is consumed and
  no consumed \<open>DecisionTaskStarted\<close> has a scan that reports no failure, and without an
  error only behind such a \<open>DecisionTaskStarted\<close> or when everything loaded is consumed
  and no answer is left to read.
\<close>

definition unreadOf :: "history \<Rightarrow> (error + History) list" where
  "unreadOf eh =
     (case historyIterator (workflowTask eh) of
        None \<Rightarrow> []
      | Some it \<Rightarrow> unread it)"

definition orderEvents_read ::
  "history \<Rightarrow> history \<Rightarrow> error option \<Rightarrow> History list \<Rightarrow> bool" where
  "orderEvents_read eh eh' er hs =
   (unreadOf eh = map Inr hs @ (case er of None \<Rightarrow> [] | Some e \<Rightarrow> [Inl e]) @ unreadOf eh'
   \<and> loadedEvents eh' = loadedEvents eh @ concat (map Events hs)
   \<and> task (workflowTask eh') = task (workflowTask eh)
   \<and> nextBatch eh' = nextBatch eh
   \<and> currentIndex eh \<le> currentIndex eh'
   \<and> (\<forall>k < length hs.
         length (loadedEvents eh @ concat (map Events (take k hs))) \<le> currentIndex eh'
         \<and> (\<forall>j. currentIndex eh \<le> j
                \<and> j < length (loadedEvents eh @ concat (map Events (take k hs)))
                \<and> EventType ((loadedEvents eh @ concat (map Events (take k hs))) ! j)
                    = EventTypeDecisionTaskStarted \<longrightarrow>
                nextDecisionFailedFrom
                  (drop j (loadedEvents eh @ concat (map Events (take k hs))))))
   \<and> (er \<noteq> None \<longrightarrow>
        currentIndex eh' = length (loadedEvents eh')
        \<and> (\<forall>j. currentIndex eh \<le> j \<and> j < currentIndex eh'
               \<and> EventType (loadedEvents eh' ! j) = EventTypeDecisionTaskStarted \<longrightarrow>
               nextDecisionFailedFrom (drop j (loadedEvents eh'))))
   \<and> (er = None \<longrightarrow>
        (\<exists>j. currentIndex eh \<le> j \<and> Suc j = currentIndex eh' \<and> j < length (loadedEvents eh')
            \<and> EventType (loadedEvents eh' ! j) = EventTypeDecisionTaskStarted
            \<and> \<not> nextDecisionFailedFrom (drop j (loadedEvents eh')))
        \<or> (currentIndex eh' = length (loadedEvents eh') \<and> unreadOf eh' = [])))"

text \<open>The events the reorderer holds once the pages \<open>hs\<close> have been appended.\<close>

definition loadedWith :: "history \<Rightarrow> History list \<Rightarrow> HistoryEvent list" where
  "loadedWith eh hs = loadedEvents eh @ concat (map Events hs)"

text \<open>
  A reorderer that holds the first two events of a run and whose iterator has one more
  page to hand out, with the rest of the history in which the first decision times out.
\<close>

definition pagedHistory :: history where
  "pagedHistory =
     \<lparr>workflowTask =
        \<lparr>task = mkTask (take 2 history_timedOut),
         historyIterator = Some \<lparr>pages = [Inr \<lparr>Events = drop 2 history_timedOut\<rparr>],
                                  unread = [Inr \<lparr>Events = drop 2 history_timedOut\<rparr>]\<rparr>\<rparr>,
      loadedEvents = take 2 history_timedOut, currentIndex = 0, nextBatch = None\<rparr>"
section \<open>Auxiliary notions for the properties of the replay matcher\<close>

text \<open>
  The component of a name after its final dot, read literally: what follows the last
  dot, and the whole name when it has no dot. It is used only to compare with
  \<open>lastPartOfName\<close>, which is what the code computes.
\<close>

definition afterFinalDot :: "string \<Rightarrow> string" where
  "afterFinalDot name = rev (takeWhile (\<lambda>c. c \<noteq> CHR ''.'') (rev name))"

definition scheduleActivityDecision :: "string \<Rightarrow> string \<Rightarrow> Decision" where
  "scheduleActivityDecision activityId activityType =
     \<lparr>DecisionType = DecisionTypeScheduleActivityTask,
      DecisionAttrs = ScheduleActivityTaskAttrs
        \<lparr>sad_ActivityId = activityId, sad_ActivityType = activityType,
         sad_TaskList = ''tl'', sad_Input = []\<rparr>\<rparr>"

definition activityScheduledEvent :: "int64 \<Rightarrow> string \<Rightarrow> string \<Rightarrow> HistoryEvent" where
  "activityScheduledEvent i activityId activityType =
     \<lparr>EventId = i, Timestamp = 0, EventType = EventTypeActivityTaskScheduled,
      Attributes = ActivityTaskScheduledAttrs
        \<lparr>ats_ActivityId = activityId, ats_ActivityType = activityType,
         ats_TaskList = ''tl'', ats_Input = []\<rparr>\<rparr>"

section \<open>Auxiliary notions for the properties of the context\<close>

text \<open>
  An event handler with no state of its own and the external operations that leave it
  as it is: no event completes the workflow or fails, no decision is produced, a query
  answers nothing.
\<close>

definition idleHandler :: "unit workflowExecutionEventHandlerImpl" where
  "idleHandler = \<lparr>pendingLaTasks = [], unstartedLaTasks = [], workflowState = ()\<rparr>"

definition idleExternals :: "unit externals" where
  "idleExternals =
     \<lparr>names = \<lparr>versionMarkerName = ''Version'',
                mutableSideEffectMarkerName = ''MutableSideEffect'',
                localActivityMarkerName = ''LocalActivity''\<rparr>,
      newWorkflowExecutionEventHandler = (\<lambda>_. idleHandler),
      ProcessEvent = (\<lambda>evh _ _ _. (evh, None, None)),
      ProcessQuery = (\<lambda>_ _ _. ([], None)),
      getDecisions = (\<lambda>evh. ([], evh)),
      errorText = (\<lambda>_. ''error''),
      encodeText = (\<lambda>_. []),
      otherErrorDetails = (\<lambda>_. (''cadenceInternal:Generic'', []))\<rparr>"

definition exampleHandler :: "bool \<Rightarrow> NonDeterministicWorkflowPolicy \<Rightarrow> workflowTaskHandlerImpl"
  where
  "exampleHandler noSticky policy =
     \<lparr>domain = ''dom'', ppMgr = None, identity = ''worker'', enableLoggingInReplay = False,
      disableStickyExecution = noSticky, wth_laTunnel = Some 0,
      nonDeterministicWorkflowPolicy = policy\<rparr>"

definition exampleInfo :: WorkflowInfo where
  "exampleInfo =
     \<lparr>WorkflowExecution = \<lparr>ID = ''wf'', RunID = ''run''\<rparr>, WorkflowTypeName = ''W'',
      TaskListName = ''tl'', ExecutionStartToCloseTimeoutSeconds = 10,
      TaskStartToCloseTimeoutSeconds = 10, wi_Domain = ''dom'', Attempt = 0\<rparr>"

text \<open>
  A live context of run \<open>run\<close>, holding its mutex, that has processed the decision task
  started at event 5.
\<close>

definition exampleContext :: "unit workflowExecutionContextImpl" where
  "exampleContext =
     \<lparr>mutex = True, workflowStartTime = 0, workflowInfo = exampleInfo,
      wth = exampleHandler False NonDeterministicWorkflowPolicyFailWorkflow,
      eventHandler = Some idleHandler, isWorkflowCompleted = False, result = [], err = None,
      previousStartedEventID = 5, newDecisions = [], currentDecisionTask = None,
      laTunnel = Some 0, decisionStartTime = 0\<rparr>"

definition emptyTunnels :: tunnels where
  "emptyTunnels = (\<lambda>_. \<lparr>taskCh = [], resultCh = []\<rparr>)"

section \<open>Auxiliary notions for the properties of task processing\<close>

text \<open>
  What the replay of events never changes in a context: the last started event id, the
  current task, the task handler, the workflow info, the tunnel and the mutex; and a
  context with an event handler keeps one.
\<close>

definition sameFrame ::
  "'st workflowExecutionContextImpl \<Rightarrow> 'st workflowExecutionContextImpl \<Rightarrow> bool" where
  "sameFrame w w' =
     (previousStartedEventID w' = previousStartedEventID w
      \<and> currentDecisionTask w' = currentDecisionTask w
      \<and> wth w' = wth w
      \<and> workflowInfo w' = workflowInfo w
      \<and> laTunnel w' = laTunnel w
      \<and> mutex w' = mutex w
      \<and> (eventHandler w \<noteq> None \<longrightarrow> eventHandler w' \<noteq> None))"



text \<open>
  The first event of a run with its attribute block, the history of a run whose first
  decision scheduled activity 1, and the second decision task of that run.
\<close>

definition startedEvent :: HistoryEvent where
  "startedEvent =
     \<lparr>EventId = 1, Timestamp = 0, EventType = EventTypeWorkflowExecutionStarted,
      Attributes = WorkflowExecutionStartedAttrs
        \<lparr>wes_TaskList = Some ''tl'', wes_ExecutionStartToCloseTimeoutSeconds = 10,
         wes_TaskStartToCloseTimeoutSeconds = 10, wes_Attempt = 0\<rparr>\<rparr>"

definition history_activity :: "HistoryEvent list" where
  "history_activity =
     [startedEvent, mkEvent 2 EventTypeDecisionTaskScheduled,
      mkEvent 3 EventTypeDecisionTaskStarted, mkEvent 4 EventTypeDecisionTaskCompleted,
      activityScheduledEvent 5 ''1'' ''a.b.Foo'', mkEvent 6 EventTypeDecisionTaskScheduled,
      mkEvent 7 EventTypeDecisionTaskStarted]"

definition decisionTask :: PollForDecisionTaskResponse where
  "decisionTask = (mkTask history_activity)\<lparr>PreviousStartedEventId := 3, StartedEventId := 7\<rparr>"

definition freshContext ::
  "NonDeterministicWorkflowPolicy \<Rightarrow> unit workflowExecutionContextImpl" where
  "freshContext policy =
     exampleContext\<lparr>previousStartedEventID := 0, wth := exampleHandler False policy\<rparr>"

definition nondeterministicFailure :: Decision where
  "nondeterministicFailure =
     \<lparr>DecisionType = DecisionTypeFailWorkflowExecution,
      DecisionAttrs = FailWorkflowExecutionAttrs
        \<lparr>fwd_Reason = ''nondeterministic workflow'', fwd_Details = []\<rparr>\<rparr>"



text \<open>A process whose sticky cache has been created and holds no entry.\<close>

definition emptyWorld :: "unit world" where
  "emptyWorld =
     \<lparr>contexts = Map.empty, nextRef = 0, stickyCache = Map.empty, cacheCreated = True\<rparr>"

text \<open>
  A task handler that has no tunnel, as the one \<^verbatim>\<open>ReplayHistory\<close> creates without
  starting a worker, and the context of run \<open>run\<close> it leaves in the cache after a first
  decision task: live, unlocked and without a tunnel.
\<close>

definition replayHandler :: workflowTaskHandlerImpl where
  "replayHandler =
     (exampleHandler False NonDeterministicWorkflowPolicyFailWorkflow)\<lparr>wth_laTunnel := None\<rparr>"

definition replayContext :: "unit workflowExecutionContextImpl" where
  "replayContext =
     exampleContext\<lparr>mutex := False, wth := replayHandler, previousStartedEventID := 0,
                    laTunnel := None\<rparr>"

definition firstDecisionTask :: PollForDecisionTaskResponse where
  "firstDecisionTask =
     (mkTask [startedEvent, mkEvent 2 EventTypeDecisionTaskScheduled,
              mkEvent 3 EventTypeDecisionTaskStarted])\<lparr>StartedEventId := 3\<rparr>"

section \<open>Auxiliary notions for the properties of the heartbeat invoker\<close>

text \<open>
  Eighty percent of a timeout given in seconds, read literally, in nanoseconds. It is
  used only to compare with the duration the code gives the timer.
\<close>

definition eightyPercentOf :: "int32 \<Rightarrow> int" where
  "eightyPercentOf seconds = (sint seconds * Second * 8) div 10"

definition exampleInvoker :: "int32 \<Rightarrow> cadenceInvoker" where
  "exampleInvoker timeout =
     \<lparr>inv_identity = ''worker'', taskToken = [], heartBeatTimeoutInSec = timeout,
      hbBatchEndTimer = None, lastDetailsToReport = None\<rparr>"

definition acceptingService :: heartbeatService where
  "acceptingService = (\<lambda>_. (Some False, None))"

definition noEffects :: activityEffects where
  "noEffects = \<lparr>requestsSent = [], cancelHandlerCalls = 0\<rparr>"

section \<open>Properties of the history reorderer\<close>

lemma newHistory_mkHistory:
  "newHistory \<lparr>task = mkTask es, historyIterator = None\<rparr> = Inr (mkHistory es)"
  by (simp add: newHistory_def mkHistory_def mkTask_def)

lemma nextDecisionFailedFrom_append:
  "nextDecisionFailedFrom xs \<Longrightarrow> nextDecisionFailedFrom (xs @ ys)"
  by (induction xs) (auto split: EventType.splits)

lemma completed_not_failed:
  "nextDecisionCompletedFrom xs \<Longrightarrow> \<not> nextDecisionFailedFrom xs"
  by (induction xs) (auto split: EventType.splits)

lemma post_refl:
  "currentIndex eh \<le> length (loadedEvents eh) \<Longrightarrow> orderEvents_post eh ne mk eh ne mk"
  by (simp add: orderEvents_post_def)

lemma post_started:
  assumes "currentIndex eh < length (loadedEvents eh)"
    and "EventType (loadedEvents eh ! currentIndex eh) = EventTypeDecisionTaskStarted"
    and "\<not> IsNextDecisionFailed eh"
  shows "orderEvents_post eh ne mk (eh\<lparr>currentIndex := currentIndex eh + 1\<rparr>)
           (ne @ [loadedEvents eh ! currentIndex eh]) mk"
  using assms
  by (auto simp: orderEvents_post_def emittedAt_def IsNextDecisionFailed_def
      isPreloadMarkerEvent_def)

lemma post_fetched:
  "orderEvents_post eh ne mk eh' evs mks \<Longrightarrow>
   \<exists>fetched. loadedEvents eh' = loadedEvents eh @ fetched"
  by (auto simp add: orderEvents_post_def)

lemma post_load:
  assumes post: "orderEvents_post (eh1\<lparr>loadedEvents := loadedEvents eh1 @ es\<rparr>) ne mk eh' evs mks"
    and same: "loadedEvents eh1 = loadedEvents eh" "currentIndex eh1 = currentIndex eh"
    and more: "hasMoreEvents eh"
  shows "orderEvents_post eh ne mk eh' evs mks"
proof -
  from post_fetched [OF post]
  obtain fetched where "loadedEvents eh' = (loadedEvents eh1 @ es) @ fetched"
    by auto
  then have "\<exists>fetched. loadedEvents eh' = loadedEvents eh @ fetched
               \<and> (\<not> hasMoreEvents eh \<longrightarrow> fetched = [])"
    using same more by simp
  with post same show ?thesis
    unfolding orderEvents_post_def by simp
qed

lemma hasMoreEvents_currentIndex [simp]:
  "hasMoreEvents (eh\<lparr>currentIndex := n\<rparr>) = hasMoreEvents eh"
  by (simp add: hasMoreEvents_def)

lemma post_step:
  assumes post: "orderEvents_post (eh\<lparr>currentIndex := currentIndex eh + 1\<rparr>) ne2 mk2 eh' evs mks"
    and lt: "currentIndex eh < length (loadedEvents eh)"
    and ne2: "ne2 = (if emittedAt (loadedEvents eh') (currentIndex eh)
                     then ne @ [loadedEvents eh ! currentIndex eh] else ne)"
    and mk2: "mk2 = (if emittedAt (loadedEvents eh') (currentIndex eh)
                        \<and> isPreloadMarkerEvent (loadedEvents eh ! currentIndex eh)
                     then mk @ [loadedEvents eh ! currentIndex eh] else mk)"
    and st: "EventType (loadedEvents eh ! currentIndex eh) = EventTypeDecisionTaskStarted
             \<Longrightarrow> IsNextDecisionFailed eh"
  shows "orderEvents_post eh ne mk eh' evs mks"
proof -
  let ?i = "currentIndex eh" and ?L = "loadedEvents eh'"
  from post have p1: "\<exists>fetched. ?L = loadedEvents eh @ fetched
                         \<and> (\<not> hasMoreEvents eh \<longrightarrow> fetched = [])"
    and le: "Suc ?i \<le> currentIndex eh'" and n: "currentIndex eh' \<le> length ?L"
    and evs: "evs = ne2 @ map ((!) ?L) (filter (emittedAt ?L) [Suc ?i..<currentIndex eh'])"
    and mks: "mks = mk2 @ filter isPreloadMarkerEvent
                 (map ((!) ?L) (filter (emittedAt ?L) [Suc ?i..<currentIndex eh']))"
    and tm: "\<forall>j. Suc ?i \<le> j \<and> j < currentIndex eh'
          \<and> EventType (?L ! j) = EventTypeDecisionTaskStarted
          \<and> \<not> nextDecisionFailedFrom (drop j ?L) \<longrightarrow> Suc j = currentIndex eh'"
    unfolding orderEvents_post_def by simp_all
  from p1 obtain fetched where L: "?L = loadedEvents eh @ fetched" by blast
  have nth: "?L ! ?i = loadedEvents eh ! ?i"
    using L lt by (simp add: nth_append)
  have upt: "[?i..<currentIndex eh'] = ?i # [Suc ?i..<currentIndex eh']"
    using le by (simp add: upt_conv_Cons)
  have evs': "evs = ne @ map ((!) ?L) (filter (emittedAt ?L) [?i..<currentIndex eh'])"
    using evs ne2 nth upt by simp
  have mks': "mks = mk @ filter isPreloadMarkerEvent
                 (map ((!) ?L) (filter (emittedAt ?L) [?i..<currentIndex eh']))"
    using mks mk2 nth upt by simp
  have failed: "EventType (?L ! ?i) = EventTypeDecisionTaskStarted
                \<Longrightarrow> nextDecisionFailedFrom (drop ?i ?L)"
    using st nth L lt
    by (simp add: IsNextDecisionFailed_def nextDecisionFailedFrom_append)
  have tm': "\<And>j. ?i \<le> j \<Longrightarrow> j < currentIndex eh'
          \<Longrightarrow> EventType (?L ! j) = EventTypeDecisionTaskStarted
          \<Longrightarrow> \<not> nextDecisionFailedFrom (drop j ?L) \<Longrightarrow> Suc j = currentIndex eh'"
  proof -
    fix j assume j: "?i \<le> j" "j < currentIndex eh'"
      "EventType (?L ! j) = EventTypeDecisionTaskStarted"
      "\<not> nextDecisionFailedFrom (drop j ?L)"
    show "Suc j = currentIndex eh'"
    proof (cases "j = ?i")
      case True with j failed show ?thesis by simp
    next
      case False with j tm show ?thesis by simp
    qed
  qed
  have "?i \<le> currentIndex eh'" using le by simp
  moreover note p1 n evs' mks'
  moreover have "\<forall>j. ?i \<le> j \<and> j < currentIndex eh'
          \<and> EventType (?L ! j) = EventTypeDecisionTaskStarted
          \<and> \<not> nextDecisionFailedFrom (drop j ?L) \<longrightarrow> Suc j = currentIndex eh'"
    using tm' by blast
  ultimately show ?thesis
    unfolding orderEvents_post_def by blast
qed

lemma orderEvents_char:
  "orderEvents eh ne mk = Inr (eh', evs, mks, er) \<Longrightarrow> orderEvents_post eh ne mk eh' evs mks"
proof (induction eh ne mk rule: orderEvents.induct)
  case (1 eh ne mk)
  note eq = "1.prems"
  show ?case
  proof (cases "currentIndex eh = length (loadedEvents eh)")
    case atEnd: True
    show ?thesis
    proof (cases "hasMoreEvents eh")
      case False
      with atEnd eq show ?thesis
        by (simp add: orderEvents.simps [of eh] post_refl)
    next
      case more: True
      show ?thesis
      proof (cases "getMoreEvents eh")
        case (Inl p)
        with atEnd more eq show ?thesis by (simp add: orderEvents.simps [of eh])
      next
        case (Inr x)
        obtain r eh1 where x: "x = (r, eh1)" by (cases x)
        note same = getMoreEvents_unreadPages(2,3) [OF more Inr [unfolded x]]
        show ?thesis
        proof (cases r)
          case (Inl e)
          with atEnd more eq Inr x have "eh' = eh1" "evs = ne" "mks = mk"
            by (simp_all add: orderEvents.simps [of eh])
          with same atEnd show ?thesis by (simp add: orderEvents_post_def)
        next
          case page: (Inr historyPage)
          with atEnd more eq Inr x
          have "orderEvents (eh1\<lparr>loadedEvents := loadedEvents eh1 @ Events historyPage\<rparr>) ne mk
                = Inr (eh', evs, mks, er)"
            by (simp add: orderEvents.simps [of eh])
          from "1.IH"(1) [OF atEnd _ Inr x [symmetric] page this] more
          have "orderEvents_post (eh1\<lparr>loadedEvents := loadedEvents eh1 @ Events historyPage\<rparr>)
                  ne mk eh' evs mks" by simp
          then show ?thesis using same more by (rule post_load)
        qed
      qed
    qed
  next
    case notEnd: False
    show ?thesis
    proof (cases "length (loadedEvents eh) < currentIndex eh")
      case True
      with notEnd eq show ?thesis by (simp add: orderEvents.simps [of eh])
    next
      case False
      with notEnd have lt: "currentIndex eh < length (loadedEvents eh)" by simp
      let ?e = "loadedEvents eh ! currentIndex eh"
      show ?thesis
      proof (cases "EventType ?e = EventTypeDecisionTaskStarted")
        case started: True
        show ?thesis
        proof (cases "IsNextDecisionFailed eh")
          case False
          with notEnd lt started eq
          have "eh' = eh\<lparr>currentIndex := currentIndex eh + 1\<rparr>" "evs = ne @ [?e]" "mks = mk"
            by (simp_all add: orderEvents.simps [of eh])
          with post_started [OF lt started False] show ?thesis by simp
        next
          case failed: True
          with notEnd lt started eq
          have rec: "orderEvents (eh\<lparr>currentIndex := currentIndex eh + 1\<rparr>) ne mk
                     = Inr (eh', evs, mks, er)"
            by (simp add: orderEvents.simps [of eh])
          have post: "orderEvents_post (eh\<lparr>currentIndex := currentIndex eh + 1\<rparr>) ne mk
                        eh' evs mks"
            using "1.IH"(2) [OF notEnd _ refl started _ rec] lt failed by simp
          from post_fetched [OF post]
          obtain fetched where L: "loadedEvents eh' = loadedEvents eh @ fetched"
            by auto
          have "\<not> emittedAt (loadedEvents eh') (currentIndex eh)"
            using L lt started failed
            by (simp add: emittedAt_def nth_append IsNextDecisionFailed_def
                nextDecisionFailedFrom_append)
          with failed show ?thesis
            by (intro post_step [OF post lt]) simp_all
        qed
      next
        case notStarted: False
        show ?thesis
        proof (cases "EventType ?e \<in> {EventTypeDecisionTaskCompleted,
                   EventTypeDecisionTaskScheduled, EventTypeDecisionTaskTimedOut,
                   EventTypeDecisionTaskFailed}")
          case skip: True
          with notEnd lt notStarted eq
          have rec: "orderEvents (eh\<lparr>currentIndex := currentIndex eh + 1\<rparr>) ne mk
                     = Inr (eh', evs, mks, er)"
            by (simp add: orderEvents.simps [of eh])
          have post: "orderEvents_post (eh\<lparr>currentIndex := currentIndex eh + 1\<rparr>) ne mk
                        eh' evs mks"
            using "1.IH"(3) [OF notEnd _ refl notStarted skip rec] lt by simp
          from post_fetched [OF post]
          obtain fetched where L: "loadedEvents eh' = loadedEvents eh @ fetched"
            by auto
          have "\<not> emittedAt (loadedEvents eh') (currentIndex eh)"
            using L lt skip by (auto simp add: emittedAt_def nth_append)
          with notStarted show ?thesis
            by (intro post_step [OF post lt]) simp_all
        next
          case emit: False
          let ?mk = "if isPreloadMarkerEvent ?e then mk @ [?e] else mk"
          from emit notEnd lt notStarted eq
          have rec: "orderEvents (eh\<lparr>currentIndex := currentIndex eh + 1\<rparr>) (ne @ [?e]) ?mk
                     = Inr (eh', evs, mks, er)"
            by (simp add: orderEvents.simps [of eh] Let_def)
          have post: "orderEvents_post (eh\<lparr>currentIndex := currentIndex eh + 1\<rparr>)
                        (ne @ [?e]) ?mk eh' evs mks"
            using "1.IH"(4) [OF notEnd _ refl notStarted emit rec] lt by simp
          from post_fetched [OF post]
          obtain fetched where L: "loadedEvents eh' = loadedEvents eh @ fetched"
            by auto
          have "emittedAt (loadedEvents eh') (currentIndex eh)"
            using L lt emit notStarted by (auto simp add: emittedAt_def nth_append)
          with notStarted show ?thesis
            by (intro post_step [OF post lt]) simp_all
        qed
      qed
    qed
  qed
qed

lemma upt_filter_last:
  assumes "i \<le> j" and "P j"
  shows "filter P [i..<Suc j] = filter P [i..<j] @ [j]"
  using assms by simp

lemma hasMoreEvents_unreadOf: "hasMoreEvents eh \<longleftrightarrow> unreadOf eh \<noteq> []"
  by (simp add: hasMoreEvents_def unreadOf_def HasNextPage_def split: option.splits)

lemma unreadOf_currentIndex [simp]: "unreadOf (eh\<lparr>currentIndex := n\<rparr>) = unreadOf eh"
  by (simp add: unreadOf_def)

lemma unreadOf_loadedEvents [simp]: "unreadOf (eh\<lparr>loadedEvents := es\<rparr>) = unreadOf eh"
  by (simp add: unreadOf_def)

lemma getMoreEvents_unreadOf:
  assumes "hasMoreEvents eh" and "getMoreEvents eh = Inr (r, eh1)"
  shows "unreadOf eh = r # unreadOf eh1"
    and "task (workflowTask eh1) = task (workflowTask eh)"
    and "nextBatch eh1 = nextBatch eh"
  using assms
  by (auto simp: hasMoreEvents_def getMoreEvents_def unreadOf_def HasNextPage_def
      GetNextPage_def split: option.splits list.splits)

lemma read_stop:
  assumes "currentIndex eh = length (loadedEvents eh)" and "\<not> hasMoreEvents eh"
  shows "orderEvents_read eh eh None []"
  using assms by (simp add: orderEvents_read_def hasMoreEvents_unreadOf)

lemma read_error:
  assumes "currentIndex eh = length (loadedEvents eh)" and "hasMoreEvents eh"
    and "getMoreEvents eh = Inr (Inl e, eh1)"
  shows "orderEvents_read eh eh1 (Some e) []"
  using assms getMoreEvents_unreadOf [OF assms(2,3)] getMoreEvents_unreadPages(2,3) [OF assms(2,3)]
  by (simp add: orderEvents_read_def)

lemma read_started:
  assumes "currentIndex eh < length (loadedEvents eh)"
    and "EventType (loadedEvents eh ! currentIndex eh) = EventTypeDecisionTaskStarted"
    and "\<not> IsNextDecisionFailed eh"
  shows "orderEvents_read eh (eh\<lparr>currentIndex := currentIndex eh + 1\<rparr>) None []"
  using assms by (simp add: orderEvents_read_def IsNextDecisionFailed_def)

lemma read_page:
  assumes rd: "orderEvents_read (eh1\<lparr>loadedEvents := loadedEvents eh1 @ Events p\<rparr>) eh' er hs"
    and atEnd: "currentIndex eh = length (loadedEvents eh)"
    and more: "hasMoreEvents eh"
    and get: "getMoreEvents eh = Inr (Inr p, eh1)"
  shows "orderEvents_read eh eh' er (p # hs)"
proof -
  note u = getMoreEvents_unreadOf [OF more get]
  note same = getMoreEvents_unreadPages(2,3) [OF more get]
  let ?eh2 = "eh1\<lparr>loadedEvents := loadedEvents eh1 @ Events p\<rparr>"
  from rd have r1: "unreadOf ?eh2 = map Inr hs @ (case er of None \<Rightarrow> [] | Some e \<Rightarrow> [Inl e])
                      @ unreadOf eh'"
    and r2: "loadedEvents eh' = loadedEvents ?eh2 @ concat (map Events hs)"
    and r3: "task (workflowTask eh') = task (workflowTask ?eh2)"
    and r4: "nextBatch eh' = nextBatch ?eh2"
    and r5: "currentIndex ?eh2 \<le> currentIndex eh'"
    and r6: "\<forall>k < length hs.
         length (loadedEvents ?eh2 @ concat (map Events (take k hs))) \<le> currentIndex eh'
         \<and> (\<forall>j. currentIndex ?eh2 \<le> j
                \<and> j < length (loadedEvents ?eh2 @ concat (map Events (take k hs)))
                \<and> EventType ((loadedEvents ?eh2 @ concat (map Events (take k hs))) ! j)
                    = EventTypeDecisionTaskStarted \<longrightarrow>
                nextDecisionFailedFrom
                  (drop j (loadedEvents ?eh2 @ concat (map Events (take k hs)))))"
    and r7: "er \<noteq> None \<longrightarrow>
        currentIndex eh' = length (loadedEvents eh')
        \<and> (\<forall>j. currentIndex ?eh2 \<le> j \<and> j < currentIndex eh'
               \<and> EventType (loadedEvents eh' ! j) = EventTypeDecisionTaskStarted \<longrightarrow>
               nextDecisionFailedFrom (drop j (loadedEvents eh')))"
    and r8: "er = None \<longrightarrow>
        (\<exists>j. currentIndex ?eh2 \<le> j \<and> Suc j = currentIndex eh' \<and> j < length (loadedEvents eh')
            \<and> EventType (loadedEvents eh' ! j) = EventTypeDecisionTaskStarted
            \<and> \<not> nextDecisionFailedFrom (drop j (loadedEvents eh')))
        \<or> (currentIndex eh' = length (loadedEvents eh') \<and> unreadOf eh' = [])"
    unfolding orderEvents_read_def by blast+
  have a1: "unreadOf eh = map Inr (p # hs) @ (case er of None \<Rightarrow> [] | Some e \<Rightarrow> [Inl e])
                      @ unreadOf eh'"
    using r1 u(1) by simp
  have a2: "loadedEvents eh' = loadedEvents eh @ concat (map Events (p # hs))"
    using r2 same by simp
  have a3: "task (workflowTask eh') = task (workflowTask eh)" using r3 u(2) by simp
  have a4: "nextBatch eh' = nextBatch eh" using r4 u(3) by simp
  have a5: "currentIndex eh \<le> currentIndex eh'" using r5 same by simp
  have a6: "length (loadedEvents eh @ concat (map Events (take k (p # hs)))) \<le> currentIndex eh'
         \<and> (\<forall>j. currentIndex eh \<le> j
                \<and> j < length (loadedEvents eh @ concat (map Events (take k (p # hs))))
                \<and> EventType ((loadedEvents eh @ concat (map Events (take k (p # hs)))) ! j)
                    = EventTypeDecisionTaskStarted \<longrightarrow>
                nextDecisionFailedFrom
                  (drop j (loadedEvents eh @ concat (map Events (take k (p # hs))))))"
    if k: "k < length (p # hs)" for k
  proof (cases k)
    case 0
    with a5 atEnd show ?thesis by simp
  next
    case (Suc k')
    with k have "k' < length hs" by simp
    with r6 have "length (loadedEvents ?eh2 @ concat (map Events (take k' hs))) \<le> currentIndex eh'
         \<and> (\<forall>j. currentIndex ?eh2 \<le> j
                \<and> j < length (loadedEvents ?eh2 @ concat (map Events (take k' hs)))
                \<and> EventType ((loadedEvents ?eh2 @ concat (map Events (take k' hs))) ! j)
                    = EventTypeDecisionTaskStarted \<longrightarrow>
                nextDecisionFailedFrom
                  (drop j (loadedEvents ?eh2 @ concat (map Events (take k' hs)))))"
      by blast
    with Suc same show ?thesis by simp
  qed
  have a7: "er \<noteq> None \<longrightarrow>
        currentIndex eh' = length (loadedEvents eh')
        \<and> (\<forall>j. currentIndex eh \<le> j \<and> j < currentIndex eh'
               \<and> EventType (loadedEvents eh' ! j) = EventTypeDecisionTaskStarted \<longrightarrow>
               nextDecisionFailedFrom (drop j (loadedEvents eh')))"
    using r7 same by simp
  have a8: "er = None \<longrightarrow>
        (\<exists>j. currentIndex eh \<le> j \<and> Suc j = currentIndex eh' \<and> j < length (loadedEvents eh')
            \<and> EventType (loadedEvents eh' ! j) = EventTypeDecisionTaskStarted
            \<and> \<not> nextDecisionFailedFrom (drop j (loadedEvents eh')))
        \<or> (currentIndex eh' = length (loadedEvents eh') \<and> unreadOf eh' = [])"
    using r8 same by simp
  from a1 a2 a3 a4 a5 a6 a7 a8 show ?thesis
    unfolding orderEvents_read_def by blast
qed

lemma read_step:
  assumes rd: "orderEvents_read (eh\<lparr>currentIndex := currentIndex eh + 1\<rparr>) eh' er hs"
    and lt: "currentIndex eh < length (loadedEvents eh)"
    and st: "EventType (loadedEvents eh ! currentIndex eh) = EventTypeDecisionTaskStarted
             \<Longrightarrow> IsNextDecisionFailed eh"
  shows "orderEvents_read eh eh' er hs"
proof -
  let ?eh2 = "eh\<lparr>currentIndex := currentIndex eh + 1\<rparr>"
  let ?i = "currentIndex eh"
  from rd have r1: "unreadOf ?eh2 = map Inr hs @ (case er of None \<Rightarrow> [] | Some e \<Rightarrow> [Inl e])
                      @ unreadOf eh'"
    and r2: "loadedEvents eh' = loadedEvents ?eh2 @ concat (map Events hs)"
    and r3: "task (workflowTask eh') = task (workflowTask ?eh2)"
    and r4: "nextBatch eh' = nextBatch ?eh2"
    and r5: "currentIndex ?eh2 \<le> currentIndex eh'"
    and r6: "\<forall>k < length hs.
         length (loadedEvents ?eh2 @ concat (map Events (take k hs))) \<le> currentIndex eh'
         \<and> (\<forall>j. currentIndex ?eh2 \<le> j
                \<and> j < length (loadedEvents ?eh2 @ concat (map Events (take k hs)))
                \<and> EventType ((loadedEvents ?eh2 @ concat (map Events (take k hs))) ! j)
                    = EventTypeDecisionTaskStarted \<longrightarrow>
                nextDecisionFailedFrom
                  (drop j (loadedEvents ?eh2 @ concat (map Events (take k hs)))))"
    and r7: "er \<noteq> None \<longrightarrow>
        currentIndex eh' = length (loadedEvents eh')
        \<and> (\<forall>j. currentIndex ?eh2 \<le> j \<and> j < currentIndex eh'
               \<and> EventType (loadedEvents eh' ! j) = EventTypeDecisionTaskStarted \<longrightarrow>
               nextDecisionFailedFrom (drop j (loadedEvents eh')))"
    and r8: "er = None \<longrightarrow>
        (\<exists>j. currentIndex ?eh2 \<le> j \<and> Suc j = currentIndex eh' \<and> j < length (loadedEvents eh')
            \<and> EventType (loadedEvents eh' ! j) = EventTypeDecisionTaskStarted
            \<and> \<not> nextDecisionFailedFrom (drop j (loadedEvents eh')))
        \<or> (currentIndex eh' = length (loadedEvents eh') \<and> unreadOf eh' = [])"
    unfolding orderEvents_read_def by blast+
  have a1: "unreadOf eh = map Inr hs @ (case er of None \<Rightarrow> [] | Some e \<Rightarrow> [Inl e])
                      @ unreadOf eh'"
    using r1 by simp
  have a2: "loadedEvents eh' = loadedEvents eh @ concat (map Events hs)" using r2 by simp
  have a3: "task (workflowTask eh') = task (workflowTask eh)" using r3 by simp
  have a4: "nextBatch eh' = nextBatch eh" using r4 by simp
  have a5: "?i \<le> currentIndex eh'" using r5 by simp
  have a6: "length (loadedEvents eh @ concat (map Events (take k hs))) \<le> currentIndex eh'
         \<and> (\<forall>j. ?i \<le> j
                \<and> j < length (loadedEvents eh @ concat (map Events (take k hs)))
                \<and> EventType ((loadedEvents eh @ concat (map Events (take k hs))) ! j)
                    = EventTypeDecisionTaskStarted \<longrightarrow>
                nextDecisionFailedFrom
                  (drop j (loadedEvents eh @ concat (map Events (take k hs)))))"
    if k: "k < length hs" for k
  proof -
    let ?Lk = "loadedEvents eh @ concat (map Events (take k hs))"
    from r6 k have len: "length ?Lk \<le> currentIndex eh'"
      and old: "\<forall>j. Suc ?i \<le> j \<and> j < length ?Lk
                \<and> EventType (?Lk ! j) = EventTypeDecisionTaskStarted \<longrightarrow>
                nextDecisionFailedFrom (drop j ?Lk)"
      by simp_all
    have "nextDecisionFailedFrom (drop j ?Lk)"
      if j: "?i \<le> j" "j < length ?Lk" "EventType (?Lk ! j) = EventTypeDecisionTaskStarted"
      for j
    proof (cases "j = ?i")
      case True
      with j lt have "EventType (loadedEvents eh ! ?i) = EventTypeDecisionTaskStarted"
        by (simp add: nth_append)
      from st [OF this] have "nextDecisionFailedFrom (drop ?i (loadedEvents eh))"
        by (simp add: IsNextDecisionFailed_def)
      then have "nextDecisionFailedFrom
                   (drop ?i (loadedEvents eh) @ concat (map Events (take k hs)))"
        by (rule nextDecisionFailedFrom_append)
      with True lt show ?thesis by simp
    next
      case False
      with j old show ?thesis by simp
    qed
    with len show ?thesis by blast
  qed
  have a7: "er \<noteq> None \<longrightarrow>
        currentIndex eh' = length (loadedEvents eh')
        \<and> (\<forall>j. ?i \<le> j \<and> j < currentIndex eh'
               \<and> EventType (loadedEvents eh' ! j) = EventTypeDecisionTaskStarted \<longrightarrow>
               nextDecisionFailedFrom (drop j (loadedEvents eh')))"
  proof (intro impI conjI allI)
    assume "er \<noteq> None"
    with r7 show "currentIndex eh' = length (loadedEvents eh')" by simp
  next
    fix j
    assume e: "er \<noteq> None"
      and j: "?i \<le> j \<and> j < currentIndex eh'
               \<and> EventType (loadedEvents eh' ! j) = EventTypeDecisionTaskStarted"
    show "nextDecisionFailedFrom (drop j (loadedEvents eh'))"
    proof (cases "j = ?i")
      case True
      with j lt a2 have "EventType (loadedEvents eh ! ?i) = EventTypeDecisionTaskStarted"
        by (simp add: nth_append)
      from st [OF this] have "nextDecisionFailedFrom (drop ?i (loadedEvents eh))"
        by (simp add: IsNextDecisionFailed_def)
      then have "nextDecisionFailedFrom (drop ?i (loadedEvents eh) @ concat (map Events hs))"
        by (rule nextDecisionFailedFrom_append)
      with True lt a2 show ?thesis by simp
    next
      case False
      with j e r7 show ?thesis by simp
    qed
  qed
  have a8: "er = None \<longrightarrow>
        (\<exists>j. ?i \<le> j \<and> Suc j = currentIndex eh' \<and> j < length (loadedEvents eh')
            \<and> EventType (loadedEvents eh' ! j) = EventTypeDecisionTaskStarted
            \<and> \<not> nextDecisionFailedFrom (drop j (loadedEvents eh')))
        \<or> (currentIndex eh' = length (loadedEvents eh') \<and> unreadOf eh' = [])"
  proof
    assume "er = None"
    with r8 consider
      (a) j where "Suc ?i \<le> j" "Suc j = currentIndex eh'" "j < length (loadedEvents eh')"
        "EventType (loadedEvents eh' ! j) = EventTypeDecisionTaskStarted"
        "\<not> nextDecisionFailedFrom (drop j (loadedEvents eh'))"
      | (b) "currentIndex eh' = length (loadedEvents eh') \<and> unreadOf eh' = []"
      by auto
    then show "(\<exists>j. ?i \<le> j \<and> Suc j = currentIndex eh' \<and> j < length (loadedEvents eh')
            \<and> EventType (loadedEvents eh' ! j) = EventTypeDecisionTaskStarted
            \<and> \<not> nextDecisionFailedFrom (drop j (loadedEvents eh')))
        \<or> (currentIndex eh' = length (loadedEvents eh') \<and> unreadOf eh' = [])"
    proof cases
      case a
      then have "?i \<le> j" by simp
      with a show ?thesis by blast
    next
      case b then show ?thesis by simp
    qed
  qed
  from a1 a2 a3 a4 a5 a6 a7 a8 show ?thesis
    unfolding orderEvents_read_def by blast
qed

lemma orderEvents_read_char:
  "orderEvents eh ne mk = Inr (eh', evs, mks, er) \<Longrightarrow> \<exists>hs. orderEvents_read eh eh' er hs"
proof (induction eh ne mk rule: orderEvents.induct)
  case (1 eh ne mk)
  note eq = "1.prems"
  show ?case
  proof (cases "currentIndex eh = length (loadedEvents eh)")
    case atEnd: True
    show ?thesis
    proof (cases "hasMoreEvents eh")
      case False
      with atEnd eq have "eh' = eh" "er = None"
        by (simp_all add: orderEvents.simps [of eh])
      with read_stop [OF atEnd False] show ?thesis by blast
    next
      case more: True
      show ?thesis
      proof (cases "getMoreEvents eh")
        case (Inl p)
        with atEnd more eq show ?thesis by (simp add: orderEvents.simps [of eh])
      next
        case (Inr x)
        obtain r eh1 where x: "x = (r, eh1)" by (cases x)
        show ?thesis
        proof (cases r)
          case (Inl e)
          with atEnd more eq Inr x have "eh' = eh1" "er = Some e"
            by (simp_all add: orderEvents.simps [of eh])
          moreover from Inr x Inl have "getMoreEvents eh = Inr (Inl e, eh1)" by simp
          from read_error [OF atEnd more this]
          have "orderEvents_read eh eh1 (Some e) []" .
          ultimately show ?thesis by blast
        next
          case page: (Inr historyPage)
          with atEnd more eq Inr x
          have "orderEvents (eh1\<lparr>loadedEvents := loadedEvents eh1 @ Events historyPage\<rparr>) ne mk
                = Inr (eh', evs, mks, er)"
            by (simp add: orderEvents.simps [of eh])
          from "1.IH"(1) [OF atEnd _ Inr x [symmetric] page this] more
          obtain hs where
            "orderEvents_read (eh1\<lparr>loadedEvents := loadedEvents eh1 @ Events historyPage\<rparr>)
               eh' er hs" by auto
          moreover from Inr x page have "getMoreEvents eh = Inr (Inr historyPage, eh1)"
            by simp
          ultimately have "orderEvents_read eh eh' er (historyPage # hs)"
            using atEnd more by (intro read_page)
          then show ?thesis by blast
        qed
      qed
    qed
  next
    case notEnd: False
    show ?thesis
    proof (cases "length (loadedEvents eh) < currentIndex eh")
      case True
      with notEnd eq show ?thesis by (simp add: orderEvents.simps [of eh])
    next
      case False
      with notEnd have lt: "currentIndex eh < length (loadedEvents eh)" by simp
      let ?e = "loadedEvents eh ! currentIndex eh"
      show ?thesis
      proof (cases "EventType ?e = EventTypeDecisionTaskStarted")
        case started: True
        show ?thesis
        proof (cases "IsNextDecisionFailed eh")
          case False
          with notEnd lt started eq
          have "eh' = eh\<lparr>currentIndex := currentIndex eh + 1\<rparr>" "er = None"
            by (simp_all add: orderEvents.simps [of eh])
          with read_started [OF lt started False] show ?thesis by blast
        next
          case failed: True
          with notEnd lt started eq
          have rec: "orderEvents (eh\<lparr>currentIndex := currentIndex eh + 1\<rparr>) ne mk
                     = Inr (eh', evs, mks, er)"
            by (simp add: orderEvents.simps [of eh])
          from "1.IH"(2) [OF notEnd _ refl started _ rec] lt failed
          obtain hs where rd: "orderEvents_read (eh\<lparr>currentIndex := currentIndex eh + 1\<rparr>)
                                 eh' er hs" by auto
          from failed have "orderEvents_read eh eh' er hs"
            by (intro read_step [OF rd lt]) simp
          then show ?thesis by blast
        qed
      next
        case notStarted: False
        show ?thesis
        proof (cases "EventType ?e \<in> {EventTypeDecisionTaskCompleted,
                   EventTypeDecisionTaskScheduled, EventTypeDecisionTaskTimedOut,
                   EventTypeDecisionTaskFailed}")
          case skip: True
          with notEnd lt notStarted eq
          have rec: "orderEvents (eh\<lparr>currentIndex := currentIndex eh + 1\<rparr>) ne mk
                     = Inr (eh', evs, mks, er)"
            by (simp add: orderEvents.simps [of eh])
          from "1.IH"(3) [OF notEnd _ refl notStarted skip rec] lt
          obtain hs where rd: "orderEvents_read (eh\<lparr>currentIndex := currentIndex eh + 1\<rparr>)
                                 eh' er hs" by auto
          from notStarted have "orderEvents_read eh eh' er hs"
            by (intro read_step [OF rd lt]) simp
          then show ?thesis by blast
        next
          case emit: False
          let ?mk = "if isPreloadMarkerEvent ?e then mk @ [?e] else mk"
          from emit notEnd lt notStarted eq
          have rec: "orderEvents (eh\<lparr>currentIndex := currentIndex eh + 1\<rparr>) (ne @ [?e]) ?mk
                     = Inr (eh', evs, mks, er)"
            by (simp add: orderEvents.simps [of eh] Let_def)
          from "1.IH"(4) [OF notEnd _ refl notStarted emit rec] lt
          obtain hs where rd: "orderEvents_read (eh\<lparr>currentIndex := currentIndex eh + 1\<rparr>)
                                 eh' er hs" by auto
          from notStarted have "orderEvents_read eh eh' er hs"
            by (intro read_step [OF rd lt]) simp
          then show ?thesis by blast
        qed
      qed
    qed
  qed
qed

lemma nextDecisionEvents_post:
  assumes "nextDecisionEvents eh = Inr (batch, markers, er, eh')"
  shows "\<exists>eh1. orderEvents_post eh [] [] eh1 (elems batch) markers"
proof (cases "currentIndex eh = length (loadedEvents eh) \<and> \<not> hasMoreEvents eh")
  case True
  with assms have "batch = Some []" "markers = []"
    by (simp_all add: nextDecisionEvents_def)
  moreover have "orderEvents_post eh [] [] eh [] []"
    using True by (simp add: post_refl)
  ultimately show ?thesis by auto
next
  case False
  show ?thesis
  proof (cases "orderEvents eh [] []")
    case (Inl p)
    with False assms show ?thesis
      by (auto simp add: nextDecisionEvents_def split: if_splits)
  next
    case (Inr r)
    obtain eh1 ne mk err1 where r: "r = (eh1, ne, mk, err1)" by (cases r)
    from Inr r have "orderEvents_post eh [] [] eh1 ne mk"
      by (simp add: orderEvents_char)
    moreover from False assms Inr r have "elems batch = ne" "markers = mk"
      by (auto simp add: nextDecisionEvents_def appended_def split: option.splits if_splits)
    ultimately show ?thesis by auto
  qed
qed

lemma nextDecisionEvents_run:
  assumes "nextDecisionEvents eh = Inr (batch, markers, er, eh')"
  shows "\<exists>eh1 hs. orderEvents_post eh [] [] eh1 (elems batch) markers
           \<and> orderEvents_read eh eh1 er hs
           \<and> unreadOf eh' = unreadOf eh1
           \<and> drop (currentIndex eh') (loadedEvents eh')
               = drop (currentIndex eh1) (loadedEvents eh1)"
proof (cases "currentIndex eh = length (loadedEvents eh) \<and> \<not> hasMoreEvents eh")
  case True
  with assms have "batch = Some []" "markers = []" "er = None" "eh' = eh"
    by (simp_all add: nextDecisionEvents_def)
  moreover have "orderEvents_post eh [] [] eh [] []"
    using True by (simp add: post_refl)
  moreover have "orderEvents_read eh eh None []"
    using True by (simp add: read_stop)
  ultimately show ?thesis by auto
next
  case False
  show ?thesis
  proof (cases "orderEvents eh [] []")
    case (Inl p)
    with False assms show ?thesis
      by (auto simp add: nextDecisionEvents_def split: if_splits)
  next
    case (Inr r)
    obtain eh1 ne mk err1 where r: "r = (eh1, ne, mk, err1)" by (cases r)
    from Inr r have post: "orderEvents_post eh [] [] eh1 ne mk"
      by (simp add: orderEvents_char)
    from Inr r obtain hs where rd: "orderEvents_read eh eh1 err1 hs"
      by (auto dest: orderEvents_read_char)
    from False assms Inr r have b: "elems batch = ne" "markers = mk" "er = err1"
      by (auto simp add: nextDecisionEvents_def appended_def split: option.splits if_splits)
    from False assms Inr r have u: "unreadOf eh' = unreadOf eh1"
      by (auto simp add: nextDecisionEvents_def unreadOf_def split: option.splits if_splits)
    from False assms Inr r
    have d: "drop (currentIndex eh') (loadedEvents eh')
               = drop (currentIndex eh1) (loadedEvents eh1)"
      by (auto simp add: nextDecisionEvents_def split: option.splits if_splits)
    from post rd b u d show ?thesis by blast
  qed
qed

text \<open>
  C1 (amended). Every batch of \<open>nextDecisionEvents\<close> is free of \<open>DecisionTaskCompleted\<close>,
  \<open>DecisionTaskScheduled\<close>, \<open>DecisionTaskTimedOut\<close> and \<open>DecisionTaskFailed\<close> events. The
  call reads the pages \<open>hs\<close> from the iterator (then the failed answer, if it returns an
  error) and consumes the events up to position \<open>n\<close> of \<open>L\<close>, the events held at the call
  followed by those of \<open>hs\<close>; what the reorderer holds afterwards is the rest of \<open>L\<close>. A
  page is fetched only when every event loaded before it is consumed, and none of these
  is a \<open>DecisionTaskStarted\<close> whose scan of the events loaded at that moment reports no
  failure or timeout. The call stops with an error only when all of \<open>L\<close> is consumed and
  every consumed \<open>DecisionTaskStarted\<close> has a scan that reports a failure or timeout. It
  stops without error only right behind a \<open>DecisionTaskStarted\<close> whose scan reports no
  failure or timeout, or when all of \<open>L\<close> is consumed and the iterator has no answer
  left; so behind a skipped event the scanning continues. The batch is the subsequence
  of the consumed positions holding an event that is not one of those four and, when it
  is a \<open>DecisionTaskStarted\<close>, whose forward scan does not report a failure or timeout. A
  consumed \<open>DecisionTaskStarted\<close> is the final element of the batch and the last event
  consumed if and only if the forward scan from it does not find a failure or timeout
  before a completion; that holds when a completion comes first and also when the loaded
  events hold no decision outcome after it.
\<close>

theorem nextDecisionEvents_batch:
  assumes "nextDecisionEvents eh = Inr (batch, markers, er, eh')"
  shows "(\<forall>e \<in> set (elems batch).
            EventType e \<notin> {EventTypeDecisionTaskCompleted, EventTypeDecisionTaskScheduled,
               EventTypeDecisionTaskTimedOut, EventTypeDecisionTaskFailed})
    \<and> (\<exists>hs n.
          unreadOf eh = map Inr hs @ (case er of None \<Rightarrow> [] | Some e \<Rightarrow> [Inl e]) @ unreadOf eh'
        \<and> currentIndex eh \<le> n \<and> n \<le> length (loadedWith eh hs)
        \<and> drop (currentIndex eh') (loadedEvents eh') = drop n (loadedWith eh hs)
        \<and> (\<forall>k < length hs.
              length (loadedWith eh (take k hs)) \<le> n
              \<and> (\<forall>j. currentIndex eh \<le> j \<and> j < length (loadedWith eh (take k hs))
                     \<and> EventType (loadedWith eh (take k hs) ! j) = EventTypeDecisionTaskStarted \<longrightarrow>
                     nextDecisionFailedFrom (drop j (loadedWith eh (take k hs)))))
        \<and> (er \<noteq> None \<longrightarrow>
              n = length (loadedWith eh hs)
              \<and> (\<forall>j. currentIndex eh \<le> j \<and> j < n
                     \<and> EventType (loadedWith eh hs ! j) = EventTypeDecisionTaskStarted \<longrightarrow>
                     nextDecisionFailedFrom (drop j (loadedWith eh hs))))
        \<and> (er = None \<longrightarrow>
              (\<exists>j. currentIndex eh \<le> j \<and> Suc j = n
                  \<and> EventType (loadedWith eh hs ! j) = EventTypeDecisionTaskStarted
                  \<and> \<not> nextDecisionFailedFrom (drop j (loadedWith eh hs)))
              \<or> (n = length (loadedWith eh hs) \<and> unreadOf eh' = []))
        \<and> elems batch = map ((!) (loadedWith eh hs))
             (filter (\<lambda>j. EventType (loadedWith eh hs ! j) \<notin>
                            {EventTypeDecisionTaskCompleted, EventTypeDecisionTaskScheduled,
                             EventTypeDecisionTaskTimedOut, EventTypeDecisionTaskFailed}
                        \<and> (EventType (loadedWith eh hs ! j) = EventTypeDecisionTaskStarted \<longrightarrow>
                             \<not> nextDecisionFailedFrom (drop j (loadedWith eh hs))))
                [currentIndex eh..<n])
        \<and> (\<forall>j. currentIndex eh \<le> j \<and> j < n
               \<and> EventType (loadedWith eh hs ! j) = EventTypeDecisionTaskStarted \<longrightarrow>
               ((Suc j = n \<and> elems batch \<noteq> [] \<and> last (elems batch) = loadedWith eh hs ! j)
                 \<longleftrightarrow> \<not> nextDecisionFailedFrom (drop j (loadedWith eh hs))))
        \<and> (\<forall>j. (nextDecisionCompletedFrom (drop j (loadedWith eh hs))
                   \<or> (\<forall>e \<in> set (drop j (loadedWith eh hs)).
                         EventType e \<notin> {EventTypeDecisionTaskCompleted,
                           EventTypeDecisionTaskTimedOut, EventTypeDecisionTaskFailed}))
                 \<longleftrightarrow> \<not> nextDecisionFailedFrom (drop j (loadedWith eh hs))))"
proof -
  from nextDecisionEvents_run [OF assms]
  obtain eh1 hs where post: "orderEvents_post eh [] [] eh1 (elems batch) markers"
    and rd: "orderEvents_read eh eh1 er hs"
    and u: "unreadOf eh' = unreadOf eh1"
    and d: "drop (currentIndex eh') (loadedEvents eh')
               = drop (currentIndex eh1) (loadedEvents eh1)"
    by blast
  let ?L = "loadedEvents eh1" and ?n = "currentIndex eh1" and ?i = "currentIndex eh"
  let ?evs = "elems batch"
  from rd have L: "?L = loadedWith eh hs"
    and r1: "unreadOf eh = map Inr hs @ (case er of None \<Rightarrow> [] | Some e \<Rightarrow> [Inl e])
               @ unreadOf eh1"
    and r6: "\<forall>k < length hs.
         length (loadedEvents eh @ concat (map Events (take k hs))) \<le> ?n
         \<and> (\<forall>j. ?i \<le> j
                \<and> j < length (loadedEvents eh @ concat (map Events (take k hs)))
                \<and> EventType ((loadedEvents eh @ concat (map Events (take k hs))) ! j)
                    = EventTypeDecisionTaskStarted \<longrightarrow>
                nextDecisionFailedFrom
                  (drop j (loadedEvents eh @ concat (map Events (take k hs)))))"
    and r7: "er \<noteq> None \<longrightarrow>
        ?n = length ?L
        \<and> (\<forall>j. ?i \<le> j \<and> j < ?n
               \<and> EventType (?L ! j) = EventTypeDecisionTaskStarted \<longrightarrow>
               nextDecisionFailedFrom (drop j ?L))"
    and r8: "er = None \<longrightarrow>
        (\<exists>j. ?i \<le> j \<and> Suc j = ?n \<and> j < length ?L
            \<and> EventType (?L ! j) = EventTypeDecisionTaskStarted
            \<and> \<not> nextDecisionFailedFrom (drop j ?L))
        \<or> (?n = length ?L \<and> unreadOf eh1 = [])"
    unfolding orderEvents_read_def loadedWith_def by blast+
  from post have le: "?i \<le> ?n" and n: "?n \<le> length ?L"
    and evs: "?evs = map ((!) ?L) (filter (emittedAt ?L) [?i..<?n])"
    and tm: "\<forall>j. ?i \<le> j \<and> j < ?n \<and> EventType (?L ! j) = EventTypeDecisionTaskStarted
          \<and> \<not> nextDecisionFailedFrom (drop j ?L) \<longrightarrow> Suc j = ?n"
    unfolding orderEvents_post_def by simp_all
  have skip: "\<forall>e \<in> set ?evs.
            EventType e \<notin> {EventTypeDecisionTaskCompleted, EventTypeDecisionTaskScheduled,
               EventTypeDecisionTaskTimedOut, EventTypeDecisionTaskFailed}"
    unfolding evs by (auto simp: emittedAt_def)
  have started: "((Suc j = ?n \<and> ?evs \<noteq> [] \<and> last ?evs = ?L ! j)
                  \<longleftrightarrow> \<not> nextDecisionFailedFrom (drop j ?L))"
    if j: "?i \<le> j" "j < ?n" "EventType (?L ! j) = EventTypeDecisionTaskStarted" for j
  proof
    assume nf: "\<not> nextDecisionFailedFrom (drop j ?L)"
    with j tm have sj: "Suc j = ?n" by blast
    have em: "emittedAt ?L j" using j nf by (simp add: emittedAt_def)
    have "filter (emittedAt ?L) [?i..<Suc j] = filter (emittedAt ?L) [?i..<j] @ [j]"
      using j(1) em by (rule upt_filter_last)
    with evs sj have "?evs = map ((!) ?L) (filter (emittedAt ?L) [?i..<j]) @ [?L ! j]"
      by simp
    with sj show "Suc j = ?n \<and> ?evs \<noteq> [] \<and> last ?evs = ?L ! j" by simp
  next
    assume a: "Suc j = ?n \<and> ?evs \<noteq> [] \<and> last ?evs = ?L ! j"
    show "\<not> nextDecisionFailedFrom (drop j ?L)"
    proof
      assume f: "nextDecisionFailedFrom (drop j ?L)"
      from a have "?evs \<noteq> []" by simp
      then have "last ?evs \<in> set ?evs" by (rule last_in_set)
      with evs obtain k where k: "?i \<le> k" "k < ?n" "emittedAt ?L k" "last ?evs = ?L ! k"
        by auto
      with a j have ty: "EventType (?L ! k) = EventTypeDecisionTaskStarted" by simp
      with k have "\<not> nextDecisionFailedFrom (drop k ?L)" by (simp add: emittedAt_def)
      with k ty tm have "Suc k = ?n" by blast
      with a have "k = j" by simp
      with f \<open>\<not> nextDecisionFailedFrom (drop k ?L)\<close> show False by simp
    qed
  qed
  have scan: "(nextDecisionCompletedFrom xs
                 \<or> (\<forall>e \<in> set xs. EventType e \<notin> {EventTypeDecisionTaskCompleted,
                           EventTypeDecisionTaskTimedOut, EventTypeDecisionTaskFailed}))
              \<longleftrightarrow> \<not> nextDecisionFailedFrom xs" for xs
    by (induction xs) (auto split: EventType.splits)
  have emitted_eq: "emittedAt ?L = (\<lambda>j. EventType (?L ! j) \<notin>
                            {EventTypeDecisionTaskCompleted, EventTypeDecisionTaskScheduled,
                             EventTypeDecisionTaskTimedOut, EventTypeDecisionTaskFailed}
                        \<and> (EventType (?L ! j) = EventTypeDecisionTaskStarted \<longrightarrow>
                             \<not> nextDecisionFailedFrom (drop j ?L)))"
    by (rule ext) (simp add: emittedAt_def)
  have c1: "unreadOf eh = map Inr hs @ (case er of None \<Rightarrow> [] | Some e \<Rightarrow> [Inl e])
              @ unreadOf eh'"
    using r1 u by simp
  have c2: "?i \<le> ?n" "?n \<le> length (loadedWith eh hs)" using le n L by simp_all
  have c3: "drop (currentIndex eh') (loadedEvents eh') = drop ?n (loadedWith eh hs)"
    using d L by simp
  have c4: "\<forall>k < length hs.
              length (loadedWith eh (take k hs)) \<le> ?n
              \<and> (\<forall>j. ?i \<le> j \<and> j < length (loadedWith eh (take k hs))
                     \<and> EventType (loadedWith eh (take k hs) ! j) = EventTypeDecisionTaskStarted \<longrightarrow>
                     nextDecisionFailedFrom (drop j (loadedWith eh (take k hs))))"
    using r6 unfolding loadedWith_def by simp
  have c5: "er \<noteq> None \<longrightarrow>
              ?n = length (loadedWith eh hs)
              \<and> (\<forall>j. ?i \<le> j \<and> j < ?n
                     \<and> EventType (loadedWith eh hs ! j) = EventTypeDecisionTaskStarted \<longrightarrow>
                     nextDecisionFailedFrom (drop j (loadedWith eh hs)))"
    using r7 L by simp
  have c6: "er = None \<longrightarrow>
              (\<exists>j. ?i \<le> j \<and> Suc j = ?n
                  \<and> EventType (loadedWith eh hs ! j) = EventTypeDecisionTaskStarted
                  \<and> \<not> nextDecisionFailedFrom (drop j (loadedWith eh hs)))
              \<or> (?n = length (loadedWith eh hs) \<and> unreadOf eh' = [])"
    using r8 u L by auto
  have c7: "elems batch = map ((!) (loadedWith eh hs))
             (filter (\<lambda>j. EventType (loadedWith eh hs ! j) \<notin>
                            {EventTypeDecisionTaskCompleted, EventTypeDecisionTaskScheduled,
                             EventTypeDecisionTaskTimedOut, EventTypeDecisionTaskFailed}
                        \<and> (EventType (loadedWith eh hs ! j) = EventTypeDecisionTaskStarted \<longrightarrow>
                             \<not> nextDecisionFailedFrom (drop j (loadedWith eh hs))))
                [?i..<?n])"
    using evs emitted_eq L by simp
  have c8: "\<forall>j. ?i \<le> j \<and> j < ?n
               \<and> EventType (loadedWith eh hs ! j) = EventTypeDecisionTaskStarted \<longrightarrow>
               ((Suc j = ?n \<and> elems batch \<noteq> [] \<and> last (elems batch) = loadedWith eh hs ! j)
                 \<longleftrightarrow> \<not> nextDecisionFailedFrom (drop j (loadedWith eh hs)))"
    using started L by simp
  have c9: "\<forall>j. (nextDecisionCompletedFrom (drop j (loadedWith eh hs))
                   \<or> (\<forall>e \<in> set (drop j (loadedWith eh hs)).
                         EventType e \<notin> {EventTypeDecisionTaskCompleted,
                           EventTypeDecisionTaskTimedOut, EventTypeDecisionTaskFailed}))
                 \<longleftrightarrow> \<not> nextDecisionFailedFrom (drop j (loadedWith eh hs))"
    using scan by blast
  from c1 c2 c3 c4 c5 c6 c7 c8 c9 have "\<exists>hs n.
          unreadOf eh = map Inr hs @ (case er of None \<Rightarrow> [] | Some e \<Rightarrow> [Inl e]) @ unreadOf eh'
        \<and> currentIndex eh \<le> n \<and> n \<le> length (loadedWith eh hs)
        \<and> drop (currentIndex eh') (loadedEvents eh') = drop n (loadedWith eh hs)
        \<and> (\<forall>k < length hs.
              length (loadedWith eh (take k hs)) \<le> n
              \<and> (\<forall>j. currentIndex eh \<le> j \<and> j < length (loadedWith eh (take k hs))
                     \<and> EventType (loadedWith eh (take k hs) ! j) = EventTypeDecisionTaskStarted \<longrightarrow>
                     nextDecisionFailedFrom (drop j (loadedWith eh (take k hs)))))
        \<and> (er \<noteq> None \<longrightarrow>
              n = length (loadedWith eh hs)
              \<and> (\<forall>j. currentIndex eh \<le> j \<and> j < n
                     \<and> EventType (loadedWith eh hs ! j) = EventTypeDecisionTaskStarted \<longrightarrow>
                     nextDecisionFailedFrom (drop j (loadedWith eh hs))))
        \<and> (er = None \<longrightarrow>
              (\<exists>j. currentIndex eh \<le> j \<and> Suc j = n
                  \<and> EventType (loadedWith eh hs ! j) = EventTypeDecisionTaskStarted
                  \<and> \<not> nextDecisionFailedFrom (drop j (loadedWith eh hs)))
              \<or> (n = length (loadedWith eh hs) \<and> unreadOf eh' = []))
        \<and> elems batch = map ((!) (loadedWith eh hs))
             (filter (\<lambda>j. EventType (loadedWith eh hs ! j) \<notin>
                            {EventTypeDecisionTaskCompleted, EventTypeDecisionTaskScheduled,
                             EventTypeDecisionTaskTimedOut, EventTypeDecisionTaskFailed}
                        \<and> (EventType (loadedWith eh hs ! j) = EventTypeDecisionTaskStarted \<longrightarrow>
                             \<not> nextDecisionFailedFrom (drop j (loadedWith eh hs))))
                [currentIndex eh..<n])
        \<and> (\<forall>j. currentIndex eh \<le> j \<and> j < n
               \<and> EventType (loadedWith eh hs ! j) = EventTypeDecisionTaskStarted \<longrightarrow>
               ((Suc j = n \<and> elems batch \<noteq> [] \<and> last (elems batch) = loadedWith eh hs ! j)
                 \<longleftrightarrow> \<not> nextDecisionFailedFrom (drop j (loadedWith eh hs))))
        \<and> (\<forall>j. (nextDecisionCompletedFrom (drop j (loadedWith eh hs))
                   \<or> (\<forall>e \<in> set (drop j (loadedWith eh hs)).
                         EventType e \<notin> {EventTypeDecisionTaskCompleted,
                           EventTypeDecisionTaskTimedOut, EventTypeDecisionTaskFailed}))
                 \<longleftrightarrow> \<not> nextDecisionFailedFrom (drop j (loadedWith eh hs)))"
    by (intro exI [of _ hs] exI [of _ ?n] conjI)
  with skip show ?thesis by (rule conjI)
qed

lemmas reorderer_eval =
  nextDecisionEvents_def NextDecisionEvents_def mkHistory_def orderEvents.simps
  hasMoreEvents_def IsNextDecisionFailed_def mkEvent_def appended_def
  isPreloadMarkerEvent_def Let_def

lemma nextDecisionEvents_history_timedOut:
  "nextDecisionEvents (mkHistory history_timedOut) =
     Inr (Some [mkEvent 1 EventTypeWorkflowExecutionStarted,
                mkEvent 6 EventTypeDecisionTaskStarted], [], None,
          (mkHistory history_timedOut)
            \<lparr>loadedEvents := [mkEvent 7 EventTypeDecisionTaskCompleted]\<rparr>)"
  by (simp add: reorderer_eval history_timedOut_def)

lemma nextDecisionEvents_pagedHistory:
  "nextDecisionEvents pagedHistory =
     Inr (Some [mkEvent 1 EventTypeWorkflowExecutionStarted,
                mkEvent 6 EventTypeDecisionTaskStarted], [], None,
          pagedHistory
            \<lparr>workflowTask :=
               \<lparr>task = mkTask (take 2 history_timedOut),
                historyIterator = Some \<lparr>pages = [Inr \<lparr>Events = drop 2 history_timedOut\<rparr>],
                                         unread = []\<rparr>\<rparr>,
             loadedEvents := [mkEvent 7 EventTypeDecisionTaskCompleted]\<rparr>)"
  by (simp add: reorderer_eval pagedHistory_def history_timedOut_def getMoreEvents_def
      GetNextPage_def HasNextPage_def)

theorem nextDecisionEvents_batch_witness:
  "nextDecisionEvents (mkHistory history_timedOut) =
     Inr (Some [mkEvent 1 EventTypeWorkflowExecutionStarted,
                mkEvent 6 EventTypeDecisionTaskStarted], [], None,
          (mkHistory history_timedOut)
            \<lparr>loadedEvents := [mkEvent 7 EventTypeDecisionTaskCompleted]\<rparr>)
   \<and> EventType (mkEvent 1 EventTypeWorkflowExecutionStarted) \<notin>
        {EventTypeDecisionTaskCompleted, EventTypeDecisionTaskScheduled,
         EventTypeDecisionTaskTimedOut, EventTypeDecisionTaskFailed}
   \<and> EventType (mkEvent 6 EventTypeDecisionTaskStarted) \<notin>
        {EventTypeDecisionTaskCompleted, EventTypeDecisionTaskScheduled,
         EventTypeDecisionTaskTimedOut, EventTypeDecisionTaskFailed}
   \<and> nextDecisionEvents pagedHistory =
     Inr (Some [mkEvent 1 EventTypeWorkflowExecutionStarted,
                mkEvent 6 EventTypeDecisionTaskStarted], [], None,
          pagedHistory
            \<lparr>workflowTask :=
               \<lparr>task = mkTask (take 2 history_timedOut),
                historyIterator = Some \<lparr>pages = [Inr \<lparr>Events = drop 2 history_timedOut\<rparr>],
                                         unread = []\<rparr>\<rparr>,
             loadedEvents := [mkEvent 7 EventTypeDecisionTaskCompleted]\<rparr>)"
  using nextDecisionEvents_batch [OF nextDecisionEvents_history_timedOut]
    nextDecisionEvents_batch [OF nextDecisionEvents_pagedHistory]
    nextDecisionEvents_history_timedOut nextDecisionEvents_pagedHistory
  by simp

text \<open>
  C1 as stated fails on the history of a first decision task: the \<open>DecisionTaskStarted\<close>
  event 3 is the final element of the batch, and the forward scan from it finds no
  completion (the loaded events hold no decision outcome at all).
\<close>

theorem nextDecisionEvents_batch_counterexample:
  "nextDecisionEvents (mkHistory history_E1) =
     Inr (Some [mkEvent 1 EventTypeWorkflowExecutionStarted,
                mkEvent 3 EventTypeDecisionTaskStarted], [], None,
          (mkHistory history_E1)\<lparr>loadedEvents := []\<rparr>)
   \<and> history_E1 ! 2 = mkEvent 3 EventTypeDecisionTaskStarted
   \<and> \<not> nextDecisionCompletedFrom (drop 2 history_E1)"
  by (simp add: reorderer_eval history_E1_def)

text \<open>
  C4. \<open>IsReplayEvent\<close> holds exactly when the event id is at most the task's
  \<open>PreviousStartedEventId\<close> (as signed 64-bit integers) or the event type is one of the
  fourteen decision-event types.
\<close>

theorem IsReplayEvent_iff:
  "IsReplayEvent eh e \<longleftrightarrow>
    (sint (EventId e) \<le> sint (PreviousStartedEventId (task (workflowTask eh)))
     \<or> EventType e \<in> {EventTypeActivityTaskScheduled, EventTypeActivityTaskCancelRequested,
          EventTypeRequestCancelActivityTaskFailed, EventTypeTimerStarted, EventTypeTimerCanceled,
          EventTypeCancelTimerFailed, EventTypeMarkerRecorded, EventTypeWorkflowExecutionCompleted,
          EventTypeWorkflowExecutionFailed, EventTypeWorkflowExecutionCanceled,
          EventTypeWorkflowExecutionContinuedAsNew, EventTypeStartChildWorkflowExecutionInitiated,
          EventTypeRequestCancelExternalWorkflowExecutionInitiated,
          EventTypeSignalExternalWorkflowExecutionInitiated})"
  unfolding IsReplayEvent_def word_sle_eq
  by (cases "EventType e") simp_all

theorem IsReplayEvent_iff_witness:
  "IsReplayEvent (mkHistory history_E1) (mkEvent 5 EventTypeTimerStarted)
   \<and> \<not> IsReplayEvent (mkHistory history_E1) (mkEvent 5 EventTypeActivityTaskStarted)
   \<and> IsReplayEvent ((mkHistory history_E1)
          \<lparr>workflowTask := \<lparr>task = (mkTask history_E1)\<lparr>PreviousStartedEventId := 5\<rparr>,
                             historyIterator = None\<rparr>\<rparr>)
        (mkEvent 5 EventTypeActivityTaskStarted)"
  by (simp add: IsReplayEvent_iff mkHistory_def mkEvent_def mkTask_def)

lemma nextDecisionEvents_markers:
  assumes "nextDecisionEvents eh = Inr (batch, markers, er, eh')"
  shows "markers = filter isPreloadMarkerEvent (elems batch)"
proof -
  from nextDecisionEvents_post [OF assms]
  obtain eh1 where "orderEvents_post eh [] [] eh1 (elems batch) markers" ..
  then show ?thesis unfolding orderEvents_post_def by simp
qed

lemma NextDecisionEvents_lookahead:
  assumes "NextDecisionEvents eh = Inr (res, markers, er, eh')" and "elems res \<noteq> []"
  shows "\<exists>ehB ehC. nextDecisionEvents ehB = Inr (nextBatch eh', markers, er, ehC)"
proof -
  from assms(2) obtain y where y: "res = Some y" "y \<noteq> []"
    by (cases res) auto
  from assms(1) y(2) show ?thesis
    unfolding y NextDecisionEvents_def Let_def
    by (auto split: if_splits sum.splits prod.splits option.splits) blast+
qed

text \<open>
  C6 (amended). When \<open>NextDecisionEvents\<close> returns a non-empty batch, its markers are
  exactly the \<open>MarkerRecorded\<close> events of the batch it has computed ahead and stored in
  \<open>nextBatch\<close>, which is the batch the following call returns; they are not taken from
  the batch returned with them. For the internal \<open>nextDecisionEvents\<close> the markers are
  exactly the \<open>MarkerRecorded\<close> events of the batch it returns.
\<close>

theorem NextDecisionEvents_markers:
  "(NextDecisionEvents eh = Inr (res, markers, er, eh') \<and> elems res \<noteq> [] \<longrightarrow>
      markers = filter isPreloadMarkerEvent (elems (nextBatch eh')))
   \<and> (NextDecisionEvents eh = Inr (res, markers, er, eh') \<and> nextBatch eh' \<noteq> None
        \<and> NextDecisionEvents eh' = Inr (res2, markers2, err2, eh2) \<longrightarrow>
      res2 = nextBatch eh')
   \<and> (nextDecisionEvents eh = Inr (batch, mks, err1, eh1) \<longrightarrow>
      mks = filter isPreloadMarkerEvent (elems batch))"
proof (intro conjI impI)
  assume a: "NextDecisionEvents eh = Inr (res, markers, er, eh') \<and> elems res \<noteq> []"
  then show "markers = filter isPreloadMarkerEvent (elems (nextBatch eh'))"
    by (auto dest: NextDecisionEvents_lookahead nextDecisionEvents_markers)
next
  assume "NextDecisionEvents eh = Inr (res, markers, er, eh') \<and> nextBatch eh' \<noteq> None
        \<and> NextDecisionEvents eh' = Inr (res2, markers2, err2, eh2)"
  then show "res2 = nextBatch eh'"
    by (auto simp: NextDecisionEvents_def [of eh'] Let_def
        split: if_splits sum.splits prod.splits option.splits)
next
  assume "nextDecisionEvents eh = Inr (batch, mks, err1, eh1)"
  then show "mks = filter isPreloadMarkerEvent (elems batch)"
    by (rule nextDecisionEvents_markers)
qed

lemma NextDecisionEvents_history_marker:
  "NextDecisionEvents (mkHistory history_marker) =
     Inr (Some [mkEvent 1 EventTypeWorkflowExecutionStarted,
                mkEvent 3 EventTypeDecisionTaskStarted],
          [mkEvent 5 EventTypeMarkerRecorded], None,
          (mkHistory history_marker)
            \<lparr>loadedEvents := [],
              nextBatch := Some [mkEvent 5 EventTypeMarkerRecorded,
                                 mkEvent 7 EventTypeDecisionTaskStarted]\<rparr>)"
  by (simp add: reorderer_eval history_marker_def)

theorem NextDecisionEvents_markers_witness:
  "NextDecisionEvents (mkHistory history_marker) =
     Inr (Some [mkEvent 1 EventTypeWorkflowExecutionStarted,
                mkEvent 3 EventTypeDecisionTaskStarted],
          [mkEvent 5 EventTypeMarkerRecorded], None,
          (mkHistory history_marker)
            \<lparr>loadedEvents := [],
              nextBatch := Some [mkEvent 5 EventTypeMarkerRecorded,
                                 mkEvent 7 EventTypeDecisionTaskStarted]\<rparr>)
   \<and> [mkEvent 5 EventTypeMarkerRecorded] =
       filter isPreloadMarkerEvent
         [mkEvent 5 EventTypeMarkerRecorded, mkEvent 7 EventTypeDecisionTaskStarted]"
  using NextDecisionEvents_markers [of "mkHistory history_marker"
      "Some [mkEvent 1 EventTypeWorkflowExecutionStarted, mkEvent 3 EventTypeDecisionTaskStarted]"
      "[mkEvent 5 EventTypeMarkerRecorded]" None
      "(mkHistory history_marker)
            \<lparr>loadedEvents := [],
              nextBatch := Some [mkEvent 5 EventTypeMarkerRecorded,
                                 mkEvent 7 EventTypeDecisionTaskStarted]\<rparr>"]
    NextDecisionEvents_history_marker
  by simp

text \<open>
  C6 as stated fails: the call returns the batch of events 1 and 3 together with the
  marker event 5, which is not in that batch.
\<close>

theorem NextDecisionEvents_markers_counterexample:
  "NextDecisionEvents (mkHistory history_marker) =
     Inr (Some [mkEvent 1 EventTypeWorkflowExecutionStarted,
                mkEvent 3 EventTypeDecisionTaskStarted],
          [mkEvent 5 EventTypeMarkerRecorded], None,
          (mkHistory history_marker)
            \<lparr>loadedEvents := [],
              nextBatch := Some [mkEvent 5 EventTypeMarkerRecorded,
                                 mkEvent 7 EventTypeDecisionTaskStarted]\<rparr>)
   \<and> [mkEvent 5 EventTypeMarkerRecorded] \<noteq>
       filter isPreloadMarkerEvent
         [mkEvent 1 EventTypeWorkflowExecutionStarted, mkEvent 3 EventTypeDecisionTaskStarted]"
  by (simp add: reorderer_eval history_marker_def)

section \<open>Properties of the replay matcher\<close>

lemma LastIndex_absent:
  assumes "c \<notin> set s"
  shows "LastIndex s c = - 1"
proof -
  have "filter (\<lambda>i. s ! i = c) (rev [0..<length s]) = []"
    using assms by (auto simp: filter_empty_conv)
  then show ?thesis by (simp add: LastIndex_def)
qed

lemma LastIndex_last:
  assumes "c \<notin> set q"
  shows "LastIndex (p @ c # q) c = int (length p)"
proof -
  let ?s = "p @ c # q" and ?n = "length p"
  define us where "us = [Suc ?n..<?n + Suc (length q)]"
  have "[0..<?n + Suc (length q)] = [0..<?n] @ [?n..<?n + Suc (length q)]"
    by (rule upt_add_eq_append) simp
  moreover have "[?n..<?n + Suc (length q)] = ?n # us"
    unfolding us_def by (rule upt_conv_Cons) simp
  moreover have "length ?s = ?n + Suc (length q)" by simp
  ultimately have upt: "[0..<length ?s] = [0..<?n] @ ?n # us"
    by (simp only:)
  have ne: "?s ! i \<noteq> c" if "Suc ?n \<le> i" "i < ?n + Suc (length q)" for i
  proof -
    from that have "?s ! i = q ! (i - Suc ?n)"
      by (simp add: nth_append nth_Cons')
    moreover from that have "q ! (i - Suc ?n) \<in> set q" by simp
    ultimately show ?thesis using assms by auto
  qed
  have "\<forall>i \<in> set us. \<not> (?s ! i = c)"
  proof
    fix i assume "i \<in> set us"
    then have "Suc ?n \<le> i" "i < ?n + Suc (length q)"
      unfolding us_def by auto
    then show "\<not> (?s ! i = c)" using ne by blast
  qed
  then have none: "filter (\<lambda>i. ?s ! i = c) us = []"
    by (rule filter_False)
  have "filter (\<lambda>i. ?s ! i = c) (rev us) = rev (filter (\<lambda>i. ?s ! i = c) us)"
    by (simp add: rev_filter)
  with none have "filter (\<lambda>i. ?s ! i = c) (rev us) = []" by simp
  then have "filter (\<lambda>i. ?s ! i = c) (rev ([0..<?n] @ ?n # us))
        = ?n # filter (\<lambda>i. ?s ! i = c) (rev [0..<?n])"
    by simp
  then show ?thesis
    unfolding LastIndex_def upt by simp
qed

lemma lastPartOfName_nodot:
  "CHR ''.'' \<notin> set name \<Longrightarrow> lastPartOfName name = name"
  by (simp add: lastPartOfName_def LastIndex_absent)

lemma lastPartOfName_dot:
  assumes "CHR ''.'' \<notin> set q"
  shows "lastPartOfName (p @ CHR ''.'' # q) = (if q = [] then p @ ''.'' else q)"
proof -
  have "nat (int (length p) + 1) = Suc (length p)" by simp
  then show ?thesis
    using assms by (simp add: lastPartOfName_def LastIndex_last)
qed

lemma takeWhile_absent:
  "c \<notin> set xs \<Longrightarrow> takeWhile (\<lambda>x. x \<noteq> c) (xs @ c # ys) = xs"
  by (induction xs) auto

lemma takeWhile_all_absent:
  "c \<notin> set xs \<Longrightarrow> takeWhile (\<lambda>x. x \<noteq> c) xs = xs"
  by (induction xs) auto

lemma afterFinalDot_nodot:
  "CHR ''.'' \<notin> set name \<Longrightarrow> afterFinalDot name = name"
  by (simp add: afterFinalDot_def takeWhile_all_absent)

lemma afterFinalDot_dot:
  "CHR ''.'' \<notin> set q \<Longrightarrow> afterFinalDot (p @ CHR ''.'' # q) = q"
  by (simp add: afterFinalDot_def takeWhile_absent)

lemma lastPartOfName_afterFinalDot:
  "lastPartOfName name =
     (if name \<noteq> [] \<and> last name = CHR ''.'' then name else afterFinalDot name)"
proof (cases "CHR ''.'' \<in> set name")
  case False
  then have "name = [] \<or> last name \<noteq> CHR ''.''"
    using last_in_set by fastforce
  with False show ?thesis by (auto simp: lastPartOfName_nodot afterFinalDot_nodot)
next
  case True
  then obtain p q where n: "name = p @ CHR ''.'' # q" and q: "CHR ''.'' \<notin> set q"
    by (auto dest: split_list_last)
  show ?thesis
  proof (cases "q = []")
    case True
    with n q show ?thesis by (simp add: lastPartOfName_dot)
  next
    case False
    with q have "last q \<noteq> CHR ''.''" using last_in_set by fastforce
    with n q False show ?thesis
      by (simp add: lastPartOfName_dot afterFinalDot_dot)
  qed
qed

text \<open>
  C5 (amended). In non-strict mode a ScheduleActivity decision never matches an event
  that is not \<open>ActivityTaskScheduled\<close>; it matches an \<open>ActivityTaskScheduled\<close> event
  (both carrying their attribute block) if and only if the activity ids are equal and
  \<open>lastPartOfName\<close> of the two activity type names are equal, where \<open>lastPartOfName\<close> is
  the component after the final dot, except that a name ending in a dot is taken whole
  (and a name with no dot is the whole name).
\<close>

theorem isDecisionMatchEvent_ScheduleActivity:
  "(DecisionType d = DecisionTypeScheduleActivityTask
      \<and> EventType e \<noteq> EventTypeActivityTaskScheduled \<longrightarrow>
        isDecisionMatchEvent d e False = Inr False)
   \<and> (DecisionType d = DecisionTypeScheduleActivityTask
      \<and> DecisionAttrs d = ScheduleActivityTaskAttrs da
      \<and> EventType e = EventTypeActivityTaskScheduled
      \<and> Attributes e = ActivityTaskScheduledAttrs ea \<longrightarrow>
        isDecisionMatchEvent d e False =
          Inr (ats_ActivityId ea = sad_ActivityId da
               \<and> lastPartOfName (ats_ActivityType ea) = lastPartOfName (sad_ActivityType da)))
   \<and> lastPartOfName name =
       (if name \<noteq> [] \<and> last name = CHR ''.'' then name else afterFinalDot name)"
  by (auto simp: isDecisionMatchEvent_def lastPartOfName_afterFinalDot [symmetric] Let_def)

lemma lastPartOfName_examples:
  "lastPartOfName ''a.b.Foo'' = ''Foo''" "lastPartOfName ''x.y.Foo'' = ''Foo''"
  "lastPartOfName ''a.'' = ''a.''" "lastPartOfName ''b.'' = ''b.''"
  using lastPartOfName_dot [of "''Foo''" "''a.b''"] lastPartOfName_dot [of "''Foo''" "''x.y''"]
    lastPartOfName_dot [of "[]" "''a''"] lastPartOfName_dot [of "[]" "''b''"]
  by simp_all

theorem isDecisionMatchEvent_ScheduleActivity_witness:
  "isDecisionMatchEvent (scheduleActivityDecision ''1'' ''a.b.Foo'')
     (activityScheduledEvent 5 ''1'' ''x.y.Foo'') False = Inr True
   \<and> isDecisionMatchEvent (scheduleActivityDecision ''1'' ''a.b.Foo'')
     (mkEvent 5 EventTypeTimerStarted) False = Inr False
   \<and> lastPartOfName ''a.b.Foo'' = afterFinalDot ''a.b.Foo''"
  using isDecisionMatchEvent_ScheduleActivity
      [of "scheduleActivityDecision ''1'' ''a.b.Foo''" "mkEvent 5 EventTypeTimerStarted"
          "\<lparr>sad_ActivityId = ''1'', sad_ActivityType = ''a.b.Foo'',
            sad_TaskList = ''tl'', sad_Input = []\<rparr>"
          "\<lparr>ats_ActivityId = ''1'', ats_ActivityType = ''x.y.Foo'',
            ats_TaskList = ''tl'', ats_Input = []\<rparr>" "''a.b.Foo''"]
    isDecisionMatchEvent_ScheduleActivity
      [of "scheduleActivityDecision ''1'' ''a.b.Foo''" "activityScheduledEvent 5 ''1'' ''x.y.Foo''"
          "\<lparr>sad_ActivityId = ''1'', sad_ActivityType = ''a.b.Foo'',
            sad_TaskList = ''tl'', sad_Input = []\<rparr>"
          "\<lparr>ats_ActivityId = ''1'', ats_ActivityType = ''x.y.Foo'',
            ats_TaskList = ''tl'', ats_Input = []\<rparr>" "''a.b.Foo''"]
  by (simp add: scheduleActivityDecision_def activityScheduledEvent_def mkEvent_def
      lastPartOfName_examples)

text \<open>
  C5 as stated fails for activity type names that end in a dot: the components after the
  final dot of \<open>a.\<close> and \<open>b.\<close> are both empty and the activity ids agree, yet the
  decision does not match the event.
\<close>

theorem isDecisionMatchEvent_ScheduleActivity_counterexample:
  "isDecisionMatchEvent (scheduleActivityDecision ''1'' ''a.'')
     (activityScheduledEvent 5 ''1'' ''b.'') False = Inr False
   \<and> afterFinalDot ''a.'' = afterFinalDot ''b.''"
  by (simp add: isDecisionMatchEvent_def scheduleActivityDecision_def
      activityScheduledEvent_def lastPartOfName_examples afterFinalDot_def)

section \<open>Properties of the workflow execution context\<close>

text \<open>
  C3. When \<open>Unlock e\<close> returns, the mutex was held and is released, and the sticky cache
  has lost the entry of the context's run id exactly when \<open>e\<close> is an error, or the
  context's stored error is set, or the workflow is completed, or sticky execution is
  disabled and the context has no pending local activity work; every other entry is
  kept. The cache after the call is the cache after the removal step, which the
  definition takes before it releases the mutex. In particular a completed workflow or a
  stored error always removes the entry.
\<close>

theorem Unlock_removes:
  assumes "Unlock e w c = Inr (w', c')"
    and "c (RunID (WorkflowExecution (workflowInfo w))) \<noteq> None"
  shows "(c' (RunID (WorkflowExecution (workflowInfo w))) = None \<longleftrightarrow>
            (e \<noteq> None \<or> err w \<noteq> None \<or> isWorkflowCompleted w
             \<or> (disableStickyExecution (wth w) \<and> \<not> hasPendingLocalActivityWork w)))
         \<and> (c' (RunID (WorkflowExecution (workflowInfo w))) \<noteq> None \<longrightarrow> c' = c)
         \<and> (\<forall>k. k \<noteq> RunID (WorkflowExecution (workflowInfo w)) \<longrightarrow> c' k = c k)
         \<and> (isWorkflowCompleted w \<or> err w \<noteq> None \<longrightarrow>
              c' (RunID (WorkflowExecution (workflowInfo w))) = None)
         \<and> mutex w \<and> \<not> mutex w' \<and> w' = w\<lparr>mutex := False\<rparr>"
  using assms
  by (auto simp: Unlock_def Let_def removeWorkflowContext_def split: if_splits)

lemma Unlock_example:
  "Unlock (Some (ErrorString ''failed'')) exampleContext [''run'' \<mapsto> 0]
     = Inr (exampleContext\<lparr>mutex := False\<rparr>, Map.empty)"
  by (simp add: Unlock_def exampleContext_def exampleInfo_def removeWorkflowContext_def)

theorem Unlock_removes_witness:
  "Unlock (Some (ErrorString ''failed'')) exampleContext [''run'' \<mapsto> 0]
     = Inr (exampleContext\<lparr>mutex := False\<rparr>, Map.empty)
   \<and> [''run'' \<mapsto> (0::nat)] (RunID (WorkflowExecution (workflowInfo exampleContext))) \<noteq> None
   \<and> (Map.empty :: workflowCache) (RunID (WorkflowExecution (workflowInfo exampleContext))) = None
   \<and> mutex exampleContext"
proof -
  have cached: "[''run'' \<mapsto> (0::nat)] (RunID (WorkflowExecution (workflowInfo exampleContext)))
                \<noteq> None"
    by (simp add: exampleContext_def exampleInfo_def)
  from Unlock_removes [OF Unlock_example cached] Unlock_example cached
  show ?thesis by simp
qed

text \<open>
  The eviction callback on a context that has a tunnel whenever it is live. It returns;
  it appends exactly one \<open>ResetStickyTaskList\<close> request carrying the context's domain,
  workflow id and run id to the result channel of the context's tunnel, and changes
  nothing else in the tunnels, exactly when before the call the stored error is nil and
  the workflow is not completed; otherwise the tunnels are unchanged. The test reads the
  state before it is cleared: afterwards the stored error is nil and the completion flag
  false in every case. The context ends destroyed and unlocked.
\<close>

lemma onEviction_with_tunnel:
  assumes "shouldResetStickyOnEviction w \<longrightarrow> laTunnel w = Some r"
  shows "\<exists>w' ts'. onEviction w ts = Inr (w', ts')
      \<and> (if err w = None \<and> \<not> isWorkflowCompleted w
          then ts' = ts(r := (ts r)\<lparr>resultCh := resultCh (ts r) @
                  [resetStickinessTask
                     \<lparr>rs_Domain = wi_Domain (workflowInfo w),
                      rs_WorkflowId = ID (WorkflowExecution (workflowInfo w)),
                      rs_RunId = RunID (WorkflowExecution (workflowInfo w))\<rparr>]\<rparr>)
          else ts' = ts)
      \<and> ((err w = None \<and> \<not> isWorkflowCompleted w) \<longleftrightarrow> ts' \<noteq> ts)
      \<and> isDestroyed w' \<and> eventHandler w' = None \<and> err w' = None
      \<and> \<not> isWorkflowCompleted w' \<and> \<not> mutex w'"
proof (cases "err w = None \<and> \<not> isWorkflowCompleted w")
  case True
  with assms have r: "laTunnel w = Some r" by (simp add: shouldResetStickyOnEviction_def)
  let ?t = "resetStickinessTask
                     \<lparr>rs_Domain = wi_Domain (workflowInfo w),
                      rs_WorkflowId = ID (WorkflowExecution (workflowInfo w)),
                      rs_RunId = RunID (WorkflowExecution (workflowInfo w))\<rparr>"
  have "resultCh ((ts(r := (ts r)\<lparr>resultCh := resultCh (ts r) @ [?t]\<rparr>)) r) \<noteq> resultCh (ts r)"
    by simp
  then have "ts(r := (ts r)\<lparr>resultCh := resultCh (ts r) @ [?t]\<rparr>) \<noteq> ts"
    by metis
  with True r show ?thesis
    by (simp add: onEviction_def Lock_def shouldResetStickyOnEviction_def
        queueResetStickinessTask_def clearState_def clearCurrentTask_def isDestroyed_def
        Let_def)
next
  case False
  then show ?thesis
    by (auto simp add: onEviction_def Lock_def shouldResetStickyOnEviction_def
        clearState_def clearCurrentTask_def isDestroyed_def Let_def)
qed

lemma onEviction_example:
  "(shouldResetStickyOnEviction exampleContext \<and> laTunnel exampleContext = Some 0)
   \<and> onEviction exampleContext emptyTunnels =
       Inr ((clearState exampleContext)\<lparr>mutex := False\<rparr>,
            emptyTunnels(0 := \<lparr>taskCh = [], resultCh =
              [resetStickinessTask
                 \<lparr>rs_Domain = ''dom'', rs_WorkflowId = ''wf'', rs_RunId = ''run''\<rparr>]\<rparr>))
   \<and> isDestroyed ((clearState exampleContext)\<lparr>mutex := False\<rparr>)"
proof -
  have live: "shouldResetStickyOnEviction exampleContext \<and> laTunnel exampleContext = Some 0"
    by (simp add: shouldResetStickyOnEviction_def exampleContext_def)
  then have "shouldResetStickyOnEviction exampleContext \<longrightarrow> laTunnel exampleContext = Some 0"
    by simp
  from onEviction_with_tunnel [OF this, of emptyTunnels] live
  show ?thesis
    by (auto simp add: onEviction_def Lock_def shouldResetStickyOnEviction_def
        queueResetStickinessTask_def exampleContext_def exampleInfo_def emptyTunnels_def
        isDestroyed_def clearState_def clearCurrentTask_def Let_def)
qed

text \<open>
  C10. On a task whose history holds no event, \<open>ResetIfStale\<close> returns the nil error and
  leaves the context, the task and the iterator as they are.
\<close>

theorem ResetIfStale_empty_history:
  assumes "History t = Some h" and "Events h = []"
  shows "ResetIfStale ext w t iter = Inr (None, w, t, iter)"
  using assms by (simp add: ResetIfStale_def)

theorem ResetIfStale_empty_history_witness:
  "History ((mkTask [])) = Some \<lparr>Events = []\<rparr>
   \<and> Events \<lparr>Events = []\<rparr> = []
   \<and> ResetIfStale idleExternals exampleContext (mkTask []) None
       = Inr (None, exampleContext, mkTask [], None)"
proof -
  have h: "History (mkTask []) = Some \<lparr>Events = []\<rparr>" by (simp add: mkTask_def)
  have e: "Events \<lparr>Events = []\<rparr> = []" by simp
  from ResetIfStale_empty_history [OF h e] h show ?thesis by simp
qed

section \<open>Properties of task processing\<close>

lemma sameFrame_refl [simp]: "sameFrame w w"
  by (simp add: sameFrame_def)

lemma sameFrame_trans: "sameFrame w w1 \<Longrightarrow> sameFrame w1 w2 \<Longrightarrow> sameFrame w w2"
  by (simp add: sameFrame_def)

lemma applyEvent_frame:
  "applyEvent ext event isReplay isLast w = Inr (e, w') \<Longrightarrow> sameFrame w w'"
  by (auto simp: applyEvent_def sameFrame_def completeWorkflow_def Let_def
      split: option.splits prod.splits)

lemma applyMarkers_frame:
  "applyMarkers ext la ms w = Inr (e, w') \<Longrightarrow> sameFrame w w'"
proof (induction ms arbitrary: w)
  case Nil
  then show ?case by simp
next
  case (Cons m ms)
  show ?case
  proof (cases "MarkerRecordedEventAttributesOf m")
    case None
    with Cons.prems show ?thesis by simp
  next
    case (Some markerName)
    show ?thesis
    proof (cases "(markerName = localActivityMarkerName (names ext)) = la")
      case False
      with Some Cons show ?thesis by simp
    next
      case True
      show ?thesis
      proof (cases "applyEvent ext m True False w")
        case (Inl p)
        with True Some Cons.prems show ?thesis by simp
      next
        case (Inr x)
        obtain e1 w1 where x: "x = (e1, w1)" by (cases x)
        from Inr x have f: "sameFrame w w1" by (auto dest: applyEvent_frame)
        show ?thesis
        proof (cases e1)
          case None
          with True Some Cons.prems Inr x have "applyMarkers ext la ms w1 = Inr (e, w')"
            by simp
          from Cons.IH [OF this] f show ?thesis by (rule sameFrame_trans [rotated])
        next
          case (Some a)
          with True \<open>MarkerRecordedEventAttributesOf m = Some markerName\<close> Cons.prems Inr x f
          show ?thesis by simp
        qed
      qed
    qed
  qed
qed

lemma applyBatch_frame:
  "applyBatch ext rh skip es w re = Inr (e, w', re') \<Longrightarrow> sameFrame w w'"
proof (induction es arbitrary: w re)
  case Nil
  then show ?case by simp
next
  case (Cons event rest)
  let ?re1 = "if \<not> skip \<and> isDecisionEvent (EventType event) then re @ [event] else re"
  show ?case
  proof (cases "isPreloadMarkerEvent event")
    case True
    with Cons.prems have "applyBatch ext rh skip rest w ?re1 = Inr (e, w', re')"
      by (simp add: Let_def)
    then show ?thesis by (rule Cons.IH)
  next
    case notMarker: False
    show ?thesis
    proof (cases "executeAnyPressurePoints (wth w) event (IsReplayEvent rh event)")
      case (Some a)
      with notMarker Cons.prems show ?thesis by (simp add: Let_def)
    next
      case None
      show ?thesis
      proof (cases "applyEvent ext event (IsReplayEvent rh event)
                      (\<not> IsReplayEvent rh event \<and> rest = []) w")
        case (Inl p)
        with None notMarker Cons.prems show ?thesis by (simp add: Let_def)
      next
        case (Inr x)
        obtain e1 w1 where x: "x = (e1, w1)" by (cases x)
        from Inr x have f: "sameFrame w w1" by (auto dest: applyEvent_frame)
        show ?thesis
        proof (cases e1)
          case None1: None
          with None notMarker Cons.prems Inr x
          have "applyBatch ext rh skip rest w1 ?re1 = Inr (e, w', re')"
            by (simp add: Let_def)
          from Cons.IH [OF this] f show ?thesis by (rule sameFrame_trans [rotated])
        next
          case (Some a)
          with None notMarker Cons.prems Inr x f show ?thesis by (simp add: Let_def)
        qed
      qed
    qed
  qed
qed

lemma processBatch_frame:
  assumes "processBatch ext skip rh es mks w rd re = Inr (e, w', rd', re')"
  shows "sameFrame w w'"
proof -
  from assms obtain e1 w1 where m1: "applyMarkers ext False mks w = Inr (e1, w1)"
    by (auto simp: processBatch_def split: sum.splits)
  note f1 = applyMarkers_frame [OF m1]
  show ?thesis
  proof (cases e1)
    case (Some a)
    with assms m1 f1 show ?thesis by (simp add: processBatch_def)
  next
    case None
    with assms m1 obtain e2 w2 re2 where b: "applyBatch ext rh skip es w1 re = Inr (e2, w2, re2)"
      by (auto simp: processBatch_def split: sum.splits)
    note f2 = sameFrame_trans [OF f1 applyBatch_frame [OF b]]
    show ?thesis
    proof (cases e2)
      case (Some a)
      with assms m1 None b f2 show ?thesis by (simp add: processBatch_def)
    next
      case None2: None
      with assms m1 None b obtain e3 w3 where m3: "applyMarkers ext True mks w2 = Inr (e3, w3)"
        by (auto simp: processBatch_def split: sum.splits)
      note f3 = sameFrame_trans [OF f2 applyMarkers_frame [OF m3]]
      show ?thesis
      proof (cases e3)
        case (Some a)
        with assms m1 None b None2 m3 f3 show ?thesis by (simp add: processBatch_def)
      next
        case None3: None
        from assms m1 None b None2 m3 None3
        have "w' = w3 \<or> (\<exists>evh1. w' = w3\<lparr>eventHandler := Some evh1\<rparr>)"
          by (auto simp: processBatch_def Let_def split: if_splits option.splits prod.splits)
        then have "sameFrame w3 w'" by (auto simp: sameFrame_def)
        with f3 show ?thesis by (rule sameFrame_trans)
      qed
    qed
  qed
qed

lemma processEvents_frame:
  "processEvents ext skip rh w rd re = Inr (e, w', rh', rd', re') \<Longrightarrow> sameFrame w w'"
proof (induction ext skip rh w rd re rule: processEvents.induct)
  case (1 ext skip rh w rd re)
  note eq = "1.prems"
  show ?case
  proof (cases "NextDecisionEvents rh")
    case (Inl p)
    with eq show ?thesis by (simp add: processEvents.simps [of ext skip rh])
  next
    case (Inr x)
    obtain batch mks e1 rh1 where x: "x = (batch, mks, e1, rh1)" by (cases x)
    show ?thesis
    proof (cases e1)
      case (Some a)
      with eq Inr x show ?thesis by (simp add: processEvents.simps [of ext skip rh])
    next
      case None
      show ?thesis
      proof (cases "length (elems batch) = 0")
        case True
        with eq Inr x None show ?thesis by (simp add: processEvents.simps [of ext skip rh])
      next
        case False
        show ?thesis
        proof (cases "processBatch ext skip rh1 (elems batch) mks w rd re")
          case pInl: (Inl p)
          with eq Inr x None False show ?thesis
            by (simp add: processEvents.simps [of ext skip rh])
        next
          case pInr: (Inr y)
          obtain e2 w1 rd1 re1 where y: "y = (e2, w1, rd1, re1)" by (cases y)
          note f = processBatch_frame [OF pInr [unfolded y]]
          show ?thesis
          proof (cases e2)
            case (Some a)
            with eq Inr x None False pInr y f show ?thesis
              by (simp add: processEvents.simps [of ext skip rh])
          next
            case None2: None
            with eq Inr x None False pInr y
            have "processEvents ext skip rh1 w1 rd1 re1 = Inr (e, w', rh', rd', re')"
              by (simp add: processEvents.simps [of ext skip rh])
            from "1.IH" [OF Inr x [symmetric] refl refl None False pInr y [symmetric] None2
                refl refl this] f
            show ?thesis by (rule sameFrame_trans [rotated])
          qed
        qed
      qed
    qed
  qed
qed

lemma resetHistory_Query:
  "resetHistory t iter = Inr (r, t1, iter1) \<Longrightarrow> Query t1 = Query t"
  by (auto simp: resetHistory_def split: option.splits prod.splits sum.splits)

lemma resetStateIfDestroyed_frame:
  assumes "resetStateIfDestroyed ext w t iter = Inr (e, w1, t1, iter1)"
  shows "wth w1 = wth w \<and> Query t1 = Query t \<and> mutex w1 = mutex w
         \<and> (previousStartedEventID w1 = previousStartedEventID w \<or> previousStartedEventID w1 = 0)
         \<and> eventHandler w1 \<noteq> None"
  using assms
  by (auto simp: resetStateIfDestroyed_def isDestroyed_def createEventHandler_def clearState_def
      clearCurrentTask_def Let_def
      split: if_splits option.splits prod.splits sum.splits dest: resetHistory_Query)

lemma ResetIfStale_frame:
  assumes "ResetIfStale ext w t iter = Inr (e, w1, t1, iter1)"
  shows "wth w1 = wth w \<and> Query t1 = Query t \<and> mutex w1 = mutex w
         \<and> (previousStartedEventID w1 = previousStartedEventID w \<or> previousStartedEventID w1 = 0)
         \<and> (eventHandler w \<noteq> None \<longrightarrow> eventHandler w1 \<noteq> None)"
proof (cases "w1 = w \<and> t1 = t")
  case True
  then show ?thesis by simp
next
  case False
  with assms have "resetStateIfDestroyed ext (clearState w) t iter = Inr (e, w1, t1, iter1)"
    by (auto simp: ResetIfStale_def split: option.splits if_splits)
  from resetStateIfDestroyed_frame [OF this] show ?thesis
    by (auto simp: clearState_def clearCurrentTask_def)
qed


lemma SetCurrentTask_frame:
  "wth (SetCurrentTask now t w) = wth w
   \<and> eventHandler (SetCurrentTask now t w) = eventHandler w
   \<and> currentDecisionTask (SetCurrentTask now t w) = Some t
   \<and> (Query t \<noteq> None \<longrightarrow>
        previousStartedEventID (SetCurrentTask now t w) = previousStartedEventID w)"
  by (simp add: SetCurrentTask_def Let_def)








lemmas processing_eval =
  ProcessWorkflowTask_def ResetIfStale_def resetStateIfDestroyed_def resetHistory_def
  createEventHandler_def clearState_def clearCurrentTask_def isDestroyed_def isFullHistory_def
  SetCurrentTask_def skipReplayCheck_def newHistory_def processEvents.simps processBatch_def
  applyEvent_def executeAnyPressurePoints_def IsReplayEvent_def checkAndComplete_def
  CompleteDecisionTask_def startLocalActivities_def hasPendingLocalActivityWork_def
  wth_completeWorkflow_def closeDecisionOf_def getErrorDetails_def NewCustomError_def
  createNewDecision_def completeWorkflow_def Reset_def GetNextPage_def HasNextPage_def
  getMoreEvents_def

lemma CompleteDecisionTask_custom_error:
  assumes t: "currentDecisionTask w = Some t" and q: "Query t = None"
    and evh: "eventHandler w \<noteq> None"
  shows "\<exists>req w'.
           CompleteDecisionTask ext True (completeWorkflow [] (Some (CustomError reason details)) w)
             ts = Inr (Some (DecisionTaskCompleted req), w', ts)
         \<and> rc_Decisions req \<noteq> []
         \<and> last (rc_Decisions req) =
             \<lparr>DecisionType = DecisionTypeFailWorkflowExecution,
              DecisionAttrs = FailWorkflowExecutionAttrs
                \<lparr>fwd_Reason = reason, fwd_Details = details\<rparr>\<rparr>"
proof -
  let ?w = "completeWorkflow [] (Some (CustomError reason details)) w"
  from evh obtain h0 where h0: "eventHandler w = Some h0" by auto
  obtain ds h1 where gd: "getDecisions ext h0 = (ds, h1)" by (cases "getDecisions ext h0")
  have s: "startLocalActivities True ?w ts = Inr (False, ?w, ts)"
    by (simp add: startLocalActivities_def hasPendingLocalActivityWork_def completeWorkflow_def
        split: option.splits)
  show ?thesis
    using t q h0 gd s
    by (simp add: CompleteDecisionTask_def wth_completeWorkflow_def closeDecisionOf_def
        getErrorDetails_def createNewDecision_def completeWorkflow_def Let_def)
qed

text \<open>
  C2. Take a non-query task with a full history, processed by a context that has an
  event handler, for which \<open>ResetIfStale\<close> reports no error, the replay loop ends without
  error, and the replay matcher reports the mismatch \<open>m\<close>. Under the FailWorkflow policy
  \<open>ProcessWorkflowTask\<close> returns no error and a \<open>RespondDecisionTaskCompleted\<close> request
  whose last decision is a \<open>FailWorkflowExecution\<close> with reason
  \<open>nondeterministic workflow\<close> (its details are the encoded text of \<open>m\<close>). Under the
  BlockWorkflow policy it returns the error \<open>m\<close> and no request.
\<close>

theorem ProcessWorkflowTask_nondeterministic:
  assumes evh: "eventHandler w \<noteq> None"
    and stale: "ResetIfStale ext w t iter = Inr (None, w1, t1, iter1)"
    and notQuery: "Query t1 = None"
    and full: "History t1 = Some h" "isFullHistory h"
    and replay: "processEvents ext False
                   \<lparr>workflowTask = \<lparr>task = t1, historyIterator = iter1\<rparr>,
                    loadedEvents = Events h, currentIndex = 0, nextBatch = None\<rparr>
                   (SetCurrentTask now t1 w1) [] []
                 = Inr (None, w3, rh, replayDecisions, respondEvents)"
    and mismatch: "matchReplayWithHistory (names ext) replayDecisions respondEvents
                   = Inr (Some m)"
  shows "(nonDeterministicWorkflowPolicy (wth w) = NonDeterministicWorkflowPolicyFailWorkflow \<longrightarrow>
           (\<exists>req w'.
              ProcessWorkflowTask ext now w t iter ts
                = Inr (Some (DecisionTaskCompleted req), None, w', t1,
                       historyIterator (workflowTask rh), ts)
              \<and> \<lparr>DecisionType = DecisionTypeFailWorkflowExecution,
                  DecisionAttrs = FailWorkflowExecutionAttrs
                    \<lparr>fwd_Reason = ''nondeterministic workflow'',
                     fwd_Details = encodeText ext (errorText ext m)\<rparr>\<rparr>
                  \<in> set (rc_Decisions req)
              \<and> last (rc_Decisions req) =
                  \<lparr>DecisionType = DecisionTypeFailWorkflowExecution,
                   DecisionAttrs = FailWorkflowExecutionAttrs
                     \<lparr>fwd_Reason = ''nondeterministic workflow'',
                      fwd_Details = encodeText ext (errorText ext m)\<rparr>\<rparr>))
       \<and> (nonDeterministicWorkflowPolicy (wth w) = NonDeterministicWorkflowPolicyBlockWorkflow \<longrightarrow>
           ProcessWorkflowTask ext now w t iter ts
             = Inr (None, Some m, w3, t1, historyIterator (workflowTask rh), ts))"
proof -
  let ?w2 = "SetCurrentTask now t1 w1"
  let ?rh0 = "\<lparr>workflowTask = \<lparr>task = t1, historyIterator = iter1\<rparr>,
               loadedEvents = Events h, currentIndex = 0, nextBatch = None\<rparr>"
  note f1 = ResetIfStale_frame [OF stale]
  note f2 = SetCurrentTask_frame [of now t1 w1]
  from processEvents_frame [OF replay]
  have f3: "sameFrame ?w2 w3" .
  from f1 f2 f3 evh have wth3: "wth w3 = wth w" and evh3: "eventHandler w3 \<noteq> None"
    and cur3: "currentDecisionTask w3 = Some t1"
    by (simp_all add: sameFrame_def)
  have nh: "newHistory \<lparr>task = t1, historyIterator = iter1\<rparr> = Inr ?rh0"
    using full by (simp add: newHistory_def)
  have sk: "skipReplayCheck ?w2 = Inr False"
    using f2 notQuery full by (simp add: skipReplayCheck_def)
  have pw: "ProcessWorkflowTask ext now w t iter ts =
              (case checkAndComplete ext False w3 replayDecisions respondEvents ts of
                 Inl p \<Rightarrow> Inl p
               | Inr (r, e, w4, ts1) \<Rightarrow>
                   Inr (r, e, w4, t1, historyIterator (workflowTask rh), ts1))"
    using stale nh sk replay by (simp add: ProcessWorkflowTask_def Let_def)
  show ?thesis
  proof (intro conjI impI)
    assume pol: "nonDeterministicWorkflowPolicy (wth w) = NonDeterministicWorkflowPolicyFailWorkflow"
    let ?reason = "''nondeterministic workflow''" and ?details = "encodeText ext (errorText ext m)"
    from CompleteDecisionTask_custom_error [OF cur3 notQuery evh3, of ext ?reason ?details ts]
    obtain req w' where
      cd: "CompleteDecisionTask ext True (completeWorkflow [] (Some (CustomError ?reason ?details)) w3)
             ts = Inr (Some (DecisionTaskCompleted req), w', ts)"
      and ne: "rc_Decisions req \<noteq> []"
      and lst: "last (rc_Decisions req) =
             \<lparr>DecisionType = DecisionTypeFailWorkflowExecution,
              DecisionAttrs = FailWorkflowExecutionAttrs
                \<lparr>fwd_Reason = ?reason, fwd_Details = ?details\<rparr>\<rparr>"
      by blast
    from evh3 obtain h3 where h3: "eventHandler w3 = Some h3" by auto
    have "checkAndComplete ext False w3 replayDecisions respondEvents ts
            = Inr (Some (DecisionTaskCompleted req), None, w', ts)"
      using mismatch pol wth3 h3 cd
      by (simp add: checkAndComplete_def NewCustomError_def)
    with pw have "ProcessWorkflowTask ext now w t iter ts
                = Inr (Some (DecisionTaskCompleted req), None, w', t1,
                       historyIterator (workflowTask rh), ts)" by simp
    moreover from ne lst have "\<lparr>DecisionType = DecisionTypeFailWorkflowExecution,
              DecisionAttrs = FailWorkflowExecutionAttrs
                \<lparr>fwd_Reason = ?reason, fwd_Details = ?details\<rparr>\<rparr> \<in> set (rc_Decisions req)"
      using last_in_set by metis
    ultimately show "\<exists>req w'.
              ProcessWorkflowTask ext now w t iter ts
                = Inr (Some (DecisionTaskCompleted req), None, w', t1,
                       historyIterator (workflowTask rh), ts)
              \<and> \<lparr>DecisionType = DecisionTypeFailWorkflowExecution,
                  DecisionAttrs = FailWorkflowExecutionAttrs
                    \<lparr>fwd_Reason = ''nondeterministic workflow'',
                     fwd_Details = encodeText ext (errorText ext m)\<rparr>\<rparr>
                  \<in> set (rc_Decisions req)
              \<and> last (rc_Decisions req) =
                  \<lparr>DecisionType = DecisionTypeFailWorkflowExecution,
                   DecisionAttrs = FailWorkflowExecutionAttrs
                     \<lparr>fwd_Reason = ''nondeterministic workflow'',
                      fwd_Details = encodeText ext (errorText ext m)\<rparr>\<rparr>"
      using lst by blast
  next
    assume pol: "nonDeterministicWorkflowPolicy (wth w) = NonDeterministicWorkflowPolicyBlockWorkflow"
    have "checkAndComplete ext False w3 replayDecisions respondEvents ts
            = Inr (None, Some m, w3, ts)"
      using mismatch pol wth3 by (simp add: checkAndComplete_def)
    with pw show "ProcessWorkflowTask ext now w t iter ts
             = Inr (None, Some m, w3, t1, historyIterator (workflowTask rh), ts)" by simp
  qed
qed

lemma replay_decisionTask:
  "processEvents idleExternals False
     \<lparr>workflowTask = \<lparr>task = decisionTask, historyIterator = None\<rparr>,
      loadedEvents = Events \<lparr>Events = history_activity\<rparr>, currentIndex = 0, nextBatch = None\<rparr>
     (SetCurrentTask 7 decisionTask (freshContext policy)) [] []
   = Inr (None, SetCurrentTask 7 decisionTask (freshContext policy),
          \<lparr>workflowTask = \<lparr>task = decisionTask, historyIterator = None\<rparr>,
           loadedEvents = [], currentIndex = 0, nextBatch = Some []\<rparr>,
          [], [activityScheduledEvent 5 ''1'' ''a.b.Foo''])"
  by (simp add: processing_eval reorderer_eval idleExternals_def idleHandler_def
      freshContext_def exampleContext_def exampleInfo_def exampleHandler_def decisionTask_def
      history_activity_def startedEvent_def activityScheduledEvent_def
      mkTask_def word_sle_eq)

lemma mismatch_decisionTask:
  "matchReplayWithHistory (names idleExternals) [] [activityScheduledEvent 5 ''1'' ''a.b.Foo'']
   = Inr (Some (NondeterministicMissingReplayDecision
                  (activityScheduledEvent 5 ''1'' ''a.b.Foo'')))"
  by (simp add: skipDeterministicCheckForEvent_def activityScheduledEvent_def)

lemma ProcessWorkflowTask_decisionTask:
  "ProcessWorkflowTask idleExternals 7 (freshContext NonDeterministicWorkflowPolicyFailWorkflow)
     decisionTask None emptyTunnels
   = Inr (Some (DecisionTaskCompleted
                  \<lparr>rc_TaskToken = [], rc_Decisions = [nondeterministicFailure],
                   rc_Identity = ''worker'', rc_ReturnNewDecisionTask = True,
                   rc_ForceCreateNewDecisionTask = False\<rparr>),
          None,
          (freshContext NonDeterministicWorkflowPolicyFailWorkflow)
            \<lparr>isWorkflowCompleted := True,
             err := Some (CustomError ''nondeterministic workflow'' []),
             previousStartedEventID := 7, decisionStartTime := 7\<rparr>,
          decisionTask, None, emptyTunnels)"
  by (simp add: processing_eval reorderer_eval idleExternals_def idleHandler_def
      freshContext_def exampleContext_def exampleInfo_def exampleHandler_def decisionTask_def
      history_activity_def startedEvent_def activityScheduledEvent_def nondeterministicFailure_def
      skipDeterministicCheckForEvent_def mkTask_def emptyTunnels_def word_sle_eq)

theorem ProcessWorkflowTask_nondeterministic_witness:
  "eventHandler (freshContext NonDeterministicWorkflowPolicyBlockWorkflow) \<noteq> None
   \<and> ResetIfStale idleExternals (freshContext NonDeterministicWorkflowPolicyBlockWorkflow)
         decisionTask None
       = Inr (None, freshContext NonDeterministicWorkflowPolicyBlockWorkflow, decisionTask, None)
   \<and> Query decisionTask = None
   \<and> History decisionTask = Some \<lparr>Events = history_activity\<rparr>
   \<and> isFullHistory \<lparr>Events = history_activity\<rparr>
   \<and> matchReplayWithHistory (names idleExternals) []
         [activityScheduledEvent 5 ''1'' ''a.b.Foo'']
       = Inr (Some (NondeterministicMissingReplayDecision
                      (activityScheduledEvent 5 ''1'' ''a.b.Foo'')))
   \<and> ProcessWorkflowTask idleExternals 7
         (freshContext NonDeterministicWorkflowPolicyBlockWorkflow) decisionTask None
         emptyTunnels
       = Inr (None,
              Some (NondeterministicMissingReplayDecision
                      (activityScheduledEvent 5 ''1'' ''a.b.Foo'')),
              SetCurrentTask 7 decisionTask
                (freshContext NonDeterministicWorkflowPolicyBlockWorkflow),
              decisionTask, None, emptyTunnels)
   \<and> ProcessWorkflowTask idleExternals 7
         (freshContext NonDeterministicWorkflowPolicyFailWorkflow) decisionTask None
         emptyTunnels
       = Inr (Some (DecisionTaskCompleted
                      \<lparr>rc_TaskToken = [], rc_Decisions = [nondeterministicFailure],
                       rc_Identity = ''worker'', rc_ReturnNewDecisionTask = True,
                       rc_ForceCreateNewDecisionTask = False\<rparr>),
              None,
              (freshContext NonDeterministicWorkflowPolicyFailWorkflow)
                \<lparr>isWorkflowCompleted := True,
                 err := Some (CustomError ''nondeterministic workflow'' []),
                 previousStartedEventID := 7, decisionStartTime := 7\<rparr>,
              decisionTask, None, emptyTunnels)"
proof -
  let ?w = "freshContext NonDeterministicWorkflowPolicyBlockWorkflow"
  have evh: "eventHandler ?w \<noteq> None"
    by (simp add: freshContext_def exampleContext_def)
  have stale: "ResetIfStale idleExternals ?w decisionTask None
                 = Inr (None, ?w, decisionTask, None)"
    by (simp add: ResetIfStale_def freshContext_def exampleContext_def decisionTask_def
        mkTask_def history_activity_def startedEvent_def)
  have notQuery: "Query decisionTask = None"
    by (simp add: decisionTask_def mkTask_def)
  have hist: "History decisionTask = Some \<lparr>Events = history_activity\<rparr>"
    by (simp add: decisionTask_def mkTask_def)
  have full: "isFullHistory \<lparr>Events = history_activity\<rparr>"
    by (simp add: isFullHistory_def history_activity_def startedEvent_def)
  have pol: "nonDeterministicWorkflowPolicy (wth ?w) = NonDeterministicWorkflowPolicyBlockWorkflow"
    by (simp add: freshContext_def exampleHandler_def)
  from ProcessWorkflowTask_nondeterministic
    [OF evh stale notQuery hist full replay_decisionTask mismatch_decisionTask,
     of emptyTunnels] pol
  have block: "ProcessWorkflowTask idleExternals 7 ?w decisionTask None emptyTunnels
       = Inr (None,
              Some (NondeterministicMissingReplayDecision
                      (activityScheduledEvent 5 ''1'' ''a.b.Foo'')),
              SetCurrentTask 7 decisionTask ?w, decisionTask, None, emptyTunnels)"
    by simp
  from evh stale notQuery hist full mismatch_decisionTask block
    ProcessWorkflowTask_decisionTask
  show ?thesis by blast
qed






section \<open>Properties of the heartbeat invoker\<close>

text \<open>
  What \<open>Heartbeat\<close> does in general. With a batch window open it stores the details and
  returns nil without a request to the service. With none open it hands exactly one
  request to the service; on success or a cancellation it clears the stored details and
  opens a window of \<open>batchWindowSeconds\<close> of the timeout (of ten minutes when the timeout
  is not positive), and on another error it leaves the invoker as it is.
\<close>

lemma Heartbeat_effects:
  "(hbBatchEndTimer i \<noteq> None \<longrightarrow>
      Heartbeat service details i fx = (None, i\<lparr>lastDetailsToReport := Some details\<rparr>, fx))
   \<and> (hbBatchEndTimer i = None \<and> Heartbeat service details i fx = (e, i', fx') \<longrightarrow>
        requestsSent fx' = requestsSent fx
          @ [\<lparr>hb_TaskToken = taskToken i, hb_Details = details, hb_Identity = inv_identity i\<rparr>]
        \<and> (if e = None \<or> (\<exists>d. e = Some (CanceledError d)) \<or> e = Some EntityNotExistsError
            then i' = i\<lparr>lastDetailsToReport := None,
                        hbBatchEndTimer :=
                          Some (batchWindowSeconds
                                  (if sint (heartBeatTimeoutInSec i) \<le> 0 then 600
                                   else heartBeatTimeoutInSec i) * Second)\<rparr>
            else i' = i))"
  by (auto simp: Heartbeat_def internalHeartBeat_def recordActivityHeartbeat_def Let_def
      defaultHeartBeatIntervalInSec_def
      split: prod.splits option.splits error.splits if_splits)

lemma batchWindowSeconds_examples:
  "batchWindowSeconds 600 = 480" "batchWindowSeconds 10 = 8"
  "batchWindowSeconds 3 = 2" "batchWindowSeconds 1 = 0"
  by (simp_all add: batchWindowSeconds_def roundToFloat32_def float32_0_8_def bitLength.simps
      Let_def)

text \<open>
  C9. At a heartbeat timeout of one second, with no batch window open and a successful
  request, \<open>Heartbeat\<close> hands one request to the service and opens a batch window of
  zero nanoseconds, while eighty percent of the timeout is 800 milliseconds: the
  conversion to \<^verbatim>\<open>time.Duration\<close> drops the fraction of the seconds before the
  multiplication by \<^verbatim>\<open>time.Second\<close>.
\<close>

theorem Heartbeat_window_one_second:
  "Heartbeat acceptingService [1, 2] (exampleInvoker 1) noEffects
     = (None, (exampleInvoker 1)\<lparr>hbBatchEndTimer := Some 0\<rparr>,
        \<lparr>requestsSent = [\<lparr>hb_TaskToken = [], hb_Details = [1, 2], hb_Identity = ''worker''\<rparr>],
         cancelHandlerCalls = 0\<rparr>)
   \<and> eightyPercentOf 1 = 800000000"
  by (simp add: Heartbeat_def internalHeartBeat_def recordActivityHeartbeat_def
      exampleInvoker_def acceptingService_def noEffects_def eightyPercentOf_def Second_def
      batchWindowSeconds_examples Let_def)

section \<open>The eviction callback on a context without a tunnel\<close>

text \<open>
  \<open>Unlock\<close> with no error releases the context a task handler without a tunnel has
  created for a first decision task and keeps it in the sticky cache.
\<close>

lemma Unlock_replayContext:
  "Unlock None (replayContext\<lparr>mutex := True\<rparr>) [''run'' \<mapsto> 0]
     = Inr (replayContext, [''run'' \<mapsto> 0])"
  by (simp add: Unlock_def hasPendingLocalActivityWork_def replayContext_def
      replayHandler_def exampleContext_def exampleHandler_def)

text \<open>
  C7. A task handler without a tunnel puts the context it creates for a first decision
  task into the sticky cache: the context is live (its stored error is nil, the workflow
  is not completed, it has an event handler) and has no tunnel. On that context, once it
  is unlocked, the eviction callback panics with a nil pointer dereference in
  \<open>queueResetStickinessTask\<close>: no request is enqueued, the state is not cleared and the
  context is not destroyed. \<open>CompleteDecisionTask\<close> on the other hand tests the tunnel
  for nil before it uses it.
\<close>

theorem onEviction_nil_tunnel:
  "getOrCreateWorkflowContext idleExternals replayHandler firstDecisionTask None emptyWorld
     = Inr (Some 0, None, firstDecisionTask, None,
            \<lparr>contexts = [0 \<mapsto> replayContext\<lparr>mutex := True\<rparr>], nextRef = 1,
             stickyCache = [''run'' \<mapsto> 0], cacheCreated = True\<rparr>)
   \<and> err replayContext = None \<and> \<not> isWorkflowCompleted replayContext
   \<and> \<not> isDestroyed replayContext \<and> \<not> mutex replayContext
   \<and> laTunnel replayContext = None
   \<and> queueResetStickinessTask (Lock replayContext) emptyTunnels = Inl NilPointerDereference
   \<and> onEviction replayContext emptyTunnels = Inl NilPointerDereference"
  by (simp add: getOrCreateWorkflowContext_def getOrCreateBody_def finishGetOrCreate_def
      createWorkflowContext_def putWorkflowContext_def getWorkflowContext_def Lock_def
      onEviction_def shouldResetStickyOnEviction_def queueResetStickinessTask_def
      isDestroyed_def
      processing_eval idleExternals_def idleHandler_def replayContext_def replayHandler_def
      exampleContext_def exampleInfo_def exampleHandler_def firstDecisionTask_def
      startedEvent_def mkTask_def mkEvent_def emptyWorld_def Let_def)

end
